theory Spec2Isabelle
  imports Main "HOL-Library.AList"
begin

section \<open>Exceptions and results\<close>

text \<open>
  The script \<^verbatim>\<open>deploy_to_blade.py\<close> reports every failure it recognises as a
  \<^verbatim>\<open>ContextualError\<close> whose text is one of a few fixed formats. The formats are
  kept apart as constructors that carry the values the format interpolates:
  \<^item> \<open>ExecFailed argv err\<close>: \<^verbatim>\<open>"executing '%s' failed - %s"\<close> (\<^verbatim>\<open>run_cmd\<close>);
  \<^item> \<open>TimedOutNotTerminated argv time\<close>: \<^verbatim>\<open>"'%s' timed out and did not terminate as
    expected after %d seconds"\<close> (\<^verbatim>\<open>run_cmd\<close>);
  \<^item> \<open>CommandFailed argv\<close>: \<^verbatim>\<open>"command '%s' failed"\<close> (\<^verbatim>\<open>run_cmd\<close>);
  \<^item> \<open>TimedOutKilled argv\<close>: \<^verbatim>\<open>"command '%s' timed out and was killed"\<close> (\<^verbatim>\<open>run_cmd\<close>);
  \<^item> \<open>ConfigLoadFailed path err\<close>: \<^verbatim>\<open>"failed to load blade configuration file '%s' - %s"\<close>;
  \<^item> \<open>TunnelNameConflict name\<close>: \<^verbatim>\<open>"attempting to create virtual network '%s' but
    conflicting non-virtual network interface already exists on blade"\<close>;
  \<^item> \<open>BridgeNameConflict name bridge_name\<close>: \<^verbatim>\<open>"attempting to create bridge for virtual
    network '%s' [%s] but conflicting non-bridge network interface already exists on blade"\<close>;
  \<^item> \<open>NoUnderlay endpoint_ips\<close>: \<^verbatim>\<open>"no network device was found with an IP address
    matching any of the following endpoint IPs: %s"\<close>.

  The other exceptions are the ones the Python library raises in the code paths modelled
  here and that the script does not catch where they arise.
\<close>

datatype contextual =
    ExecFailed "string list" string
  | TimedOutNotTerminated "string list" int
  | CommandFailed "string list"
  | TimedOutKilled "string list"
  | ConfigLoadFailed string string
  | TunnelNameConflict string
  | BridgeNameConflict string string
  | NoUnderlay "string list"

datatype exn =
    ContextualError contextual
  | UsageError string
  | OSError string
  | JSONDecodeError
  | KeyError string

text \<open>
  A piece of the script is a function from the state before to a result and the state
  after. The result is \<open>Some (Inr v)\<close> when it returns \<open>v\<close>, \<open>Some (Inl e)\<close> when it
  raises \<open>e\<close>, and \<open>None\<close> when it is still polling a command after the number of polls
  it was given (see \<open>wait_loop\<close>). An exception or an unfinished poll ends the sequence,
  and the state reached so far stays.
\<close>

type_synonym ('a, 's) prog = "'s \<Rightarrow> (exn + 'a) option \<times> 's"

definition ret :: "'a \<Rightarrow> ('a, 's) prog" where
  "ret v s = (Some (Inr v), s)"

definition raise :: "exn \<Rightarrow> ('a, 's) prog" where
  "raise e s = (Some (Inl e), s)"

definition bnd :: "('a, 's) prog \<Rightarrow> ('a \<Rightarrow> ('b, 's) prog) \<Rightarrow> ('b, 's) prog" where
  "bnd m f s =
     (case m s of
        (Some (Inr v), s') \<Rightarrow> f v s'
      | (Some (Inl e), s') \<Rightarrow> (Some (Inl e), s')
      | (None, s') \<Rightarrow> (None, s'))"

definition seq :: "(unit, 's) prog \<Rightarrow> ('b, 's) prog \<Rightarrow> ('b, 's) prog" where
  "seq m k = bnd m (\<lambda>_. k)"

definition do_if :: "bool \<Rightarrow> (unit, 's) prog \<Rightarrow> (unit, 's) prog" where
  "do_if b m = (if b then m else ret ())"

section \<open>The operating system as the script sees it\<close>

text \<open>
  What the interface and forwarding-database listings hold once \<^verbatim>\<open>json.loads\<close> has
  parsed them: every key the script reads is a field, absent when the key is absent.
  \<open>fdb_dsts\<close> is the key \<^verbatim>\<open>_get_interfaces\<close> adds.
\<close>

record addr_info =
  local :: "string option"

record linkinfo =
  info_kind :: "string option"

record iface =
  ifname :: "string option"
  linkinfo :: "linkinfo option"
  addr_info :: "addr_info list option"
  fdb_dsts :: "string list option"

record fdb_entry =
  fdb_ifname :: "string option"
  fdb_dst :: "string option"

text \<open>
  A listing command opened with \<^verbatim>\<open>Popen\<close> and read through \<^verbatim>\<open>json.loads\<close> has three
  outcomes: \<^verbatim>\<open>Popen\<close> raises \<^verbatim>\<open>OSError\<close> (the tool is not there), \<^verbatim>\<open>json.loads\<close> raises
  \<^verbatim>\<open>JSONDecodeError\<close>, or the parsed value is returned.
\<close>

datatype 'a query = ToolUnavailable string | NotJson | Parsed 'a

text \<open>
  The document \<^verbatim>\<open>add_virtual_network\<close> writes to its temporary file: a \<^verbatim>\<open>network\<close>
  element with a \<^verbatim>\<open>name\<close>, a \<^verbatim>\<open>forward\<close> mode and a \<^verbatim>\<open>bridge\<close> name.
\<close>

datatype network_xml = NetworkXml (xml_name: string) (xml_forward_mode: string) (xml_bridge: string)

text \<open>The blade configuration loaded from YAML, with \<^verbatim>\<open>dict.get\<close> defaults left to the code.\<close>

text \<open>
  A YAML scalar as \<^verbatim>\<open>str(...)\<close> is applied to it: an integer or a string.
\<close>

datatype scalar = IntVal int | StrVal string

record network_config =
  network_name :: "string option"
  tunnel_name :: "string option"
  bridge_name :: "string option"
  tunnel_id :: "scalar option"
  endpoint_ips :: "string list option"

record package =
  blade_classes :: "string list option"
  preconfig_settings :: "string list option"
  packages :: "string list option"
  services_disable :: "string list option"
  services_enable :: "string list option"

record config =
  cfg_networks :: "(string \<times> network_config) list option"
  cfg_packages :: "(string \<times> package) list option"
  cfg_blade_class :: "string option"

text \<open>
  The calls the script makes out of the Python process, over a world \<open>'w\<close> that is
  everything outside it (kernel devices, libvirt, files, the child process):
  \<^item> \<open>popen argv stdin\<close>: \<^verbatim>\<open>Popen([cmd, *args], stdin=...)\<close>; \<open>Some err\<close> is \<^verbatim>\<open>OSError(err)\<close>,
    \<open>None\<close> a started child. \<open>stdin\<close> is \<open>None\<close> for \<^verbatim>\<open>sys.stdin\<close> and the lines of the
    temporary file otherwise;
  \<^item> \<open>wait\<close>: \<^verbatim>\<open>command.wait(timeout=5)\<close>; \<open>Some exitval\<close>, or \<open>None\<close> for \<^verbatim>\<open>TimeoutExpired\<close>;
  \<^item> \<open>terminate\<close>, \<open>kill\<close>: the two signals;
  \<^item> \<open>named_temporary_file doc\<close>: the \<^verbatim>\<open>NamedTemporaryFile\<close> written and flushed, giving
    its name; \<open>close_temporary_file\<close> its removal when the \<^verbatim>\<open>with\<close> block ends;
  \<^item> \<open>ip_addr\<close>, \<open>bridge_fdb\<close>: \<^verbatim>\<open>ip -d --json addr\<close> and \<^verbatim>\<open>bridge --json fdb\<close>;
  \<^item> \<open>virsh_net_list\<close>: \<^verbatim>\<open>virsh net-list --name\<close>, \<open>Inl err\<close> for \<^verbatim>\<open>OSError\<close>, else the lines
    of its output, each with its line end;
  \<^item> \<open>load_config path\<close>: \<^verbatim>\<open>open\<close> and \<^verbatim>\<open>yaml.safe_load\<close>, \<open>Inl err\<close> for \<^verbatim>\<open>OSError\<close>.
\<close>

record 'w os =
  popen :: "string list \<Rightarrow> string list option \<Rightarrow> 'w \<Rightarrow> string option \<times> 'w"
  wait :: "'w \<Rightarrow> int option \<times> 'w"
  terminate :: "'w \<Rightarrow> 'w"
  kill :: "'w \<Rightarrow> 'w"
  named_temporary_file :: "network_xml \<Rightarrow> 'w \<Rightarrow> string \<times> 'w"
  close_temporary_file :: "string \<Rightarrow> 'w \<Rightarrow> 'w"
  ip_addr :: "'w \<Rightarrow> iface list query"
  bridge_fdb :: "'w \<Rightarrow> fdb_entry list query"
  virsh_net_list :: "'w \<Rightarrow> string + string list"
  load_config :: "string \<Rightarrow> 'w \<Rightarrow> string + config"

section \<open>\<^verbatim>\<open>run_cmd\<close>\<close>

text \<open>
  The \<^verbatim>\<open>while True\<close> loop of \<^verbatim>\<open>run_cmd\<close>. The first argument bounds the number of
  \<^verbatim>\<open>command.wait(timeout=5)\<close> calls; when it is used up the loop is still polling and the
  result is \<open>None\<close>. \<open>time\<close> and \<open>signaled\<close> are the loop's two variables; the source
  never assigns \<open>signaled\<close> after \<^verbatim>\<open>signaled = False\<close>, so it is passed on unchanged.
  A \<^verbatim>\<open>timeout\<close> of \<^verbatim>\<open>None\<close> or \<^verbatim>\<open>0\<close> is false in \<^verbatim>\<open>if timeout and time > timeout\<close>.
  When the loop ends by \<^verbatim>\<open>break\<close> it yields \<open>exitval\<close> and \<open>signaled\<close>, which the code
  after the loop reads.
\<close>

fun wait_loop ::
  "nat \<Rightarrow> 'w os \<Rightarrow> string list \<Rightarrow> int option \<Rightarrow> int \<Rightarrow> bool \<Rightarrow> (int \<times> bool, 'w) prog" where
  "wait_loop 0 os argv timeout time signaled w = (None, w)"
| "wait_loop (Suc n) os argv timeout time signaled w =
     (case wait os w of
        (Some exitval, w') \<Rightarrow> (Some (Inr (exitval, signaled)), w')
      | (None, w') \<Rightarrow>
          (let time' = time + 5 in
           if (case timeout of None \<Rightarrow> False | Some t \<Rightarrow> t \<noteq> 0 \<and> time' > t) then
             (if \<not> signaled then wait_loop n os argv timeout time' signaled (terminate os w')
              else (Some (Inl (ContextualError (TimedOutNotTerminated argv time'))), kill os w'))
           else wait_loop n os argv timeout time' signaled w'))"

definition run_cmd ::
  "nat \<Rightarrow> 'w os \<Rightarrow> string \<Rightarrow> string list \<Rightarrow> string list option \<Rightarrow> int option \<Rightarrow> (unit, 'w) prog" where
  "run_cmd fuel os cmd args stdin timeout w =
     (case popen os (cmd # args) stdin w of
        (Some err, w1) \<Rightarrow> (Some (Inl (ContextualError (ExecFailed (cmd # args) err))), w1)
      | (None, w1) \<Rightarrow>
          (case wait_loop fuel os (cmd # args) timeout 0 False w1 of
             (None, w2) \<Rightarrow> (None, w2)
           | (Some (Inl e), w2) \<Rightarrow> (Some (Inl e), w2)
           | (Some (Inr (exitval, signaled)), w2) \<Rightarrow>
               (if exitval \<noteq> 0 then
                  (Some (Inl (ContextualError
                     (if \<not> signaled then CommandFailed (cmd # args)
                      else TimedOutKilled (cmd # args)))), w2)
                else (Some (Inr ()), w2))))"

section \<open>Recording what is asked of the operating system\<close>

text \<open>
  \<open>traced os\<close> behaves as \<open>os\<close> and writes down every call that can change the world,
  in order. The listing commands change nothing and are not written down.
\<close>

datatype event =
    Spawn "string list" "string list option"
  | Wait
  | Terminate
  | Kill
  | TempFile network_xml string
  | CloseTemp string

definition traced :: "'w os \<Rightarrow> (event list \<times> 'w) os" where
  "traced os = \<lparr>
     popen = (\<lambda>argv stdin (t, w).
        case popen os argv stdin w of (r, w') \<Rightarrow> (r, (t @ [Spawn argv stdin], w'))),
     wait = (\<lambda>(t, w). case wait os w of (r, w') \<Rightarrow> (r, (t @ [Wait], w'))),
     terminate = (\<lambda>(t, w). (t @ [Terminate], terminate os w)),
     kill = (\<lambda>(t, w). (t @ [Kill], kill os w)),
     named_temporary_file = (\<lambda>doc (t, w).
        case named_temporary_file os doc w of (f, w') \<Rightarrow> (f, (t @ [TempFile doc f], w'))),
     close_temporary_file = (\<lambda>f (t, w). (t @ [CloseTemp f], close_temporary_file os f w)),
     ip_addr = (\<lambda>(t, w). ip_addr os w),
     bridge_fdb = (\<lambda>(t, w). bridge_fdb os w),
     virsh_net_list = (\<lambda>(t, w). virsh_net_list os w),
     load_config = (\<lambda>path (t, w). load_config os path w) \<rparr>"

text \<open>The commands started, in order, with their arguments.\<close>

fun commands :: "event list \<Rightarrow> string list list" where
  "commands [] = []"
| "commands (Spawn argv stdin # t) = argv # commands t"
| "commands (e # t) = commands t"

text \<open>A child that never exits and ignores both signals.\<close>

definition stubborn :: "unit os" where
  "stubborn = \<lparr>
     popen = (\<lambda>argv stdin w. (None, w)),
     wait = (\<lambda>w. (None, w)),
     terminate = (\<lambda>w. w),
     kill = (\<lambda>w. w),
     named_temporary_file = (\<lambda>doc w. (''/tmp/tmpfile'', w)),
     close_temporary_file = (\<lambda>f w. w),
     ip_addr = (\<lambda>w. Parsed []),
     bridge_fdb = (\<lambda>w. Parsed []),
     virsh_net_list = (\<lambda>w. Inr []),
     load_config = (\<lambda>path w. Inl ''No such file or directory'') \<rparr>"


text \<open>A child that starts and exits with status 0 at the first poll, on a blade whose
  listings are the given ones.\<close>

definition fixed_os :: "iface list \<Rightarrow> fdb_entry list \<Rightarrow> string list \<Rightarrow> config \<Rightarrow> unit os" where
  "fixed_os if_data fdb_data net_lines cfg = \<lparr>
     popen = (\<lambda>argv stdin w. (None, w)),
     wait = (\<lambda>w. (Some 0, w)),
     terminate = (\<lambda>w. w),
     kill = (\<lambda>w. w),
     named_temporary_file = (\<lambda>doc w. (''/tmp/tmpfile'', w)),
     close_temporary_file = (\<lambda>f w. w),
     ip_addr = (\<lambda>w. Parsed if_data),
     bridge_fdb = (\<lambda>w. Parsed fdb_data),
     virsh_net_list = (\<lambda>w. Inr net_lines),
     load_config = (\<lambda>path w. Inr cfg) \<rparr>"

section \<open>\<^verbatim>\<open>NetworkInstaller\<close>\<close>

subsection \<open>The snapshot taken by the constructor\<close>

text \<open>
  A Python \<^verbatim>\<open>dict\<close> is an association list in insertion order with distinct keys;
  \<open>AList.update\<close> is assignment to a key (the value replaced in place, a new key added
  at the end). A missing key read with \<^verbatim>\<open>d[k]\<close> raises \<^verbatim>\<open>KeyError(k)\<close>.
\<close>

record installer =
  interfaces :: "(string \<times> iface) list"
  vxlans :: "(string \<times> iface) list"
  bridges :: "(string \<times> iface) list"
  vnets :: "string list"

text \<open>\<^verbatim>\<open>{iface['ifname']: iface for iface in if_data}\<close>\<close>

fun index_interfaces :: "iface list \<Rightarrow> (string \<times> iface) list \<Rightarrow> exn + (string \<times> iface) list" where
  "index_interfaces [] acc = Inr acc"
| "index_interfaces (i # rest) acc =
     (case ifname i of
        None \<Rightarrow> Inl (KeyError ''ifname'')
      | Some n \<Rightarrow> index_interfaces rest (AList.update n i acc))"

text \<open>The \<^verbatim>\<open>for dst in dsts\<close> loop of \<^verbatim>\<open>_get_interfaces\<close>.\<close>

fun fold_dsts :: "fdb_entry list \<Rightarrow> (string \<times> iface) list \<Rightarrow> exn + (string \<times> iface) list" where
  "fold_dsts [] ifs = Inr ifs"
| "fold_dsts (dst # dsts) ifs =
     (case fdb_dst dst of
        None \<Rightarrow> fold_dsts dsts ifs
      | Some d \<Rightarrow>
          (case fdb_ifname dst of
             None \<Rightarrow> Inl (KeyError ''ifname'')
           | Some n \<Rightarrow>
               (case map_of ifs n of
                  None \<Rightarrow> Inl (KeyError n)
                | Some i \<Rightarrow>
                    fold_dsts dsts
                      (AList.update n
                         (i\<lparr>fdb_dsts := Some (case fdb_dsts i of None \<Rightarrow> [d] | Some ds \<Rightarrow> ds @ [d])\<rparr>)
                         ifs))))"

definition get_interfaces :: "'w os \<Rightarrow> 'w \<Rightarrow> exn + (string \<times> iface) list" where
  "get_interfaces os w =
     (case ip_addr os w of
        ToolUnavailable err \<Rightarrow> Inl (OSError err)
      | NotJson \<Rightarrow> Inl JSONDecodeError
      | Parsed if_data \<Rightarrow>
          (case bridge_fdb os w of
             ToolUnavailable err \<Rightarrow> Inl (OSError err)
           | NotJson \<Rightarrow> Inl JSONDecodeError
           | Parsed fdb_data \<Rightarrow>
               (case index_interfaces if_data [] of
                  Inl e \<Rightarrow> Inl e
                | Inr ifs \<Rightarrow> fold_dsts (filter (\<lambda>e. fdb_dst e \<noteq> None) fdb_data) ifs)))"

text \<open>\<^verbatim>\<open>line[:-1]\<close> drops the last character of each line; empty results are left out.\<close>

definition get_virtual_networks :: "'w os \<Rightarrow> 'w \<Rightarrow> exn + string list" where
  "get_virtual_networks os w =
     (case virsh_net_list os w of
        Inl err \<Rightarrow> Inl (OSError err)
      | Inr lines \<Rightarrow> Inr (filter (\<lambda>l. l \<noteq> []) (map butlast lines)))"

text \<open>
  \<^verbatim>\<open>{key: val for key, val in self.interfaces.items()
     if 'linkinfo' in val and val['linkinfo']['info_kind'] == kind}\<close>
\<close>

fun select_kind :: "string \<Rightarrow> (string \<times> iface) list \<Rightarrow> exn + (string \<times> iface) list" where
  "select_kind k [] = Inr []"
| "select_kind k ((key, val) # rest) =
     (case linkinfo val of
        None \<Rightarrow> select_kind k rest
      | Some li \<Rightarrow>
          (case info_kind li of
             None \<Rightarrow> Inl (KeyError ''info_kind'')
           | Some k' \<Rightarrow>
               (case select_kind k rest of
                  Inl e \<Rightarrow> Inl e
                | Inr r \<Rightarrow> Inr (if k' = k then (key, val) # r else r))))"

definition NetworkInstaller :: "'w os \<Rightarrow> (installer, 'w) prog" where
  "NetworkInstaller os w =
     (case get_interfaces os w of
        Inl e \<Rightarrow> (Some (Inl e), w)
      | Inr ifs \<Rightarrow>
          (case select_kind ''vxlan'' ifs of
             Inl e \<Rightarrow> (Some (Inl e), w)
           | Inr vx \<Rightarrow>
               (case select_kind ''bridge'' ifs of
                  Inl e \<Rightarrow> (Some (Inl e), w)
                | Inr br \<Rightarrow>
                    (case get_virtual_networks os w of
                       Inl e \<Rightarrow> (Some (Inl e), w)
                     | Inr vn \<Rightarrow>
                         (Some (Inr \<lparr>interfaces = ifs, vxlans = vx, bridges = br, vnets = vn\<rparr>),
                          w)))))"

subsection \<open>The checks\<close>

definition check_conflict :: "installer \<Rightarrow> string \<Rightarrow> string \<Rightarrow> exn + unit" where
  "check_conflict self name bridge =
     (if name \<in> fst ` set (interfaces self) \<and> name \<notin> fst ` set (vxlans self) then
        Inl (ContextualError (TunnelNameConflict name))
      else if bridge \<in> fst ` set (interfaces self) \<and> bridge \<notin> fst ` set (bridges self) then
        Inl (ContextualError (BridgeNameConflict name bridge))
      else Inr ())"

text \<open>The inner and the outer loop of \<^verbatim>\<open>_find_underlay\<close>.\<close>

fun scan_addr_info :: "string \<Rightarrow> addr_info list \<Rightarrow> string list \<Rightarrow> (string \<times> string) option" where
  "scan_addr_info intf [] eps = None"
| "scan_addr_info intf (info # rest) eps =
     (case local info of
        Some l \<Rightarrow> (if l \<in> set eps then Some (intf, l) else scan_addr_info intf rest eps)
      | None \<Rightarrow> scan_addr_info intf rest eps)"

fun scan_interfaces :: "(string \<times> iface) list \<Rightarrow> string list \<Rightarrow> (string \<times> string) option" where
  "scan_interfaces [] eps = None"
| "scan_interfaces ((intf, if_desc) # rest) eps =
     (case scan_addr_info intf (case addr_info if_desc of None \<Rightarrow> [] | Some a \<Rightarrow> a) eps of
        Some p \<Rightarrow> Some p
      | None \<Rightarrow> scan_interfaces rest eps)"

definition find_underlay :: "installer \<Rightarrow> string list \<Rightarrow> exn + string \<times> string" where
  "find_underlay self eps =
     (case scan_interfaces (interfaces self) eps of
        Some p \<Rightarrow> Inr p
      | None \<Rightarrow> Inl (ContextualError (NoUnderlay eps)))"

subsection \<open>The commands\<close>

text \<open>Every call of \<^verbatim>\<open>run_cmd\<close> below leaves \<^verbatim>\<open>stdin\<close> and \<^verbatim>\<open>timeout\<close> at their defaults.\<close>

definition remove_link :: "nat \<Rightarrow> 'w os \<Rightarrow> string \<Rightarrow> (unit, 'w) prog" where
  "remove_link fuel os if_name = run_cmd fuel os ''ip'' [''link'', ''del'', if_name] None None"

definition add_new_tunnel ::
  "nat \<Rightarrow> 'w os \<Rightarrow> string \<Rightarrow> string \<Rightarrow> string \<Rightarrow> string \<Rightarrow> (unit, 'w) prog" where
  "add_new_tunnel fuel os tunnel bridge vxlan_id device =
     seq (run_cmd fuel os ''ip''
            [''link'', ''add'', tunnel, ''type'', ''vxlan'', ''id'', vxlan_id,
             ''dev'', device, ''dstport'', ''0''] None None)
    (seq (run_cmd fuel os ''ip'' [''link'', ''add'', bridge, ''type'', ''bridge''] None None)
         (run_cmd fuel os ''ip'' [''link'', ''set'', tunnel, ''master'', bridge] None None))"

fun for_each :: "('a \<Rightarrow> (unit, 's) prog) \<Rightarrow> 'a list \<Rightarrow> (unit, 's) prog" where
  "for_each body [] = ret ()"
| "for_each body (x # xs) = seq (body x) (for_each body xs)"

definition fdb_append :: "string \<Rightarrow> string \<Rightarrow> string list" where
  "fdb_append tunnel ip =
     [''bridge'', ''fdb'', ''append'', ''to'', ''00:00:00:00:00:00'', ''dst'', ip, ''dev'', tunnel]"

definition connect_endpoints ::
  "nat \<Rightarrow> 'w os \<Rightarrow> string \<Rightarrow> string list \<Rightarrow> string \<Rightarrow> (unit, 'w) prog" where
  "connect_endpoints fuel os tunnel eps local_ip_addr =
     (let remote_ips = filter (\<lambda>ip. ip \<noteq> local_ip_addr) eps
      in for_each
           (\<lambda>ip. run_cmd fuel os ''bridge''
                    [''fdb'', ''append'', ''to'', ''00:00:00:00:00:00'', ''dst'', ip,
                     ''dev'', tunnel] None None)
           remote_ips)"

subsection \<open>The methods that change \<^verbatim>\<open>self.vnets\<close>\<close>

text \<open>A method runs on the object and the world together.\<close>

definition in_world :: "('a, 'w) prog \<Rightarrow> ('a, installer \<times> 'w) prog" where
  "in_world m = (\<lambda>(self, w). case m w of (r, w') \<Rightarrow> (r, (self, w')))"

definition with_self :: "(installer \<Rightarrow> ('a, installer \<times> 'w) prog) \<Rightarrow> ('a, installer \<times> 'w) prog" where
  "with_self f = (\<lambda>(self, w). f self (self, w))"

definition result :: "exn + 'a \<Rightarrow> ('a, 's) prog" where
  "result r s = (Some r, s)"

text \<open>
  \<^verbatim>\<open>with NamedTemporaryFile(...) as tmpfile\<close>: the file is removed when the block is
  left, by return or by exception.
\<close>

definition with_temporary_file ::
  "'w os \<Rightarrow> network_xml \<Rightarrow> (string \<Rightarrow> ('a, 'w) prog) \<Rightarrow> ('a, 'w) prog" where
  "with_temporary_file os doc body w =
     (case named_temporary_file os doc w of
        (tmp, w1) \<Rightarrow>
          (case body tmp w1 of
             (None, w2) \<Rightarrow> (None, w2)
           | (Some r, w2) \<Rightarrow> (Some r, close_temporary_file os tmp w2)))"

definition add_virtual_network ::
  "nat \<Rightarrow> 'w os \<Rightarrow> string \<Rightarrow> string \<Rightarrow> (unit, installer \<times> 'w) prog" where
  "add_virtual_network fuel os name bridge =
     seq (in_world (with_temporary_file os (NetworkXml name ''bridge'' bridge)
            (\<lambda>tmp. run_cmd fuel os ''virsh'' [''net-define'', tmp] None None)))
    (seq (in_world (run_cmd fuel os ''virsh'' [''net-start'', name] None None))
    (seq (in_world (run_cmd fuel os ''virsh'' [''net-autostart'', name] None None))
         (\<lambda>(self, w). (Some (Inr ()), (self\<lparr>vnets := vnets self @ [name]\<rparr>, w)))))"

definition remove_virtual_network ::
  "nat \<Rightarrow> 'w os \<Rightarrow> string \<Rightarrow> (unit, installer \<times> 'w) prog" where
  "remove_virtual_network fuel os name =
     with_self (\<lambda>self.
       if name \<notin> set (vnets self) then ret ()
       else
         seq (in_world (run_cmd fuel os ''virsh'' [''net-destroy'', name] None None))
        (seq (in_world (run_cmd fuel os ''virsh'' [''net-undefine'', name] None None))
             (\<lambda>(self, w). (Some (Inr ()), (self\<lparr>vnets := remove1 name (vnets self)\<rparr>, w)))))"

text \<open>Python's \<^verbatim>\<open>str\<close> on an integer, and on a string.\<close>

function str_nat :: "nat \<Rightarrow> string" where
  "str_nat n = (if n < 10 then [''0123456789'' ! n] else str_nat (n div 10) @ [''0123456789'' ! (n mod 10)])"
  by pat_completeness auto
termination
  by (relation "measure (\<lambda>n. n)") auto

definition str :: "scalar \<Rightarrow> string" where
  "str v = (case v of
      StrVal s \<Rightarrow> s
    | IntVal i \<Rightarrow> (if i < 0 then CHR ''-'' # str_nat (nat (- i)) else str_nat (nat i)))"

text \<open>The five values \<^verbatim>\<open>construct_virtual_network\<close> reads from its configuration.\<close>

definition network_name_of :: "network_config \<Rightarrow> string" where
  "network_name_of c = (case network_name c of None \<Rightarrow> [] | Some n \<Rightarrow> n)"

definition tunnel_name_of :: "network_config \<Rightarrow> string" where
  "tunnel_name_of c = (case tunnel_name c of None \<Rightarrow> network_name_of c | Some n \<Rightarrow> n)"

definition bridge_name_of :: "network_config \<Rightarrow> string" where
  "bridge_name_of c = (case bridge_name c of None \<Rightarrow> ''br-'' @ tunnel_name_of c | Some n \<Rightarrow> n)"

definition vxlan_id_of :: "network_config \<Rightarrow> string" where
  "vxlan_id_of c = str (case tunnel_id c of None \<Rightarrow> StrVal ''0'' | Some v \<Rightarrow> v)"

definition endpoint_ips_of :: "network_config \<Rightarrow> string list" where
  "endpoint_ips_of c = (case endpoint_ips c of None \<Rightarrow> [] | Some l \<Rightarrow> l)"

definition construct_virtual_network ::
  "nat \<Rightarrow> 'w os \<Rightarrow> network_config \<Rightarrow> (unit, installer \<times> 'w) prog" where
  "construct_virtual_network fuel os c =
     seq (with_self (\<lambda>self. result (check_conflict self (tunnel_name_of c) (bridge_name_of c))))
    (seq (with_self (\<lambda>self. do_if (tunnel_name_of c \<in> fst ` set (interfaces self))
                               (in_world (remove_link fuel os (tunnel_name_of c)))))
    (seq (with_self (\<lambda>self. do_if (bridge_name_of c \<in> fst ` set (interfaces self))
                               (in_world (remove_link fuel os (bridge_name_of c)))))
    (bnd (with_self (\<lambda>self. result (find_underlay self (endpoint_ips_of c))))
       (\<lambda>(device, local_ip_addr).
          seq (in_world (add_new_tunnel fuel os (tunnel_name_of c) (bridge_name_of c)
                           (vxlan_id_of c) device))
         (seq (in_world (connect_endpoints fuel os (tunnel_name_of c) (endpoint_ips_of c)
                           local_ip_addr))
         (seq (remove_virtual_network fuel os (network_name_of c))
              (add_virtual_network fuel os (network_name_of c) (bridge_name_of c))))))))"

section \<open>Package set-up, \<^verbatim>\<open>main\<close> and \<^verbatim>\<open>entrypoint\<close>\<close>

definition read_config :: "'w os \<Rightarrow> string \<Rightarrow> (config, 'w) prog" where
  "read_config os config_file w =
     (case load_config os config_file w of
        Inl err \<Rightarrow> (Some (Inl (ContextualError (ConfigLoadFailed config_file err))), w)
      | Inr c \<Rightarrow> (Some (Inr c), w))"

definition prepare_package_installer :: "nat \<Rightarrow> 'w os \<Rightarrow> (unit, 'w) prog" where
  "prepare_package_installer fuel os =
     seq (run_cmd fuel os ''apt'' [''update''] None None)
         (run_cmd fuel os ''apt'' [''upgrade'', ''-y''] None None)"

definition preconfigure_packages :: "nat \<Rightarrow> 'w os \<Rightarrow> string list \<Rightarrow> (unit, 'w) prog" where
  "preconfigure_packages fuel os settings =
     (if settings = [] then ret ()
      else run_cmd fuel os ''debconf-set-selections'' []
             (Some (map (\<lambda>setting. setting @ [CHR 0x0A]) settings)) None)"

definition install_packages :: "nat \<Rightarrow> 'w os \<Rightarrow> string list \<Rightarrow> (unit, 'w) prog" where
  "install_packages fuel os pkgs = run_cmd fuel os ''apt'' ([''install'', ''-y''] @ pkgs) None None"

definition disable_services :: "nat \<Rightarrow> 'w os \<Rightarrow> string list \<Rightarrow> (unit, 'w) prog" where
  "disable_services fuel os service_names =
     for_each (\<lambda>service_name.
        run_cmd fuel os ''systemctl'' [''disable'', ''--now'', service_name] None None)
       service_names"

definition enable_services :: "nat \<Rightarrow> 'w os \<Rightarrow> string list \<Rightarrow> (unit, 'w) prog" where
  "enable_services fuel os service_names =
     for_each (\<lambda>service_name.
        run_cmd fuel os ''systemctl'' [''enable'', ''--now'', service_name] None None)
       service_names"

definition list_from_packages ::
  "(string \<times> package) list \<Rightarrow> string option \<Rightarrow> (package \<Rightarrow> string list option) \<Rightarrow> string list" where
  "list_from_packages pkgs blade_class key =
     concat (map (\<lambda>(_, pack). case key pack of None \<Rightarrow> [] | Some items \<Rightarrow> items)
       (filter (\<lambda>(_, pack).
           (case blade_classes pack of
              None \<Rightarrow> True
            | Some classes \<Rightarrow> (case blade_class of None \<Rightarrow> False | Some b \<Rightarrow> b \<in> set classes)))
          pkgs))"

definition setup_packages ::
  "nat \<Rightarrow> 'w os \<Rightarrow> (string \<times> package) list \<Rightarrow> string option \<Rightarrow> (unit, 'w) prog" where
  "setup_packages fuel os pkgs blade_class =
     seq (prepare_package_installer fuel os)
    (seq (preconfigure_packages fuel os (list_from_packages pkgs blade_class preconfig_settings))
    (seq (install_packages fuel os (list_from_packages pkgs blade_class packages))
    (seq (disable_services fuel os (list_from_packages pkgs blade_class services_disable))
         (enable_services fuel os (list_from_packages pkgs blade_class services_enable)))))"

text \<open>The part of \<^verbatim>\<open>main\<close> that runs on the \<^verbatim>\<open>NetworkInstaller\<close> object.\<close>

definition install_networks ::
  "nat \<Rightarrow> 'w os \<Rightarrow> (string \<times> network_config) list \<Rightarrow> (unit, installer \<times> 'w) prog" where
  "install_networks fuel os networks =
     seq (remove_virtual_network fuel os ''default'')
         (for_each (\<lambda>(_, network). construct_virtual_network fuel os network) networks)"

definition on_object :: "installer \<Rightarrow> ('a, installer \<times> 'w) prog \<Rightarrow> ('a, 'w) prog" where
  "on_object self m w = (case m (self, w) of (r, (self', w')) \<Rightarrow> (r, w'))"

definition main :: "nat \<Rightarrow> 'w os \<Rightarrow> string list \<Rightarrow> (unit, 'w) prog" where
  "main fuel os argv =
     (case argv of
        [] \<Rightarrow> raise (UsageError ''too few arguments'')
      | config_file # _ \<Rightarrow>
          bnd (read_config os config_file) (\<lambda>config.
            let networks = (case cfg_networks config of None \<Rightarrow> [] | Some n \<Rightarrow> n);
                pkgs = (case cfg_packages config of None \<Rightarrow> [] | Some p \<Rightarrow> p);
                blade_class = cfg_blade_class config
            in seq (setup_packages fuel os pkgs blade_class)
                 (bnd (NetworkInstaller os) (\<lambda>network_installer.
                    on_object network_installer (install_networks fuel os networks)))))"

text \<open>
  How the process ends: \<open>Returned\<close>, \<^verbatim>\<open>sys.exit(1)\<close> after the error or the usage text was
  written to the error stream, an exception that \<^verbatim>\<open>entrypoint\<close> lets pass to its
  caller, or still polling.
\<close>

datatype report = ErrorMsg contextual | UsageMsg string string

datatype exit = Returned | SystemExit int report | Uncaught exn | Polling

definition entrypoint ::
  "string \<Rightarrow> (string list \<Rightarrow> (unit, 'w) prog) \<Rightarrow> string list \<Rightarrow> 'w \<Rightarrow> exit \<times> 'w" where
  "entrypoint usage_msg main_func argv w =
     (case main_func argv w of
        (Some (Inr _), w') \<Rightarrow> (Returned, w')
      | (Some (Inl (ContextualError err)), w') \<Rightarrow> (SystemExit 1 (ErrorMsg err), w')
      | (Some (Inl (UsageError err)), w') \<Rightarrow> (SystemExit 1 (UsageMsg usage_msg err), w')
      | (Some (Inl e), w') \<Rightarrow> (Uncaught e, w')
      | (None, w') \<Rightarrow> (Polling, w'))"

section \<open>Notions used to state the properties\<close>

text \<open>Polling alone: \<^verbatim>\<open>command.wait(timeout=5)\<close> repeated until it gives an exit value.\<close>

fun poll :: "nat \<Rightarrow> 'w os \<Rightarrow> 'w \<Rightarrow> int option \<times> 'w" where
  "poll 0 os w = (None, w)"
| "poll (Suc n) os w =
     (case wait os w of
        (Some exitval, w') \<Rightarrow> (Some exitval, w')
      | (None, w') \<Rightarrow> poll n os w')"

text \<open>
  \<open>emits tr P m\<close>: whatever the state and the outcome, \<open>m\<close> only adds to the record of
  calls (which \<open>tr\<close> reads from the state), and what it adds satisfies \<open>P\<close>.
\<close>

definition emits :: "('s \<Rightarrow> event list) \<Rightarrow> (event list \<Rightarrow> bool) \<Rightarrow> ('a, 's) prog \<Rightarrow> bool" where
  "emits tr P m = (\<forall>s. \<exists>u. tr (snd (m s)) = tr s @ u \<and> P u)"

definition no_signal :: "event list \<Rightarrow> bool" where
  "no_signal u = (Terminate \<notin> set u \<and> Kill \<notin> set u)"

text \<open>What \<^verbatim>\<open>run_cmd\<close> makes of the way its loop ended.\<close>

definition after_loop :: "string list \<Rightarrow> (exn + int \<times> bool) option \<Rightarrow> (exn + unit) option" where
  "after_loop argv r1 = (case r1 of None \<Rightarrow> None | Some (Inl e) \<Rightarrow> Some (Inl e)
     | Some (Inr (x, s)) \<Rightarrow> (if x \<noteq> 0 then Some (Inl (ContextualError (if \<not> s then CommandFailed argv else TimedOutKilled argv))) else Some (Inr ())))"


text \<open>
  Every local address of the snapshot with the interface that holds it, in the order in
  which the interfaces and, within each, the address records are listed.
\<close>

definition local_addresses :: "(string \<times> iface) list \<Rightarrow> (string \<times> string) list" where
  "local_addresses ifs =
     concat (map (\<lambda>(intf, if_desc).
                map (Pair intf)
                  (List.map_filter local (case addr_info if_desc of None \<Rightarrow> [] | Some a \<Rightarrow> a)))
              ifs)"

text \<open>An interface is of kind \<open>k\<close> when its link information says so.\<close>

definition is_kind :: "string \<Rightarrow> iface \<Rightarrow> bool" where
  "is_kind k i = (case linkinfo i of None \<Rightarrow> False | Some li \<Rightarrow> info_kind li = Some k)"

text \<open>
  A name conflict: the tunnel name is the name of an interface that is not a VxLAN
  device, or the bridge name is the name of an interface that is not a bridge.
\<close>

definition tunnel_conflict :: "(string \<times> iface) list \<Rightarrow> string \<Rightarrow> bool" where
  "tunnel_conflict ifs tunnel =
     (case map_of ifs tunnel of None \<Rightarrow> False | Some i \<Rightarrow> \<not> is_kind ''vxlan'' i)"

definition bridge_conflict :: "(string \<times> iface) list \<Rightarrow> string \<Rightarrow> bool" where
  "bridge_conflict ifs bridge =
     (case map_of ifs bridge of None \<Rightarrow> False | Some i \<Rightarrow> \<not> is_kind ''bridge'' i)"

text \<open>A blade with a loopback and two addressed interfaces, no tunnel and no bridge.\<close>

definition blade_a :: installer where
  "blade_a = \<lparr>interfaces =
       [(''lo'', \<lparr>ifname = Some ''lo'', linkinfo = None,
                 addr_info = Some [\<lparr>local = Some ''127.0.0.1''\<rparr>], fdb_dsts = None\<rparr>),
        (''eth0'', \<lparr>ifname = Some ''eth0'', linkinfo = None,
                 addr_info = Some [\<lparr>local = Some ''fe80::1''\<rparr>, \<lparr>local = Some ''10.0.0.2''\<rparr>], fdb_dsts = None\<rparr>),
        (''eth1'', \<lparr>ifname = Some ''eth1'', linkinfo = None,
                 addr_info = Some [\<lparr>local = Some ''10.0.0.3''\<rparr>], fdb_dsts = None\<rparr>)],
     vxlans = [], bridges = [], vnets = []\<rparr>"

text \<open>
  The network of the specification's scenario, and a blade on which its tunnel name is
  already the name of a plain interface.
\<close>

definition fabric0 :: network_config where
  "fabric0 = \<lparr>network_name = Some ''fabric0'', tunnel_name = None, bridge_name = None,
     tunnel_id = Some (IntVal 42),
     endpoint_ips = Some [''10.0.0.1'', ''10.0.0.2'', ''10.0.0.3'']\<rparr>"

definition no_config :: config where
  "no_config = \<lparr>cfg_networks = None, cfg_packages = None, cfg_blade_class = None\<rparr>"

definition taken_if_data :: "iface list" where
  "taken_if_data =
     [\<lparr>ifname = Some ''fabric0'', linkinfo = None,
       addr_info = Some [\<lparr>local = Some ''10.0.0.2''\<rparr>], fdb_dsts = None\<rparr>]"

definition taken_blade :: installer where
  "taken_blade = \<lparr>interfaces = [(''fabric0'', hd taken_if_data)],
     vxlans = [], bridges = [], vnets = []\<rparr>"

text \<open>
  The destination of a command that adds a forwarding entry for the broadcast address on
  the given tunnel device, and the destinations so added by the commands started, in order.
\<close>

definition fdb_dst_of :: "string \<Rightarrow> string list \<Rightarrow> string option" where
  "fdb_dst_of tunnel argv =
     (if length argv = 9
         \<and> take 6 argv = [''bridge'', ''fdb'', ''append'', ''to'', ''00:00:00:00:00:00'', ''dst'']
         \<and> drop 7 argv = [''dev'', tunnel]
      then Some (argv ! 6) else None)"

definition fdb_entries :: "string \<Rightarrow> event list \<Rightarrow> string list" where
  "fdb_entries tunnel t = List.map_filter (fdb_dst_of tunnel) (commands t)"

text \<open>
  The link removals \<^verbatim>\<open>construct_virtual_network\<close> runs before it looks for the underlay:
  one for the tunnel name and one for the bridge name, each when the name is in the
  snapshot.
\<close>

definition removals :: "installer \<Rightarrow> network_config \<Rightarrow> string list list" where
  "removals self c =
     (if tunnel_name_of c \<in> fst ` set (interfaces self)
      then [[''ip'', ''link'', ''del'', tunnel_name_of c]] else [])
     @ (if bridge_name_of c \<in> fst ` set (interfaces self)
        then [[''ip'', ''link'', ''del'', bridge_name_of c]] else [])"

text \<open>
  A blade that already has the tunnel and the bridge of \<open>fabric0\<close> and the registered
  network, and the same network configured with endpoint IPs none of which is local.
\<close>

definition built_if_data :: "iface list" where
  "built_if_data =
     [\<lparr>ifname = Some ''eth0'', linkinfo = None,
       addr_info = Some [\<lparr>local = Some ''10.0.0.2''\<rparr>], fdb_dsts = None\<rparr>,
      \<lparr>ifname = Some ''fabric0'', linkinfo = Some \<lparr>info_kind = Some ''vxlan''\<rparr>,
       addr_info = Some [], fdb_dsts = None\<rparr>,
      \<lparr>ifname = Some ''br-fabric0'', linkinfo = Some \<lparr>info_kind = Some ''bridge''\<rparr>,
       addr_info = Some [], fdb_dsts = None\<rparr>]"

definition built_blade :: installer where
  "built_blade = \<lparr>interfaces =
       [(''eth0'', built_if_data ! 0), (''fabric0'', built_if_data ! 1),
        (''br-fabric0'', built_if_data ! 2)],
     vxlans = [(''fabric0'', built_if_data ! 1)],
     bridges = [(''br-fabric0'', built_if_data ! 2)],
     vnets = [''fabric0'']\<rparr>"

definition fabric0_elsewhere :: network_config where
  "fabric0_elsewhere = fabric0\<lparr>endpoint_ips := Some [''10.9.9.1'', ''10.9.9.2'']\<rparr>"

text \<open>A removal that did not succeed: still polled, exited nonzero, or could not be started.\<close>

definition removal_failed :: "string list \<Rightarrow> (exn + unit) option \<Rightarrow> bool" where
  "removal_failed argv r =
     (r = None \<or> r = Some (Inl (ContextualError (CommandFailed argv)))
      \<or> (\<exists>err. r = Some (Inl (ContextualError (ExecFailed argv err)))))"

text \<open>
  The two operations that change the list of registered networks, to speak of sequences of
  them; a sequence is run as \<^verbatim>\<open>main\<close> runs its own, each operation after the one before
  has returned.
\<close>

datatype operation = RemoveNetwork string | ConstructNetwork network_config

fun perform :: "nat \<Rightarrow> 'w os \<Rightarrow> operation \<Rightarrow> (unit, installer \<times> 'w) prog" where
  "perform fuel os (RemoveNetwork name) = remove_virtual_network fuel os name"
| "perform fuel os (ConstructNetwork c) = construct_virtual_network fuel os c"

text \<open>A piece of a method that leaves the object as it is, whatever its outcome.\<close>

definition keeps :: "('a, installer \<times> 'w) prog \<Rightarrow> bool" where
  "keeps m = (\<forall>self w. fst (snd (m (self, w))) = self)"

text \<open>The blade that has the tunnel and the bridge, with two registered networks.\<close>

definition two_nets_blade :: installer where
  "two_nets_blade = built_blade\<lparr>vnets := [''default'', ''fabric0'']\<rparr>"

text \<open>
  The two listings fit together: every interface has a name, and every forwarding entry
  with a destination names an interface of the interface listing.
\<close>

definition listing_ok :: "iface list \<Rightarrow> fdb_entry list \<Rightarrow> bool" where
  "listing_ok if_data fdb_data =
     ((\<forall>i\<in>set if_data. ifname i \<noteq> None)
      \<and> (\<forall>e\<in>set fdb_data. fdb_dst e \<noteq> None \<longrightarrow>
            (case fdb_ifname e of None \<Rightarrow> False | Some n \<Rightarrow> Some n \<in> ifname ` set if_data)))"

text \<open>
  A blade whose forwarding database has an entry on a device that the interface listing
  does not have.
\<close>

definition plain_if_data :: "iface list" where
  "plain_if_data =
     [\<lparr>ifname = Some ''eth0'', linkinfo = None,
       addr_info = Some [\<lparr>local = Some ''10.0.0.2''\<rparr>], fdb_dsts = None\<rparr>]"

definition stray_fdb_data :: "fdb_entry list" where
  "stray_fdb_data = [\<lparr>fdb_ifname = Some ''vx9'', fdb_dst = Some ''10.0.0.1''\<rparr>]"

text \<open>
  The entry that the dictionary of interfaces keeps for a name: the last one listed with
  it.
\<close>

definition indexed :: "iface list \<Rightarrow> string \<Rightarrow> iface option" where
  "indexed if_data n = find (\<lambda>i. ifname i = Some n) (rev if_data)"

text \<open>
  The kind of an interface can be read: it has no link information, or link information
  with a kind in it. The listing is classifiable when that holds of every entry the
  dictionary keeps.
\<close>

definition kind_readable :: "iface \<Rightarrow> bool" where
  "kind_readable i = (case linkinfo i of None \<Rightarrow> True | Some li \<Rightarrow> info_kind li \<noteq> None)"

definition kinds_ok :: "iface list \<Rightarrow> bool" where
  "kinds_ok if_data =
     (\<forall>i\<in>set if_data.
        case ifname i of None \<Rightarrow> True
        | Some n \<Rightarrow> indexed if_data n = Some i \<longrightarrow> kind_readable i)"

text \<open>
  A blade with a second interface that is a port of a bridge: its link information tells
  of the bridge it belongs to and holds no kind of its own.
\<close>

definition port_if_data :: "iface list" where
  "port_if_data =
     [\<lparr>ifname = Some ''eth0'', linkinfo = None,
       addr_info = Some [\<lparr>local = Some ''10.0.0.2''\<rparr>], fdb_dsts = None\<rparr>,
      \<lparr>ifname = Some ''eth1'', linkinfo = Some \<lparr>info_kind = None\<rparr>,
       addr_info = Some [], fdb_dsts = None\<rparr>]"





section \<open>A Linux host\<close>

text \<open>
  The commands the installer runs act on the kernel's network devices and on libvirt.
  To speak of the state they leave, here is a host that answers them as \<^verbatim>\<open>ip\<close>,
  \<^verbatim>\<open>bridge\<close> and \<^verbatim>\<open>virsh\<close> do, as far as the installer uses them:
  \<^item> a link has a name, a kind (a VxLAN device has its identifier and its underlying
    device), the bridge that masters it if any, its local addresses, and the remote
    destinations of its forwarding entries for the all-zero address;
  \<^item> \<^verbatim>\<open>ip link del\<close> fails on a name that does not exist; a removed bridge no longer
    masters its ports;
  \<^item> \<^verbatim>\<open>ip link add\<close> fails on a name that exists, and for a VxLAN device on an underlying
    device that does not; new links come last in the listing and have no address;
  \<^item> \<^verbatim>\<open>ip link set T master B\<close> needs both links, \<open>B\<close> a bridge;
  \<^item> \<^verbatim>\<open>bridge fdb append\<close> needs a VxLAN device and adds the destination unless the
    device already has it;
  \<^item> \<^verbatim>\<open>virsh net-define\<close> reads the document from the file and fails when the file is
    not there, the name is empty or a network of that name is defined;
    \<^verbatim>\<open>net-start\<close> needs a defined inactive network, \<^verbatim>\<open>net-destroy\<close> an active one,
    \<^verbatim>\<open>net-autostart\<close> and \<^verbatim>\<open>net-undefine\<close> a defined one;
  \<^item> \<^verbatim>\<open>virsh net-list --name\<close> prints the active networks, one name a line, and an
    empty line;
  \<^item> any other command exits with status 1 and changes nothing.
  A command takes effect when it is started and has exited by the first poll.
\<close>

datatype device = Plain | Vxlan string string | Bridge

record link =
  kind :: device
  master :: "string option"
  addresses :: "string list"
  remotes :: "string list"

record libvirt_net =
  on_bridge :: string
  active :: bool
  autostart :: bool

record host =
  links :: "(string \<times> link) list"
  libvirt_nets :: "(string \<times> libvirt_net) list"
  tmpfiles :: "(string \<times> network_xml) list"
  child :: "int option"

definition unmaster :: "string \<Rightarrow> string \<times> link \<Rightarrow> string \<times> link" where
  "unmaster n p = (fst p, if master (snd p) = Some n then (snd p)\<lparr>master := None\<rparr> else snd p)"

definition del_link :: "string \<Rightarrow> (string \<times> link) list \<Rightarrow> (string \<times> link) list" where
  "del_link n ls = map (unmaster n) (filter (\<lambda>p. fst p \<noteq> n) ls)"

definition ip_link_del :: "string \<Rightarrow> host \<Rightarrow> int \<times> host" where
  "ip_link_del n h =
     (if n \<in> fst ` set (links h) then (0, h\<lparr>links := del_link n (links h)\<rparr>) else (1, h))"

definition ip_link_add_vxlan :: "string \<Rightarrow> string \<Rightarrow> string \<Rightarrow> host \<Rightarrow> int \<times> host" where
  "ip_link_add_vxlan n vni dev h =
     (if n \<notin> fst ` set (links h) \<and> dev \<in> fst ` set (links h)
      then (0, h\<lparr>links := links h
                  @ [(n, \<lparr>kind = Vxlan vni dev, master = None, addresses = [], remotes = []\<rparr>)]\<rparr>)
      else (2, h))"

definition ip_link_add_bridge :: "string \<Rightarrow> host \<Rightarrow> int \<times> host" where
  "ip_link_add_bridge n h =
     (if n \<notin> fst ` set (links h)
      then (0, h\<lparr>links := links h
                  @ [(n, \<lparr>kind = Bridge, master = None, addresses = [], remotes = []\<rparr>)]\<rparr>)
      else (2, h))"

definition ip_link_set_master :: "string \<Rightarrow> string \<Rightarrow> host \<Rightarrow> int \<times> host" where
  "ip_link_set_master n b h =
     (if n \<in> fst ` set (links h)
         \<and> (case map_of (links h) b of Some l \<Rightarrow> kind l = Bridge | None \<Rightarrow> False)
      then (0, h\<lparr>links := map (\<lambda>p. if fst p = n then (fst p, (snd p)\<lparr>master := Some b\<rparr>) else p)
                            (links h)\<rparr>)
      else (2, h))"

definition bridge_fdb_append :: "string \<Rightarrow> string \<Rightarrow> host \<Rightarrow> int \<times> host" where
  "bridge_fdb_append ip n h =
     (if (case map_of (links h) n of Some l \<Rightarrow> kind l \<noteq> Plain \<and> kind l \<noteq> Bridge
          | None \<Rightarrow> False)
      then (0, h\<lparr>links := map (\<lambda>p. if fst p = n
                                    then (fst p, (snd p)\<lparr>remotes := List.insert ip (remotes (snd p))\<rparr>)
                                    else p)
                            (links h)\<rparr>)
      else (255, h))"

definition virsh_net_define :: "string \<Rightarrow> host \<Rightarrow> int \<times> host" where
  "virsh_net_define file h =
     (case map_of (tmpfiles h) file of
        None \<Rightarrow> (1, h)
      | Some doc \<Rightarrow>
          (if xml_name doc \<noteq> [] \<and> xml_name doc \<notin> fst ` set (libvirt_nets h)
           then (0, h\<lparr>libvirt_nets := libvirt_nets h
                       @ [(xml_name doc,
                           \<lparr>on_bridge = xml_bridge doc, active = False, autostart = False\<rparr>)]\<rparr>)
           else (1, h)))"

definition virsh_net_start :: "string \<Rightarrow> host \<Rightarrow> int \<times> host" where
  "virsh_net_start n h =
     (if (case map_of (libvirt_nets h) n of Some v \<Rightarrow> \<not> active v | None \<Rightarrow> False)
      then (0, h\<lparr>libvirt_nets := map (\<lambda>p. if fst p = n then (fst p, (snd p)\<lparr>active := True\<rparr>) else p)
                                   (libvirt_nets h)\<rparr>)
      else (1, h))"

definition virsh_net_autostart :: "string \<Rightarrow> host \<Rightarrow> int \<times> host" where
  "virsh_net_autostart n h =
     (if n \<in> fst ` set (libvirt_nets h)
      then (0, h\<lparr>libvirt_nets := map (\<lambda>p. if fst p = n then (fst p, (snd p)\<lparr>autostart := True\<rparr>) else p)
                                   (libvirt_nets h)\<rparr>)
      else (1, h))"

definition virsh_net_destroy :: "string \<Rightarrow> host \<Rightarrow> int \<times> host" where
  "virsh_net_destroy n h =
     (if (case map_of (libvirt_nets h) n of Some v \<Rightarrow> active v | None \<Rightarrow> False)
      then (0, h\<lparr>libvirt_nets := map (\<lambda>p. if fst p = n then (fst p, (snd p)\<lparr>active := False\<rparr>) else p)
                                   (libvirt_nets h)\<rparr>)
      else (1, h))"

definition virsh_net_undefine :: "string \<Rightarrow> host \<Rightarrow> int \<times> host" where
  "virsh_net_undefine n h =
     (if n \<in> fst ` set (libvirt_nets h)
      then (0, h\<lparr>libvirt_nets := filter (\<lambda>p. fst p \<noteq> n) (libvirt_nets h)\<rparr>)
      else (1, h))"

definition exec :: "string list \<Rightarrow> host \<Rightarrow> int \<times> host" where
  "exec argv h =
     (if length argv = 4 \<and> take 3 argv = [''ip'', ''link'', ''del'']
        then ip_link_del (argv ! 3) h
      else if length argv = 12 \<and> take 3 argv = [''ip'', ''link'', ''add'']
              \<and> take 3 (drop 4 argv) = [''type'', ''vxlan'', ''id'']
              \<and> argv ! 8 = ''dev'' \<and> drop 10 argv = [''dstport'', ''0'']
        then ip_link_add_vxlan (argv ! 3) (argv ! 7) (argv ! 9) h
      else if length argv = 6 \<and> take 3 argv = [''ip'', ''link'', ''add'']
              \<and> drop 4 argv = [''type'', ''bridge'']
        then ip_link_add_bridge (argv ! 3) h
      else if length argv = 6 \<and> take 3 argv = [''ip'', ''link'', ''set'']
              \<and> argv ! 4 = ''master''
        then ip_link_set_master (argv ! 3) (argv ! 5) h
      else if length argv = 9
              \<and> take 6 argv = [''bridge'', ''fdb'', ''append'', ''to'', ''00:00:00:00:00:00'', ''dst'']
              \<and> argv ! 7 = ''dev''
        then bridge_fdb_append (argv ! 6) (argv ! 8) h
      else if length argv = 3 \<and> take 2 argv = [''virsh'', ''net-define'']
        then virsh_net_define (argv ! 2) h
      else if length argv = 3 \<and> take 2 argv = [''virsh'', ''net-start'']
        then virsh_net_start (argv ! 2) h
      else if length argv = 3 \<and> take 2 argv = [''virsh'', ''net-autostart'']
        then virsh_net_autostart (argv ! 2) h
      else if length argv = 3 \<and> take 2 argv = [''virsh'', ''net-destroy'']
        then virsh_net_destroy (argv ! 2) h
      else if length argv = 3 \<and> take 2 argv = [''virsh'', ''net-undefine'']
        then virsh_net_undefine (argv ! 2) h
      else (1, h))"

text \<open>What the two listings show of a link.\<close>

definition iface_of :: "string \<times> link \<Rightarrow> iface" where
  "iface_of p =
     \<lparr>ifname = Some (fst p),
      linkinfo = (case kind (snd p) of
                    Plain \<Rightarrow> None
                  | Vxlan vni dev \<Rightarrow> Some \<lparr>info_kind = Some ''vxlan''\<rparr>
                  | Bridge \<Rightarrow> Some \<lparr>info_kind = Some ''bridge''\<rparr>),
      addr_info = Some (map (\<lambda>a. \<lparr>local = Some a\<rparr>) (addresses (snd p))),
      fdb_dsts = None\<rparr>"

definition fdb_of :: "string \<times> link \<Rightarrow> fdb_entry list" where
  "fdb_of p = map (\<lambda>ip. \<lparr>fdb_ifname = Some (fst p), fdb_dst = Some ip\<rparr>) (remotes (snd p))"

definition linux :: "host os" where
  "linux = \<lparr>
     popen = (\<lambda>argv stdin h. case exec argv h of (st, h') \<Rightarrow> (None, h'\<lparr>child := Some st\<rparr>)),
     wait = (\<lambda>h. (child h, h)),
     terminate = (\<lambda>h. h),
     kill = (\<lambda>h. h),
     named_temporary_file = (\<lambda>doc h.
        (''/tmp/tmpfile'', h\<lparr>tmpfiles := (''/tmp/tmpfile'', doc) # tmpfiles h\<rparr>)),
     close_temporary_file = (\<lambda>f h. h\<lparr>tmpfiles := filter (\<lambda>p. fst p \<noteq> f) (tmpfiles h)\<rparr>),
     ip_addr = (\<lambda>h. Parsed (map iface_of (links h))),
     bridge_fdb = (\<lambda>h. Parsed (concat (map fdb_of (links h)))),
     virsh_net_list = (\<lambda>h.
        Inr (map (\<lambda>p. fst p @ [CHR 0x0A]) (filter (\<lambda>p. active (snd p)) (libvirt_nets h))
             @ [[CHR 0x0A]])),
     load_config = (\<lambda>path h. Inl ''No such file or directory'') \<rparr>"

text \<open>
  The state of a host the kernel can be in: link names are distinct and a master is an
  existing link.
\<close>

definition tidy :: "(string \<times> link) list \<Rightarrow> bool" where
  "tidy ls =
     (distinct (map fst ls)
      \<and> (\<forall>p\<in>set ls. case master (snd p) of None \<Rightarrow> True | Some m \<Rightarrow> m \<in> fst ` set ls))"

text \<open>
  One reconciliation pass for one network: the snapshot is taken, then the network is
  constructed from it, as \<^verbatim>\<open>main\<close> does for each configured network.
\<close>

definition reconcile :: "nat \<Rightarrow> 'w os \<Rightarrow> network_config \<Rightarrow> (unit, 'w) prog" where
  "reconcile fuel os c =
     bnd (NetworkInstaller os) (\<lambda>network_installer.
       on_object network_installer (construct_virtual_network fuel os c))"

text \<open>The forwarding destinations of a new tunnel after the given additions, in order.\<close>

definition appended :: "string list \<Rightarrow> string list" where
  "appended ips = foldl (\<lambda>rs ip. List.insert ip rs) [] ips"

text \<open>
  The links that are left when \<^verbatim>\<open>construct_virtual_network\<close> has removed those it removes,
  and the libvirt networks that are left when it has removed the one it removes.
\<close>

definition cleared :: "installer \<Rightarrow> network_config \<Rightarrow> (string \<times> link) list \<Rightarrow> (string \<times> link) list" where
  "cleared self c ls =
     (let ls1 = (if tunnel_name_of c \<in> fst ` set (interfaces self)
                 then del_link (tunnel_name_of c) ls else ls)
      in if bridge_name_of c \<in> fst ` set (interfaces self)
         then del_link (bridge_name_of c) ls1 else ls1)"

definition unregistered ::
  "installer \<Rightarrow> network_config \<Rightarrow> (string \<times> libvirt_net) list \<Rightarrow> (string \<times> libvirt_net) list" where
  "unregistered self c ns =
     (if network_name_of c \<in> set (vnets self)
      then filter (\<lambda>p. fst p \<noteq> network_name_of c) ns else ns)"

text \<open>The tunnel, the bridge and the registration that a pass builds.\<close>

definition built_tunnel :: "network_config \<Rightarrow> string \<Rightarrow> string \<Rightarrow> link" where
  "built_tunnel c dev ip =
     \<lparr>kind = Vxlan (vxlan_id_of c) dev, master = Some (bridge_name_of c), addresses = [],
      remotes = appended (filter (\<lambda>x. x \<noteq> ip) (endpoint_ips_of c))\<rparr>"

definition built_bridge :: link where
  "built_bridge = \<lparr>kind = Bridge, master = None, addresses = [], remotes = []\<rparr>"

definition built_net :: "network_config \<Rightarrow> libvirt_net" where
  "built_net c = \<lparr>on_bridge = bridge_name_of c, active = True, autostart = True\<rparr>"

text \<open>The local addresses of the links with the link that holds each, in listing order.\<close>

definition link_addresses :: "(string \<times> link) list \<Rightarrow> (string \<times> string) list" where
  "link_addresses ls = concat (map (\<lambda>p. map (Pair (fst p)) (addresses (snd p))) ls)"

text \<open>
  A host with one addressed interface and libvirt's \<open>default\<close> network, and the same host
  once \<open>fabric0\<close> has been built on it.
\<close>

definition fresh_host :: host where
  "fresh_host = \<lparr>
     links = [(''eth0'', \<lparr>kind = Plain, master = None, addresses = [''10.0.0.2''], remotes = []\<rparr>)],
     libvirt_nets = [(''default'', \<lparr>on_bridge = ''virbr0'', active = True, autostart = True\<rparr>)],
     tmpfiles = [],
     child = None\<rparr>"

definition fabric0_host :: host where
  "fabric0_host = \<lparr>
     links = [(''eth0'', \<lparr>kind = Plain, master = None, addresses = [''10.0.0.2''], remotes = []\<rparr>),
              (''fabric0'', \<lparr>kind = Vxlan ''42'' ''eth0'', master = Some ''br-fabric0'',
                             addresses = [], remotes = [''10.0.0.3'', ''10.0.0.1'']\<rparr>),
              (''br-fabric0'', \<lparr>kind = Bridge, master = None, addresses = [], remotes = []\<rparr>)],
     libvirt_nets = [(''default'', \<lparr>on_bridge = ''virbr0'', active = True, autostart = True\<rparr>),
                     (''fabric0'', \<lparr>on_bridge = ''br-fabric0'', active = True, autostart = True\<rparr>)],
     tmpfiles = [],
     child = Some 0\<rparr>"


section \<open>Properties of \<^verbatim>\<open>run_cmd\<close>\<close>

lemma commands_append: "commands (t @ u) = commands t @ commands u"
  by (induction t rule: commands.induct) auto

lemma commands_replicate_Wait: "commands (replicate k Wait) = []"
  by (induction k) auto

lemma traced_sel:
  "popen (traced os) argv stdin (t, w) = (case popen os argv stdin w of (r, w') \<Rightarrow> (r, (t @ [Spawn argv stdin], w')))"
  "wait (traced os) (t, w) = (case wait os w of (r, w') \<Rightarrow> (r, (t @ [Wait], w')))"
  "terminate (traced os) (t, w) = (t @ [Terminate], terminate os w)"
  "kill (traced os) (t, w) = (t @ [Kill], kill os w)"
  "named_temporary_file (traced os) doc (t, w) = (case named_temporary_file os doc w of (f, w') \<Rightarrow> (f, (t @ [TempFile doc f], w')))"
  "close_temporary_file (traced os) f (t, w) = (t @ [CloseTemp f], close_temporary_file os f w)"
  "ip_addr (traced os) (t, w) = ip_addr os w"
  "bridge_fdb (traced os) (t, w) = bridge_fdb os w"
  "virsh_net_list (traced os) (t, w) = virsh_net_list os w"
  "load_config (traced os) path (t, w) = load_config os path w"
  by (simp_all add: traced_def)

lemma wait_loop_None:
  "wait_loop n (traced os) argv None time sg (t, w) = (r, (t', w')) \<Longrightarrow>
     \<exists>k\<le>n. t' = t @ replicate k Wait \<and> (r = None \<longrightarrow> k = n) \<and> (\<forall>e. r \<noteq> Some (Inl e))"
proof (induction n arbitrary: time t w)
  case 0
  then show ?case by auto
next
  case (Suc n)
  show ?case
  proof (cases "wait os w")
    case (Pair x w1)
    show ?thesis
    proof (cases x)
      case None
      with Pair Suc.prems have "wait_loop n (traced os) argv None (time + 5) sg (t @ [Wait], w1) = (r, (t', w'))"
        by (simp add: traced_sel)
      from Suc.IH[OF this] obtain k where "k \<le> n" "t' = (t @ [Wait]) @ replicate k Wait" "r = None \<longrightarrow> k = n" "\<forall>e. r \<noteq> Some (Inl e)"
        by blast
      then show ?thesis
        by (intro exI[of _ "Suc k"]) (simp add: replicate_app_Cons_same)
    next
      case (Some a)
      with Pair Suc.prems show ?thesis
        by (intro exI[of _ "Suc 0"]) (auto simp add: traced_sel)
    qed
  qed
qed

lemma wait_loop_poll:
  "wait_loop n os argv None time sg w =
     (case poll n os w of (None, w') \<Rightarrow> (None, w') | (Some x, w') \<Rightarrow> (Some (Inr (x, sg)), w'))"
  by (induction n arbitrary: time w) (auto split: prod.splits option.splits)

lemma run_cmd_poll:
  "run_cmd fuel os cmd args stdin None w =
     (case popen os (cmd # args) stdin w of
        (Some err, w1) \<Rightarrow> (Some (Inl (ContextualError (ExecFailed (cmd # args) err))), w1)
      | (None, w1) \<Rightarrow>
          (case poll fuel os w1 of
             (None, w2) \<Rightarrow> (None, w2)
           | (Some x, w2) \<Rightarrow>
               (if x \<noteq> 0 then (Some (Inl (ContextualError (CommandFailed (cmd # args)))), w2)
                else (Some (Inr ()), w2))))"
  by (simp add: run_cmd_def wait_loop_poll split: prod.splits option.splits)

lemma run_cmd_traced:
  assumes "run_cmd n (traced os) c a si None (t, w) = (r, (t', w'))"
  shows "\<exists>k\<le>n. t' = t @ Spawn (c # a) si # replicate k Wait \<and> (r = None \<longrightarrow> k = n)"
proof (cases "popen os (c # a) si w")
  case (Pair x w1)
  show ?thesis
  proof (cases x)
    case (Some err)
    with Pair assms show ?thesis
      by (intro exI[of _ 0]) (auto simp: run_cmd_def traced_sel)
  next
    case None
    obtain r1 t1 w2 where wl: "wait_loop n (traced os) (c # a) None 0 False (t @ [Spawn (c # a) si], w1) = (r1, (t1, w2))"
      by (metis prod.exhaust)
    from wait_loop_None[OF wl] obtain k where k: "k \<le> n" "t1 = (t @ [Spawn (c # a) si]) @ replicate k Wait" "r1 = None \<longrightarrow> k = n"
      by blast
    from None Pair assms wl have "t' = t1" "r = None \<longrightarrow> r1 = None"
      by (auto simp: run_cmd_def traced_sel split: option.splits sum.splits if_splits)
    with k show ?thesis by (intro exI[of _ k]) auto
  qed
qed

lemma wait_loop_unsignaled:
  "wait_loop n (traced os) argv timeout time False (t, w) = (r, (t', w')) \<Longrightarrow>
     \<exists>u. t' = t @ u \<and> Kill \<notin> set u \<and> (\<forall>e. r \<noteq> Some (Inl e)) \<and> (\<forall>x s. r = Some (Inr (x, s)) \<longrightarrow> \<not> s)"
proof (induction n arbitrary: time t w)
  case 0
  then show ?case by auto
next
  case (Suc n)
  show ?case
  proof (cases "wait os w")
    case (Pair x w1)
    show ?thesis
    proof (cases x)
      case (Some a)
      with Pair Suc.prems show ?thesis
        by (intro exI[of _ "[Wait]"]) (auto simp add: traced_sel)
    next
      case None
      show ?thesis
      proof (cases "case timeout of None \<Rightarrow> False | Some tm \<Rightarrow> tm \<noteq> 0 \<and> time + 5 > tm")
        case True
        with None Pair Suc.prems have "wait_loop n (traced os) argv timeout (time + 5) False (t @ [Wait, Terminate], terminate os w1) = (r, (t', w'))"
          by (simp add: traced_sel Let_def)
        from Suc.IH[OF this] obtain u where "t' = (t @ [Wait, Terminate]) @ u" "Kill \<notin> set u" "\<forall>e. r \<noteq> Some (Inl e)" "\<forall>x s. r = Some (Inr (x, s)) \<longrightarrow> \<not> s"
          by blast
        then show ?thesis
          by (intro exI[of _ "[Wait, Terminate] @ u"]) simp
      next
        case False
        with None Pair Suc.prems have "wait_loop n (traced os) argv timeout (time + 5) False (t @ [Wait], w1) = (r, (t', w'))"
          by (simp add: traced_sel Let_def)
        from Suc.IH[OF this] obtain u where "t' = (t @ [Wait]) @ u" "Kill \<notin> set u" "\<forall>e. r \<noteq> Some (Inl e)" "\<forall>x s. r = Some (Inr (x, s)) \<longrightarrow> \<not> s"
          by blast
        then show ?thesis
          by (intro exI[of _ "[Wait] @ u"]) simp
      qed
    qed
  qed
qed


lemma run_cmd_started:
  "popen os (c # a) si w = (None, w1) \<Longrightarrow> wait_loop n os (c # a) timeout 0 False w1 = (r1, w2) \<Longrightarrow>
   run_cmd n os c a si timeout w = (after_loop (c # a) r1, w2)"
  by (simp add: run_cmd_def after_loop_def split: option.splits sum.splits prod.splits)

lemma run_cmd_not_started:
  "popen os (c # a) si w = (Some err, w1) \<Longrightarrow>
   run_cmd n os c a si timeout w = (Some (Inl (ContextualError (ExecFailed (c # a) err))), w1)"
  by (simp add: run_cmd_def)

lemma run_cmd_no_kill:
  assumes "run_cmd n (traced os) c a si timeout (t, w) = (r, (t', w'))"
  shows "(\<exists>u. t' = t @ u \<and> Kill \<notin> set u)
     \<and> r \<in> {None, Some (Inr ()), Some (Inl (ContextualError (CommandFailed (c # a))))}
           \<union> range (\<lambda>err. Some (Inl (ContextualError (ExecFailed (c # a) err))))"
proof (cases "popen os (c # a) si w")
  case (Pair x w1)
  show ?thesis
  proof (cases x)
    case (Some err)
    with Pair have "popen (traced os) (c # a) si (t, w) = (Some err, (t @ [Spawn (c # a) si], w1))"
      by (simp add: traced_sel)
    from run_cmd_not_started[OF this, of n timeout] assms show ?thesis by auto
  next
    case None
    with Pair have po: "popen (traced os) (c # a) si (t, w) = (None, (t @ [Spawn (c # a) si], w1))"
      by (simp add: traced_sel)
    obtain r1 t1 w2 where wl: "wait_loop n (traced os) (c # a) timeout 0 False (t @ [Spawn (c # a) si], w1) = (r1, (t1, w2))"
      by (metis prod.exhaust)
    from wait_loop_unsignaled[OF wl] obtain u where u: "t1 = (t @ [Spawn (c # a) si]) @ u" "Kill \<notin> set u"
       "\<forall>e. r1 \<noteq> Some (Inl e)" "\<forall>x s. r1 = Some (Inr (x, s)) \<longrightarrow> \<not> s"
      by blast
    from run_cmd_started[OF po wl] assms have eq: "r = after_loop (c # a) r1" "t' = t1" by auto
    have "after_loop (c # a) r1 \<in> {None, Some (Inr ()), Some (Inl (ContextualError (CommandFailed (c # a))))}"
    proof (cases r1)
      case None then show ?thesis by (simp add: after_loop_def)
    next
      case (Some v)
      show ?thesis
      proof (cases v)
        case (Inl e) with Some u(3) show ?thesis by simp
      next
        case (Inr p)
        obtain x sg where "p = (x, sg)" by (cases p)
        with Inr Some u(4) show ?thesis by (simp add: after_loop_def)
      qed
    qed
    with eq u show ?thesis by auto
  qed
qed

lemma stubborn_loop:
  "fst (wait_loop n (traced stubborn) argv timeout time False (t, ())) = None"
  by (induction n arbitrary: time t) (simp_all add: traced_sel stubborn_def Let_def)

text \<open>
  Claim C4. With a caller-supplied timeout that has elapsed, \<^verbatim>\<open>run_cmd\<close> is meant to ask
  the child to terminate first and, if it is still running at the next poll, to kill it
  and report that as a failure of its own. The loop never sets \<open>signaled\<close>, so the
  second step is never reached: run with a timeout of 5 seconds on a child that neither
  exits nor reacts to the termination request, \<^verbatim>\<open>run_cmd\<close> is still polling after any
  number of polls and has never sent the kill.
\<close>

theorem run_cmd_timeout_never_kills:
  "fst (run_cmd fuel (traced stubborn) ''sleep'' [''infinity''] None (Some 5) ([], ())) = None
   \<and> Kill \<notin> set (fst (snd (run_cmd fuel (traced stubborn) ''sleep'' [''infinity''] None (Some 5) ([], ()))))"
proof -
  let ?argv = "[''sleep'', ''infinity'']"
  obtain r t' w' where run: "run_cmd fuel (traced stubborn) ''sleep'' [''infinity''] None (Some 5) ([], ()) = (r, (t', w'))"
    by (metis prod.exhaust)
  from run_cmd_no_kill[OF run] have "Kill \<notin> set t'" by auto
  have po: "popen (traced stubborn) ?argv None ([], ()) = (None, ([Spawn ?argv None], ()))"
    by (simp add: traced_sel stubborn_def)
  obtain r1 s2 where wl: "wait_loop fuel (traced stubborn) ?argv (Some 5) 0 False ([Spawn ?argv None], ()) = (r1, s2)"
    by (metis prod.exhaust)
  with stubborn_loop[of fuel ?argv "Some 5" 0 "[Spawn ?argv None]"] have "r1 = None" by simp
  with run_cmd_started[OF po wl] run have "r = None" by (simp add: after_loop_def)
  with \<open>Kill \<notin> set t'\<close> show ?thesis using run by simp
qed

lemma stubborn_trace_4:
  "run_cmd 4 (traced stubborn) ''sleep'' [''infinity''] None (Some 5) ([], ()) =
     (None, ([Spawn [''sleep'', ''infinity''] None, Wait, Wait, Terminate, Wait, Terminate, Wait, Terminate], ()))"
  by (simp add: run_cmd_def traced_sel stubborn_def eval_nat_numeral Let_def)



section \<open>No command of the installer is ever signalled\<close>

lemma no_signal_simps:
  "no_signal []" "no_signal (u @ v) = (no_signal u \<and> no_signal v)"
  "no_signal (Spawn argv si # u) = no_signal u" "no_signal (Wait # u) = no_signal u"
  "no_signal (TempFile d f # u) = no_signal u" "no_signal (CloseTemp f # u) = no_signal u"
  "no_signal (replicate k Wait)"
  by (auto simp: no_signal_def)

lemma emits_bnd:
  assumes m: "emits tr no_signal m" and f: "\<And>v. emits tr no_signal (f v)"
  shows "emits tr no_signal (bnd m f)"
  unfolding emits_def
proof
  fix s
  obtain r s1 where ms: "m s = (r, s1)" by (cases "m s")
  from m obtain u where u: "tr s1 = tr s @ u" "no_signal u"
    unfolding emits_def using ms by (metis snd_conv)
  show "\<exists>u. tr (snd (bnd m f s)) = tr s @ u \<and> no_signal u"
  proof (cases r)
    case None
    with ms u show ?thesis by (auto simp: bnd_def)
  next
    case (Some x)
    show ?thesis
    proof (cases x)
      case (Inl e)
      with Some ms u show ?thesis by (auto simp: bnd_def)
    next
      case (Inr v)
      from f[of v] obtain u' where u': "tr (snd (f v s1)) = tr s1 @ u'" "no_signal u'"
        unfolding emits_def by blast
      from Inr Some ms have "bnd m f s = f v s1" by (simp add: bnd_def)
      with u u' show ?thesis by (intro exI[of _ "u @ u'"]) (simp add: no_signal_simps)
    qed
  qed
qed

lemma emits_seq:
  "emits tr no_signal m \<Longrightarrow> emits tr no_signal k \<Longrightarrow> emits tr no_signal (seq m k)"
  unfolding seq_def by (rule emits_bnd)

lemma emits_ret: "emits tr no_signal (ret v)"
  by (simp add: emits_def ret_def no_signal_simps)

lemma emits_result: "emits tr no_signal (result r)"
  by (simp add: emits_def result_def no_signal_simps)

lemma emits_do_if: "emits tr no_signal m \<Longrightarrow> emits tr no_signal (do_if b m)"
  by (simp add: do_if_def emits_ret)

lemma emits_for_each:
  "(\<And>x. emits tr no_signal (body x)) \<Longrightarrow> emits tr no_signal (for_each body xs)"
  by (induction xs) (simp_all add: emits_ret emits_seq)

lemma emits_in_world:
  assumes "emits fst no_signal m"
  shows "emits (\<lambda>s. fst (snd s)) no_signal (in_world m)"
  unfolding emits_def
proof
  fix s :: "installer \<times> event list \<times> 'a"
  obtain self t w where s: "s = (self, (t, w))" by (metis prod.exhaust)
  obtain r t' w' where m: "m (t, w) = (r, (t', w'))" by (metis prod.exhaust)
  from assms m obtain u where "t' = t @ u" "no_signal u"
    unfolding emits_def by (metis fst_conv snd_conv)
  with s m show "\<exists>u. fst (snd (snd (in_world m s))) = fst (snd s) @ u \<and> no_signal u"
    by (simp add: in_world_def)
qed

lemma emits_with_self: "(\<And>self. emits tr no_signal (f self)) \<Longrightarrow> emits tr no_signal (with_self f)"
  unfolding emits_def with_self_def by auto

lemma emits_run_cmd: "emits fst no_signal (run_cmd n (traced os) c a si None)"
  unfolding emits_def
proof
  fix s :: "event list \<times> 'a"
  obtain t w where s: "s = (t, w)" by (cases s)
  obtain r t' w' where run: "run_cmd n (traced os) c a si None (t, w) = (r, (t', w'))"
    by (metis prod.exhaust)
  from run_cmd_traced[OF run] obtain k where "t' = t @ Spawn (c # a) si # replicate k Wait" by blast
  with s run show "\<exists>u. fst (snd (run_cmd n (traced os) c a si None s)) = fst s @ u \<and> no_signal u"
    by (simp add: no_signal_simps)
qed

lemma emits_remove_link: "emits fst no_signal (remove_link n (traced os) x)"
  by (simp add: remove_link_def emits_run_cmd)

lemma emits_add_new_tunnel: "emits fst no_signal (add_new_tunnel n (traced os) tn bn v d)"
  unfolding add_new_tunnel_def
  by (intro emits_seq emits_run_cmd)

lemma emits_connect_endpoints: "emits fst no_signal (connect_endpoints n (traced os) tn eps l)"
  unfolding connect_endpoints_def Let_def
  by (intro emits_for_each emits_run_cmd)

lemma emits_with_temporary_file:
  assumes "\<And>tmp. emits fst no_signal (body tmp)"
  shows "emits fst no_signal (with_temporary_file (traced os) doc body)"
  unfolding emits_def
proof
  fix s :: "event list \<times> 'a"
  obtain t w where s: "s = (t, w)" by (cases s)
  obtain tmp w1 where nt: "named_temporary_file os doc w = (tmp, w1)" by (cases "named_temporary_file os doc w")
  obtain r t2 w2 where b: "body tmp (t @ [TempFile doc tmp], w1) = (r, (t2, w2))" by (metis prod.exhaust)
  from assms[of tmp] b obtain u where u: "t2 = (t @ [TempFile doc tmp]) @ u" "no_signal u"
    unfolding emits_def by (metis fst_conv snd_conv)
  show "\<exists>u. fst (snd (with_temporary_file (traced os) doc body s)) = fst s @ u \<and> no_signal u"
  proof (cases r)
    case None
    with s nt b u show ?thesis
      by (intro exI[of _ "TempFile doc tmp # u"]) (simp add: with_temporary_file_def traced_sel no_signal_simps)
  next
    case (Some x)
    with s nt b u show ?thesis
      by (intro exI[of _ "TempFile doc tmp # u @ [CloseTemp tmp]"]) (simp add: with_temporary_file_def traced_sel no_signal_simps)
  qed
qed

lemma emits_set_vnets: "emits (\<lambda>s. fst (snd s)) no_signal (\<lambda>(self, w). (Some (Inr ()), (g self, w)))"
  by (simp add: emits_def no_signal_simps split_def)

lemma emits_add_virtual_network: "emits (\<lambda>s. fst (snd s)) no_signal (add_virtual_network n (traced os) nn bn)"
  unfolding add_virtual_network_def
  by (intro emits_seq emits_in_world emits_with_temporary_file emits_run_cmd emits_set_vnets)

lemma emits_remove_virtual_network: "emits (\<lambda>s. fst (snd s)) no_signal (remove_virtual_network n (traced os) nn)"
  unfolding remove_virtual_network_def
proof (rule emits_with_self)
  fix self
  show "emits (\<lambda>s. fst (snd s)) no_signal
          (if nn \<notin> set (vnets self) then ret ()
           else seq (in_world (run_cmd n (traced os) ''virsh'' [''net-destroy'', nn] None None))
                 (seq (in_world (run_cmd n (traced os) ''virsh'' [''net-undefine'', nn] None None))
                   (\<lambda>(self, w). (Some (Inr ()), self\<lparr>vnets := remove1 nn (vnets self)\<rparr>, w))))"
  proof (cases "nn \<notin> set (vnets self)")
    case True
    then show ?thesis by (simp add: emits_ret)
  next
    case False
    then show ?thesis
      by (simp only: if_False)
         (intro emits_seq emits_in_world emits_run_cmd emits_set_vnets)
  qed
qed

lemma emits_construct_tail:
  "emits (\<lambda>s. fst (snd s)) no_signal
     (seq (in_world (add_new_tunnel n (traced os) tn bn v d))
       (seq (in_world (connect_endpoints n (traced os) tn eps l))
         (seq (remove_virtual_network n (traced os) nn)
              (add_virtual_network n (traced os) nn bn))))"
  by (intro emits_seq emits_in_world emits_add_new_tunnel emits_connect_endpoints
        emits_remove_virtual_network emits_add_virtual_network)

lemma emits_construct_virtual_network:
  "emits (\<lambda>s. fst (snd s)) no_signal (construct_virtual_network n (traced os) c)"
  unfolding construct_virtual_network_def
  apply (intro emits_seq emits_bnd emits_with_self emits_result emits_do_if emits_in_world
        emits_remove_link)
  subgoal for v by (cases v) (simp add: emits_construct_tail)
  done


lemma emits_install_networks:
  "emits (\<lambda>s. fst (snd s)) no_signal (install_networks n (traced os) networks)"
  unfolding install_networks_def
  apply (intro emits_seq emits_for_each emits_remove_virtual_network)
  subgoal for x by (cases x) (simp add: emits_construct_virtual_network)
  done

text \<open>
  Claim C9. Called without a timeout, \<^verbatim>\<open>run_cmd\<close> does nothing but poll: its outcome is
  that of starting the command and polling until the child gives an exit value, it has
  asked for nothing but the start and the polls, and as long as it has not returned it
  has used every poll it was given. No command run for \<^verbatim>\<open>remove_virtual_network\<close>,
  \<^verbatim>\<open>construct_virtual_network\<close> or the network part of \<^verbatim>\<open>main\<close> is ever sent the
  termination or the kill signal, whatever the operating system answers.
\<close>

theorem run_cmd_default_timeout_only_polls:
  "run_cmd fuel os cmd args stdin None w =
     (case popen os (cmd # args) stdin w of
        (Some err, w1) \<Rightarrow> (Some (Inl (ContextualError (ExecFailed (cmd # args) err))), w1)
      | (None, w1) \<Rightarrow>
          (case poll fuel os w1 of
             (None, w2) \<Rightarrow> (None, w2)
           | (Some x, w2) \<Rightarrow>
               (if x \<noteq> 0 then (Some (Inl (ContextualError (CommandFailed (cmd # args)))), w2)
                else (Some (Inr ()), w2))))
   \<and> (\<exists>k\<le>fuel. fst (snd (run_cmd fuel (traced os) cmd args stdin None (t, w)))
                    = t @ Spawn (cmd # args) stdin # replicate k Wait
                \<and> (fst (run_cmd fuel (traced os) cmd args stdin None (t, w)) = None \<longrightarrow> k = fuel))
   \<and> emits (\<lambda>s. fst (snd s)) no_signal (remove_virtual_network fuel (traced os) name)
   \<and> emits (\<lambda>s. fst (snd s)) no_signal (construct_virtual_network fuel (traced os) c)
   \<and> emits (\<lambda>s. fst (snd s)) no_signal (install_networks fuel (traced os) networks)"
proof -
  obtain r t' w' where run: "run_cmd fuel (traced os) cmd args stdin None (t, w) = (r, (t', w'))"
    by (metis prod.exhaust)
  from run_cmd_traced[OF run] run
  have "\<exists>k\<le>fuel. fst (snd (run_cmd fuel (traced os) cmd args stdin None (t, w)))
                    = t @ Spawn (cmd # args) stdin # replicate k Wait
                \<and> (fst (run_cmd fuel (traced os) cmd args stdin None (t, w)) = None \<longrightarrow> k = fuel)"
    by simp
  then show ?thesis
    using run_cmd_poll[of fuel os cmd args stdin w] emits_remove_virtual_network[of fuel os name]
      emits_construct_virtual_network[of fuel os c] emits_install_networks[of fuel os networks]
    by blast
qed

theorem run_cmd_default_timeout_only_polls_witness:
  "fst (run_cmd 3 (traced stubborn) ''ip'' [''link'', ''del'', ''vx0''] None None ([], ())) = None
   \<and> fst (snd (run_cmd 3 (traced stubborn) ''ip'' [''link'', ''del'', ''vx0''] None None ([], ())))
       = [Spawn [''ip'', ''link'', ''del'', ''vx0''] None, Wait, Wait, Wait]"
proof -
  let ?run = "run_cmd 3 (traced stubborn) ''ip'' [''link'', ''del'', ''vx0''] None None ([], ())"
  have none: "fst ?run = None"
    by (simp add: run_cmd_def traced_sel stubborn_def eval_nat_numeral)
  from run_cmd_default_timeout_only_polls[of 3 stubborn "''ip''" "[''link'', ''del'', ''vx0'']" None "()" "[]"]
  obtain k where "fst (snd ?run) = [] @ Spawn [''ip'', ''link'', ''del'', ''vx0''] None # replicate k Wait"
     and "fst ?run = None \<longrightarrow> k = 3"
    by blast
  with none show ?thesis by (simp add: eval_nat_numeral)
qed

section \<open>The underlay resolver\<close>

lemma find_app: "find P (xs @ ys) = (case find P xs of None \<Rightarrow> find P ys | Some x \<Rightarrow> Some x)"
  by (induction xs) auto

lemma scan_addr_info_find:
  "scan_addr_info intf as eps = find (\<lambda>p. snd p \<in> set eps) (map (Pair intf) (List.map_filter local as))"
  by (induction as) (auto simp: List.map_filter_simps split: option.splits)

lemma scan_interfaces_find:
  "scan_interfaces ifs eps = find (\<lambda>p. snd p \<in> set eps) (local_addresses ifs)"
proof (induction ifs)
  case Nil
  then show ?case by (simp add: local_addresses_def)
next
  case (Cons a ifs)
  obtain intf d where a: "a = (intf, d)" by (cases a)
  have la: "local_addresses (a # ifs) =
      map (Pair intf) (List.map_filter local (case addr_info d of None \<Rightarrow> [] | Some x \<Rightarrow> x)) @ local_addresses ifs"
    by (simp add: local_addresses_def a)
  show ?case
    unfolding la find_app using Cons.IH
    by (simp add: a scan_addr_info_find split: option.splits)
qed

text \<open>
  Claim C5. \<^verbatim>\<open>_find_underlay\<close> returns the first pair of interface name and local
  address, in the order of the snapshot (interfaces, then the address records of each),
  whose address is one of the endpoint IPs; it raises the no-underlay error exactly when
  no local address of any interface is an endpoint IP, and so always when there are no
  endpoint IPs.
\<close>

theorem find_underlay_first_match:
  "find_underlay self eps =
     (case find (\<lambda>p. snd p \<in> set eps) (local_addresses (interfaces self)) of
        Some p \<Rightarrow> Inr p
      | None \<Rightarrow> Inl (ContextualError (NoUnderlay eps)))
   \<and> ((\<exists>e. find_underlay self eps = Inl e) =
        (snd ` set (local_addresses (interfaces self)) \<inter> set eps = {}))
   \<and> find_underlay self [] = Inl (ContextualError (NoUnderlay []))"
proof -
  have eq: "find_underlay self eps =
     (case find (\<lambda>p. snd p \<in> set eps) (local_addresses (interfaces self)) of
        Some p \<Rightarrow> Inr p
      | None \<Rightarrow> Inl (ContextualError (NoUnderlay eps)))" for eps
    by (simp add: find_underlay_def scan_interfaces_find)
  have none: "(find (\<lambda>p. snd p \<in> set eps) (local_addresses (interfaces self)) = None) =
        (snd ` set (local_addresses (interfaces self)) \<inter> set eps = {})"
    by (auto simp: find_None_iff)
  have "(\<exists>e. find_underlay self eps = Inl e) =
        (find (\<lambda>p. snd p \<in> set eps) (local_addresses (interfaces self)) = None)"
    unfolding eq by (simp split: option.splits)
  moreover have "find_underlay self [] = Inl (ContextualError (NoUnderlay []))"
  proof -
    have "find (\<lambda>p. False) (local_addresses (interfaces self)) = None"
      by (simp add: find_None_iff)
    then show ?thesis unfolding eq by simp
  qed
  ultimately show ?thesis using none eq[of eps] by simp
qed

theorem find_underlay_first_match_witness:
  "find_underlay blade_a [''10.0.0.1'', ''10.0.0.3'', ''10.0.0.2''] = Inr (''eth0'', ''10.0.0.2'')
   \<and> find_underlay blade_a [''10.0.0.9''] = Inl (ContextualError (NoUnderlay [''10.0.0.9'']))"
  using find_underlay_first_match[of blade_a "[''10.0.0.1'', ''10.0.0.3'', ''10.0.0.2'']"]
    find_underlay_first_match[of blade_a "[''10.0.0.9'']"]
  by (simp add: blade_a_def local_addresses_def List.map_filter_simps)

section \<open>The conflict checker\<close>

lemma index_interfaces_distinct:
  "distinct (map fst acc) \<Longrightarrow> index_interfaces xs acc = Inr r \<Longrightarrow> distinct (map fst r)"
  by (induction xs arbitrary: acc) (auto intro: AList.distinct_update split: option.splits)

lemma fold_dsts_distinct:
  "distinct (map fst ifs) \<Longrightarrow> fold_dsts ds ifs = Inr r \<Longrightarrow> distinct (map fst r)"
  by (induction ds arbitrary: ifs) (auto intro: AList.distinct_update split: option.splits)

lemma get_interfaces_distinct:
  "get_interfaces os w = Inr ifs \<Longrightarrow> distinct (map fst ifs)"
  unfolding get_interfaces_def
  by (auto split: query.splits sum.splits dest!: index_interfaces_distinct[rotated] fold_dsts_distinct[rotated])

lemma select_kind_filter:
  "select_kind k ifs = Inr r \<Longrightarrow> r = filter (\<lambda>p. is_kind k (snd p)) ifs"
  by (induction ifs arbitrary: r) (auto simp: is_kind_def split: option.splits sum.splits)

lemma NetworkInstaller_snapshot:
  assumes "NetworkInstaller os w = (Some (Inr self), w')"
  shows "distinct (map fst (interfaces self))"
    and "vxlans self = filter (\<lambda>p. is_kind ''vxlan'' (snd p)) (interfaces self)"
    and "bridges self = filter (\<lambda>p. is_kind ''bridge'' (snd p)) (interfaces self)"
  using assms unfolding NetworkInstaller_def
  by (auto split: sum.splits dest: get_interfaces_distinct select_kind_filter)

lemma key_in_filter:
  "distinct (map fst ifs) \<Longrightarrow>
   (n \<in> fst ` set (filter (\<lambda>p. P (snd p)) ifs)) = (case map_of ifs n of None \<Rightarrow> False | Some i \<Rightarrow> P i)"
  by (induction ifs) (auto split: option.splits simp: image_iff)

lemma key_in: "(n \<in> fst ` set ifs) = (map_of ifs n \<noteq> None)"
  by (simp add: map_of_eq_None_iff)

lemma check_conflict_snapshot:
  assumes "NetworkInstaller os w = (Some (Inr self), w')"
  shows "check_conflict self tn bn =
     (if tunnel_conflict (interfaces self) tn then Inl (ContextualError (TunnelNameConflict tn))
      else if bridge_conflict (interfaces self) bn then Inl (ContextualError (BridgeNameConflict tn bn))
      else Inr ())"
proof -
  note d = NetworkInstaller_snapshot(1)[OF assms]
  have vx: "(tn \<in> fst ` set (vxlans self)) =
      (case map_of (interfaces self) tn of None \<Rightarrow> False | Some i \<Rightarrow> is_kind ''vxlan'' i)"
    unfolding NetworkInstaller_snapshot(2)[OF assms] by (rule key_in_filter[OF d])
  have br: "(bn \<in> fst ` set (bridges self)) =
      (case map_of (interfaces self) bn of None \<Rightarrow> False | Some i \<Rightarrow> is_kind ''bridge'' i)"
    unfolding NetworkInstaller_snapshot(3)[OF assms] by (rule key_in_filter[OF d])
  have tn: "(tn \<in> fst ` set (interfaces self)) = (map_of (interfaces self) tn \<noteq> None)"
    by (rule key_in)
  have bn: "(bn \<in> fst ` set (interfaces self)) = (map_of (interfaces self) bn \<noteq> None)"
    by (rule key_in)
  show ?thesis
    unfolding check_conflict_def vx br tn bn tunnel_conflict_def bridge_conflict_def
    by (simp split: option.splits)
qed

lemma construct_conflict:
  "check_conflict self (tunnel_name_of c) (bridge_name_of c) = Inl e \<Longrightarrow>
   construct_virtual_network fuel os c (self, w) = (Some (Inl e), (self, w))"
  by (simp add: construct_virtual_network_def seq_def bnd_def with_self_def result_def)

text \<open>
  Claim C2. On any snapshot taken by the constructor, when the tunnel name of a network is
  the name of an interface that is not a VxLAN device, or its bridge name is the name of an
  interface that is not a bridge, \<^verbatim>\<open>construct_virtual_network\<close> raises the name-conflict
  error and leaves the object and the world as they were: no call is made to the operating
  system, so no link is removed or created, no forwarding entry is added and no network is
  registered or unregistered. When neither is the case, each name being absent or of the
  expected kind, \<^verbatim>\<open>_check_conflict\<close> returns without raising.
\<close>

theorem name_conflict_stops_construction:
  assumes "NetworkInstaller os0 w0 = (Some (Inr self), w1)"
  shows "(tunnel_conflict (interfaces self) (tunnel_name_of c)
            \<or> bridge_conflict (interfaces self) (bridge_name_of c) \<longrightarrow>
          (\<exists>e. e = (if tunnel_conflict (interfaces self) (tunnel_name_of c)
                     then TunnelNameConflict (tunnel_name_of c)
                     else BridgeNameConflict (tunnel_name_of c) (bridge_name_of c))
             \<and> construct_virtual_network fuel os c (self, w)
                  = (Some (Inl (ContextualError e)), (self, w))
             \<and> construct_virtual_network fuel (traced os) c (self, (t, w))
                  = (Some (Inl (ContextualError e)), (self, (t, w)))))
     \<and> (\<not> tunnel_conflict (interfaces self) (tunnel_name_of c)
            \<and> \<not> bridge_conflict (interfaces self) (bridge_name_of c) \<longrightarrow>
          check_conflict self (tunnel_name_of c) (bridge_name_of c) = Inr ())"
  using check_conflict_snapshot[OF assms, of "tunnel_name_of c" "bridge_name_of c"]
  by (auto intro!: construct_conflict)


theorem name_conflict_stops_construction_witness:
  "NetworkInstaller (fixed_os taken_if_data [] [] no_config) () = (Some (Inr taken_blade), ())
   \<and> tunnel_conflict (interfaces taken_blade) (tunnel_name_of fabric0)
   \<and> construct_virtual_network 1 (traced (fixed_os taken_if_data [] [] no_config)) fabric0
        (taken_blade, ([], ()))
       = (Some (Inl (ContextualError (TunnelNameConflict ''fabric0''))), (taken_blade, ([], ())))"
proof -
  have snap: "NetworkInstaller (fixed_os taken_if_data [] [] no_config) () = (Some (Inr taken_blade), ())"
    by (simp add: NetworkInstaller_def get_interfaces_def get_virtual_networks_def fixed_os_def
          taken_if_data_def taken_blade_def)
  have tn: "tunnel_name_of fabric0 = ''fabric0''"
    by (simp add: tunnel_name_of_def network_name_of_def fabric0_def)
  have confl: "tunnel_conflict (interfaces taken_blade) (tunnel_name_of fabric0)"
    by (simp add: tn tunnel_conflict_def taken_blade_def taken_if_data_def is_kind_def)
  from name_conflict_stops_construction[OF snap, of fabric0 1
      "fixed_os taken_if_data [] [] no_config" "()" "[]"] confl
  show ?thesis using snap by (simp add: tn)
qed

section \<open>The mesh connector\<close>

lemma run_cmd_commands:
  assumes "run_cmd n (traced os) c a si None (t, w) = (r, (t', w'))"
  shows "commands t' = commands t @ [c # a]"
proof -
  from run_cmd_traced[OF assms] obtain k where "t' = t @ Spawn (c # a) si # replicate k Wait"
    by blast
  then show ?thesis by (simp add: commands_append commands_replicate_Wait)
qed

lemma seq_cases:
  assumes "seq m k s = (r, s')"
  obtains (finished) s1 where "m s = (Some (Inr ()), s1)" "k s1 = (r, s')"
    | (raised) e where "m s = (Some (Inl e), s')" "r = Some (Inl e)"
    | (polling) "m s = (None, s')" "r = None"
proof (cases "m s")
  case (Pair r1 s1)
  show ?thesis
  proof (cases r1)
    case None
    with Pair assms polling show ?thesis by (simp add: seq_def bnd_def)
  next
    case (Some x)
    show ?thesis
    proof (cases x)
      case (Inl e)
      with Some Pair assms raised show ?thesis by (simp add: seq_def bnd_def)
    next
      case (Inr u)
      with Some Pair assms finished show ?thesis by (simp add: seq_def bnd_def)
    qed
  qed
qed

lemma fdb_dst_of_append: "fdb_dst_of tunnel (fdb_append tunnel ip) = Some ip"
  by (simp add: fdb_dst_of_def fdb_append_def)

lemma map_filter_append: "List.map_filter f (xs @ ys) = List.map_filter f xs @ List.map_filter f ys"
  by (simp add: List.map_filter_def)

lemma map_filter_fdb: "List.map_filter (fdb_dst_of tunnel) (map (fdb_append tunnel) ips) = ips"
  by (induction ips) (simp_all add: List.map_filter_simps fdb_dst_of_append)

lemma connect_loop_commands:
  assumes "for_each (\<lambda>ip. run_cmd n (traced os) ''bridge''
                    [''fdb'', ''append'', ''to'', ''00:00:00:00:00:00'', ''dst'', ip,
                     ''dev'', tunnel] None None) ips (t, w) = (r, (t', w'))"
  shows "\<exists>j\<le>length ips. commands t' = commands t @ map (fdb_append tunnel) (take j ips)
           \<and> (r = Some (Inr ()) \<longrightarrow> j = length ips)"
  using assms
proof (induction ips arbitrary: t w)
  case Nil
  then show ?case by (simp add: ret_def)
next
  case (Cons ip ips)
  let ?cmd = "run_cmd n (traced os) ''bridge''
                    [''fdb'', ''append'', ''to'', ''00:00:00:00:00:00'', ''dst'', ip,
                     ''dev'', tunnel] None None"
  from Cons.prems have sq: "seq ?cmd (for_each (\<lambda>ip. run_cmd n (traced os) ''bridge''
                    [''fdb'', ''append'', ''to'', ''00:00:00:00:00:00'', ''dst'', ip,
                     ''dev'', tunnel] None None) ips) (t, w) = (r, (t', w'))"
    by simp
  show ?case
  proof (cases rule: seq_cases[OF sq])
    case (1 s1)
    obtain t1 w1 where s1: "s1 = (t1, w1)" by (cases s1)
    from run_cmd_commands[OF 1(1)[unfolded s1]]
    have c1: "commands t1 = commands t @ [fdb_append tunnel ip]" by (simp add: fdb_append_def)
    from Cons.IH[OF 1(2)[unfolded s1]] obtain j where j: "j \<le> length ips"
      "commands t' = commands t1 @ map (fdb_append tunnel) (take j ips)"
      "r = Some (Inr ()) \<longrightarrow> j = length ips" by blast
    with c1 show ?thesis by (intro exI[of _ "Suc j"]) simp
  next
    case (2 e)
    from run_cmd_commands[OF 2(1)]
    have "commands t' = commands t @ [fdb_append tunnel ip]" by (simp add: fdb_append_def)
    with 2 show ?thesis by (intro exI[of _ "Suc 0"]) simp
  next
    case 3
    from run_cmd_commands[OF 3(1)]
    have "commands t' = commands t @ [fdb_append tunnel ip]" by (simp add: fdb_append_def)
    with 3 show ?thesis by (intro exI[of _ "Suc 0"]) simp
  qed
qed

text \<open>
  Claim C1. When \<^verbatim>\<open>connect_endpoints\<close> returns, the commands it has run are, in order,
  one forwarding-entry addition on the tunnel device for every occurrence in
  \<open>endpoint_ips\<close> of an address other than the local one. The set of destinations it has
  added is therefore the set of endpoint IPs without the local IP, whatever their order,
  and the local IP is never among them. A remote IP listed twice is added by two commands
  and is one destination of that set. Started on a tunnel device with no such entry, as
  in \<^verbatim>\<open>construct_virtual_network\<close>, which has just created the device, this is the whole
  set of its destinations.
\<close>

theorem connect_endpoints_programs_remote_ips:
  assumes "connect_endpoints fuel (traced os) tunnel eps local_ip (t, w) = (Some (Inr ()), (t', w'))"
  shows "commands t' = commands t @ map (fdb_append tunnel) (filter (\<lambda>ip. ip \<noteq> local_ip) eps)
     \<and> fdb_entries tunnel t' = fdb_entries tunnel t @ filter (\<lambda>ip. ip \<noteq> local_ip) eps
     \<and> set (fdb_entries tunnel t') = set (fdb_entries tunnel t) \<union> (set eps - {local_ip})
     \<and> (fdb_entries tunnel t = [] \<longrightarrow>
           set (fdb_entries tunnel t') = set eps - {local_ip}
           \<and> local_ip \<notin> set (fdb_entries tunnel t'))"
proof -
  from connect_loop_commands[OF assms[unfolded connect_endpoints_def Let_def]]
  have c: "commands t' = commands t @ map (fdb_append tunnel) (filter (\<lambda>ip. ip \<noteq> local_ip) eps)"
    by auto
  then have e: "fdb_entries tunnel t' = fdb_entries tunnel t @ filter (\<lambda>ip. ip \<noteq> local_ip) eps"
    by (simp add: fdb_entries_def map_filter_append map_filter_fdb)
  from c e show ?thesis by auto
qed

theorem connect_endpoints_programs_remote_ips_witness:
  "fst (connect_endpoints 1 (traced (fixed_os [] [] [] no_config)) ''fabric0''
          [''10.0.0.1'', ''10.0.0.2'', ''10.0.0.3'', ''10.0.0.1''] ''10.0.0.2'' ([], ()))
     = Some (Inr ())
   \<and> set (fdb_entries ''fabric0''
        (fst (snd (connect_endpoints 1 (traced (fixed_os [] [] [] no_config)) ''fabric0''
          [''10.0.0.1'', ''10.0.0.2'', ''10.0.0.3'', ''10.0.0.1''] ''10.0.0.2'' ([], ())))))
     = {''10.0.0.1'', ''10.0.0.3''}"
proof -
  let ?run = "connect_endpoints 1 (traced (fixed_os [] [] [] no_config)) ''fabric0''
          [''10.0.0.1'', ''10.0.0.2'', ''10.0.0.3'', ''10.0.0.1''] ''10.0.0.2'' ([], ())"
  have ok: "fst ?run = Some (Inr ())"
    by (simp add: connect_endpoints_def seq_def bnd_def ret_def run_cmd_def traced_sel fixed_os_def)
  obtain t' w' where run: "?run = (Some (Inr ()), (t', w'))"
    using ok by (metis prod.exhaust fst_conv)
  have empty: "fdb_entries ''fabric0'' [] = []"
    by (simp add: fdb_entries_def List.map_filter_simps)
  from connect_endpoints_programs_remote_ips[OF run] empty
  have "set (fdb_entries ''fabric0'' t') = set [''10.0.0.1'', ''10.0.0.2'', ''10.0.0.3'', ''10.0.0.1''] - {''10.0.0.2''}"
    by blast
  also have "\<dots> = {''10.0.0.1'', ''10.0.0.3''}" by auto
  finally show ?thesis using ok run by simp
qed

section \<open>The order of removal and underlay resolution\<close>

lemma built_snapshot:
  "NetworkInstaller (fixed_os built_if_data [] [''fabric0'' @ [CHR 0x0A]] no_config) ()
     = (Some (Inr built_blade), ())"
  by (simp add: NetworkInstaller_def get_interfaces_def get_virtual_networks_def fixed_os_def
        built_if_data_def built_blade_def)

lemma names_of_fabric0_elsewhere:
  "tunnel_name_of fabric0_elsewhere = ''fabric0''"
  "bridge_name_of fabric0_elsewhere = ''br-fabric0''"
  "endpoint_ips_of fabric0_elsewhere = [''10.9.9.1'', ''10.9.9.2'']"
  by (simp_all add: fabric0_elsewhere_def fabric0_def tunnel_name_of_def bridge_name_of_def
        network_name_of_def endpoint_ips_of_def)

lemma built_disjoint:
  "snd ` set (local_addresses (interfaces built_blade))
        \<inter> set (endpoint_ips_of fabric0_elsewhere) = {}"
  by (simp add: names_of_fabric0_elsewhere built_blade_def built_if_data_def
        local_addresses_def List.map_filter_simps)

lemma built_run:
  "construct_virtual_network 1
        (traced (fixed_os built_if_data [] [''fabric0'' @ [CHR 0x0A]] no_config))
        fabric0_elsewhere (built_blade, ([], ()))
     = (Some (Inl (ContextualError (NoUnderlay [''10.9.9.1'', ''10.9.9.2'']))),
        (built_blade,
         ([Spawn [''ip'', ''link'', ''del'', ''fabric0''] None, Wait,
           Spawn [''ip'', ''link'', ''del'', ''br-fabric0''] None, Wait], ())))"
proof -
  have chk: "check_conflict built_blade ''fabric0'' ''br-fabric0'' = Inr ()"
    by (simp add: check_conflict_def built_blade_def)
  have fu: "find_underlay built_blade [''10.9.9.1'', ''10.9.9.2'']
      = Inl (ContextualError (NoUnderlay [''10.9.9.1'', ''10.9.9.2'']))"
    by (simp add: find_underlay_def built_blade_def built_if_data_def)
  have ifs: "''fabric0'' \<in> fst ` set (interfaces built_blade)"
    "''br-fabric0'' \<in> fst ` set (interfaces built_blade)"
    by (simp_all add: built_blade_def)
  show ?thesis
    by (simp add: construct_virtual_network_def names_of_fabric0_elsewhere chk fu ifs
          seq_def bnd_def with_self_def result_def do_if_def in_world_def remove_link_def
          run_cmd_def traced_sel fixed_os_def)
qed

text \<open>
  Claim C3 says that when no endpoint IP is a local address the construction fails with
  the no-underlay error before any mutating step, the removal of an existing link named
  as the tunnel or the bridge included. \<^verbatim>\<open>construct_virtual_network\<close> removes those
  links before it calls \<^verbatim>\<open>_find_underlay\<close>: on a blade that already has the tunnel and
  the bridge, both are deleted and then the error is raised.
\<close>

theorem removal_runs_before_no_underlay_counterexample:
  "NetworkInstaller (fixed_os built_if_data [] [''fabric0'' @ [CHR 0x0A]] no_config) ()
     = (Some (Inr built_blade), ())
   \<and> snd ` set (local_addresses (interfaces built_blade))
        \<inter> set (endpoint_ips_of fabric0_elsewhere) = {}
   \<and> construct_virtual_network 1
        (traced (fixed_os built_if_data [] [''fabric0'' @ [CHR 0x0A]] no_config))
        fabric0_elsewhere (built_blade, ([], ()))
     = (Some (Inl (ContextualError (NoUnderlay [''10.9.9.1'', ''10.9.9.2'']))),
        (built_blade,
         ([Spawn [''ip'', ''link'', ''del'', ''fabric0''] None, Wait,
           Spawn [''ip'', ''link'', ''del'', ''br-fabric0''] None, Wait], ())))"
  using built_snapshot built_disjoint built_run by simp

lemma run_cmd_outcome:
  assumes "run_cmd n (traced os) c a si None (t, w) = (r, (t', w'))"
  shows "commands t' = commands t @ [c # a]"
    and "r = Some (Inr ()) \<or> r = None
         \<or> r = Some (Inl (ContextualError (CommandFailed (c # a))))
         \<or> (\<exists>err. r = Some (Inl (ContextualError (ExecFailed (c # a) err))))"
  using run_cmd_commands[OF assms] run_cmd_no_kill[OF assms] by auto

lemma do_if_remove_link:
  assumes "do_if b (in_world (remove_link n (traced os) x)) (self, (t, w)) = (r, (self', (t', w')))"
  shows "self' = self"
    and "commands t' = commands t @ (if b then [[''ip'', ''link'', ''del'', x]] else [])"
    and "r = Some (Inr ()) \<or> (b \<and> removal_failed [''ip'', ''link'', ''del'', x] r)"
    and "\<not> b \<longrightarrow> t' = t"
proof -
  show "\<not> b \<longrightarrow> t' = t" using assms by (auto simp: do_if_def ret_def)
  show "self' = self" using assms
    by (auto simp: do_if_def ret_def in_world_def split: if_splits prod.splits)
  show "commands t' = commands t @ (if b then [[''ip'', ''link'', ''del'', x]] else [])"
    and "r = Some (Inr ()) \<or> (b \<and> removal_failed [''ip'', ''link'', ''del'', x] r)"
  proof (atomize (full), cases b)
    case False
    with assms show "commands t' = commands t @ (if b then [[''ip'', ''link'', ''del'', x]] else []) \<and>
       (r = Some (Inr ()) \<or> (b \<and> removal_failed [''ip'', ''link'', ''del'', x] r))"
      by (simp add: do_if_def ret_def)
  next
    case True
    with assms have "run_cmd n (traced os) ''ip'' [''link'', ''del'', x] None None (t, w) = (r, (t', w'))"
      by (auto simp: do_if_def in_world_def remove_link_def split: prod.splits)
    from run_cmd_outcome[OF this] True
    show "commands t' = commands t @ (if b then [[''ip'', ''link'', ''del'', x]] else []) \<and>
       (r = Some (Inr ()) \<or> (b \<and> removal_failed [''ip'', ''link'', ''del'', x] r))"
      by (auto simp: removal_failed_def)
  qed
qed

lemma with_self_apply: "with_self f (self, s) = f self (self, s)"
  by (simp add: with_self_def)

lemma check_conflict_error:
  "check_conflict self tn bn = Inl e \<Longrightarrow>
     e = ContextualError (TunnelNameConflict tn) \<or> e = ContextualError (BridgeNameConflict tn bn)"
  by (auto simp: check_conflict_def split: if_splits)

text \<open>
  Claim C3 as amended. When no endpoint IP of a network is a local address of the
  snapshot, \<^verbatim>\<open>construct_virtual_network\<close> never returns normally and leaves the object as
  it was; the only commands it runs are the removals of the links named as the tunnel and
  the bridge, for those of the two names that are in the snapshot and in that order: no
  link is created, no forwarding entry is added and no registration is changed. If it
  ends with the no-underlay error, both removals due have run; otherwise it ended with a
  name-conflict error, or in a removal that failed or is still being polled. With no
  conflict and neither name in the snapshot, it raises the no-underlay error without
  having run any command.
\<close>

theorem no_underlay_only_removes_links:
  assumes disj: "snd ` set (local_addresses (interfaces self)) \<inter> set (endpoint_ips_of c) = {}"
    and run: "construct_virtual_network fuel (traced os) c (self, (t, w)) = (r, (self', (t', w')))"
  shows "self' = self
     \<and> r \<noteq> Some (Inr ())
     \<and> (\<exists>ds rest. commands t' = commands t @ ds \<and> removals self c = ds @ rest)
     \<and> (r = Some (Inl (ContextualError (NoUnderlay (endpoint_ips_of c)))) \<longrightarrow>
           commands t' = commands t @ removals self c)
     \<and> (r = None
          \<or> r = Some (Inl (ContextualError (NoUnderlay (endpoint_ips_of c))))
          \<or> r = Some (Inl (ContextualError (TunnelNameConflict (tunnel_name_of c))))
          \<or> r = Some (Inl (ContextualError
                   (BridgeNameConflict (tunnel_name_of c) (bridge_name_of c))))
          \<or> (\<exists>argv\<in>set (removals self c). removal_failed argv r))
     \<and> (check_conflict self (tunnel_name_of c) (bridge_name_of c) = Inr ()
          \<and> removals self c = [] \<longrightarrow>
           r = Some (Inl (ContextualError (NoUnderlay (endpoint_ips_of c)))) \<and> t' = t)"
    (is "?A \<and> ?B \<and> ?C \<and> ?D \<and> ?E \<and> ?F")
proof -
  let ?tn = "tunnel_name_of c" and ?bn = "bridge_name_of c" and ?eps = "endpoint_ips_of c"
  let ?b1 = "?tn \<in> fst ` set (interfaces self)" and ?b2 = "?bn \<in> fst ` set (interfaces self)"
  let ?nu = "Some (Inl (ContextualError (NoUnderlay ?eps))) :: (exn + unit) option"
  let ?d1 = "[''ip'', ''link'', ''del'', ?tn]" and ?d2 = "[''ip'', ''link'', ''del'', ?bn]"
  have fu: "find_underlay self ?eps = Inl (ContextualError (NoUnderlay ?eps))"
  proof -
    have "find (\<lambda>p. snd p \<in> set ?eps) (local_addresses (interfaces self)) = None"
      using disj by (force simp: find_None_iff)
    then show ?thesis by (simp add: find_underlay_def scan_interfaces_find)
  qed
  have rem: "removals self c = (if ?b1 then [?d1] else []) @ (if ?b2 then [?d2] else [])"
    by (simp add: removals_def)
  have failed_not: "removal_failed argv r \<Longrightarrow> r \<noteq> ?nu \<and> r \<noteq> Some (Inr ())" for argv
    by (auto simp: removal_failed_def)
  show ?thesis
  proof (cases "check_conflict self ?tn ?bn")
    case (Inl e)
    with run have res: "r = Some (Inl e)" "self' = self" "t' = t"
      by (simp_all add: construct_virtual_network_def seq_def bnd_def with_self_def result_def)
    from check_conflict_error[OF Inl] have e: "e = ContextualError (TunnelNameConflict ?tn)
       \<or> e = ContextualError (BridgeNameConflict ?tn ?bn)" .
    have ?A using res by simp
    moreover have ?B using res by simp
    moreover have ?C using res by simp
    moreover have ?D using res e by auto
    moreover have ?E using res e by auto
    moreover have ?F using Inl by simp
    ultimately show ?thesis by blast
  next
    case (Inr u)
    let ?rest3 = "bnd (with_self (\<lambda>self. result (find_underlay self ?eps)))
       (\<lambda>(device, local_ip_addr).
          seq (in_world (add_new_tunnel fuel (traced os) ?tn ?bn (vxlan_id_of c) device))
         (seq (in_world (connect_endpoints fuel (traced os) ?tn ?eps local_ip_addr))
         (seq (remove_virtual_network fuel (traced os) (network_name_of c))
              (add_virtual_network fuel (traced os) (network_name_of c) ?bn))))"
    let ?rest2 = "seq (with_self (\<lambda>self. do_if (?bn \<in> fst ` set (interfaces self))
                               (in_world (remove_link fuel (traced os) ?bn)))) ?rest3"
    have rest3: "?rest3 (self, s) = (?nu, (self, s))" for s
      by (simp add: bnd_def with_self_def result_def fu)
    from run Inr have sq1: "seq (with_self (\<lambda>self. do_if (?tn \<in> fst ` set (interfaces self))
                               (in_world (remove_link fuel (traced os) ?tn)))) ?rest2 (self, (t, w))
        = (r, (self', (t', w')))"
      by (simp add: construct_virtual_network_def seq_def bnd_def with_self_def result_def)
    show ?thesis
    proof (cases rule: seq_cases[OF sq1])
      case (1 s1)
      obtain self1 t1 w1 where s1: "s1 = (self1, (t1, w1))" by (metis prod.exhaust)
      note a = do_if_remove_link[OF 1(1)[unfolded with_self_apply s1]]
      from a(1) 1(2) s1 have sq2: "?rest2 (self, (t1, w1)) = (r, (self', (t', w')))" by simp
      have c1: "commands t1 = commands t @ (if ?b1 then [?d1] else [])" by (rule a(2))
      show ?thesis
      proof (cases rule: seq_cases[OF sq2])
        case (1 s2)
        obtain self2 t2 w2 where s2: "s2 = (self2, (t2, w2))" by (metis prod.exhaust)
        note b = do_if_remove_link[OF 1(1)[unfolded with_self_apply s2]]
        from 1(2) s2 b(1) rest3[of "(t2, w2)"] have fin: "r = ?nu" "self' = self" "t' = t2"
          by simp_all
        have c2: "commands t' = commands t @ removals self c"
          using c1 b(2) fin(3) rem by simp
        have ?A using fin by simp
        moreover have ?B using fin by simp
        moreover have ?C using c2 by simp
        moreover have ?D using c2 by simp
        moreover have ?E using fin by simp
        moreover have ?F
        proof (intro impI conjI)
          show "r = ?nu" by (rule fin(1))
          assume "check_conflict self ?tn ?bn = Inr () \<and> removals self c = []"
          then have "\<not> ?b1" "\<not> ?b2" using rem by (auto split: if_splits)
          with a(4) b(4) fin(3) show "t' = t" by simp
        qed
        ultimately show ?thesis by blast
      next
        case (2 e)
        note b = do_if_remove_link[OF 2(1)[unfolded with_self_apply]]
        from b(3) 2(2) have bb: "?b2" "removal_failed ?d2 r" by auto
        have c2: "commands t' = commands t @ removals self c"
          using c1 b(2) rem by simp
        have mem: "?d2 \<in> set (removals self c)" using bb(1) rem by simp
        have ?A using b(1) by simp
        moreover have ?B using failed_not[OF bb(2)] by simp
        moreover have ?C using c2 by simp
        moreover have ?D using c2 by simp
        moreover have ?E using mem bb(2) by blast
        moreover have ?F using mem by auto
        ultimately show ?thesis by blast
      next
        case 3
        note b = do_if_remove_link[OF 3(1)[unfolded with_self_apply]]
        from b(3) 3(2) have bb: "?b2" "removal_failed ?d2 r" by auto
        have c2: "commands t' = commands t @ removals self c"
          using c1 b(2) rem by simp
        have mem: "?d2 \<in> set (removals self c)" using bb(1) rem by simp
        have ?A using b(1) by simp
        moreover have ?B using 3(2) by simp
        moreover have ?C using c2 by simp
        moreover have ?D using c2 by simp
        moreover have ?E using 3(2) by simp
        moreover have ?F using mem by auto
        ultimately show ?thesis by blast
      qed
    next
      case (2 e)
      note a = do_if_remove_link[OF 2(1)[unfolded with_self_apply]]
      from a(3) 2(2) have bb: "?b1" "removal_failed ?d1 r" by auto
      have r1: "removals self c = [?d1] @ (if ?b2 then [?d2] else [])" using bb(1) rem by simp
      have c1: "commands t' = commands t @ [?d1]" using a(2) bb(1) by simp
      have mem: "?d1 \<in> set (removals self c)" using r1 by simp
      have ?A using a(1) by simp
      moreover have ?B using failed_not[OF bb(2)] by simp
      moreover have ?C using c1 r1 by blast
      moreover have ?D using failed_not[OF bb(2)] by simp
      moreover have ?E using mem bb(2) by blast
      moreover have ?F using mem by auto
      ultimately show ?thesis by blast
    next
      case 3
      note a = do_if_remove_link[OF 3(1)[unfolded with_self_apply]]
      from a(3) 3(2) have bb: "?b1" by auto
      have r1: "removals self c = [?d1] @ (if ?b2 then [?d2] else [])" using bb(1) rem by simp
      have c1: "commands t' = commands t @ [?d1]" using a(2) bb(1) by simp
      have mem: "?d1 \<in> set (removals self c)" using r1 by simp
      have ?A using a(1) by simp
      moreover have ?B using 3(2) by simp
      moreover have ?C using c1 r1 by blast
      moreover have ?D using 3(2) by simp
      moreover have ?E using 3(2) by simp
      moreover have ?F using mem by auto
      ultimately show ?thesis by blast
    qed
  qed
qed


theorem no_underlay_only_removes_links_witness:
  "snd ` set (local_addresses (interfaces built_blade))
        \<inter> set (endpoint_ips_of fabric0_elsewhere) = {}
   \<and> commands [Spawn [''ip'', ''link'', ''del'', ''fabric0''] None, Wait,
                Spawn [''ip'', ''link'', ''del'', ''br-fabric0''] None, Wait]
       = commands [] @ removals built_blade fabric0_elsewhere"
  using no_underlay_only_removes_links[OF built_disjoint built_run] built_disjoint
  by (simp add: names_of_fabric0_elsewhere)

section \<open>The list of registered networks\<close>

lemma keeps_in_world: "keeps (in_world m)"
  by (simp add: keeps_def in_world_def split: prod.splits)

lemma keeps_result: "keeps (result r)"
  by (simp add: keeps_def result_def)

lemma keeps_ret: "keeps (ret v)"
  by (simp add: keeps_def ret_def)

lemma keeps_do_if: "keeps m \<Longrightarrow> keeps (do_if b m)"
  by (simp add: do_if_def keeps_ret)

lemma keeps_with_self: "(\<And>self. keeps (f self)) \<Longrightarrow> keeps (with_self f)"
  by (simp add: keeps_def with_self_def)

lemma bnd_cases:
  assumes "bnd m f s = (r, s')"
  obtains (finished) v s1 where "m s = (Some (Inr v), s1)" "f v s1 = (r, s')"
    | (raised) e where "m s = (Some (Inl e), s')" "r = Some (Inl e)"
    | (polling) "m s = (None, s')" "r = None"
proof (cases "m s")
  case (Pair r1 s1)
  show ?thesis
  proof (cases r1)
    case None
    with Pair assms polling show ?thesis by (simp add: bnd_def)
  next
    case (Some x)
    show ?thesis
    proof (cases x)
      case (Inl e)
      with Some Pair assms raised show ?thesis by (simp add: bnd_def)
    next
      case (Inr u)
      with Some Pair assms finished show ?thesis by (simp add: bnd_def)
    qed
  qed
qed

lemma bnd_keeps:
  assumes k: "keeps m" and run: "bnd m f (self, w) = (r, (self', w'))"
  shows "(\<exists>v w1. f v (self, w1) = (r, (self', w'))) \<or> (self' = self \<and> (\<forall>v. r \<noteq> Some (Inr v)))"
proof (cases rule: bnd_cases[OF run])
  case (1 v s1)
  from k 1(1) have "fst s1 = self" unfolding keeps_def by (metis fst_conv snd_conv)
  then obtain w1 where "s1 = (self, w1)" by (cases s1) auto
  with 1(2) show ?thesis by blast
next
  case (2 e)
  from k 2(1) have "self' = self" unfolding keeps_def by (metis fst_conv snd_conv)
  with 2(2) show ?thesis by simp
next
  case 3
  from k 3(1) have "self' = self" unfolding keeps_def by (metis fst_conv snd_conv)
  with 3(2) show ?thesis by simp
qed

lemma seq_keeps:
  assumes k: "keeps m" and run: "seq m n (self, w) = (r, (self', w'))"
  shows "(\<exists>w1. n (self, w1) = (r, (self', w'))) \<or> (self' = self \<and> (\<forall>v. r \<noteq> Some (Inr v)))"
  using bnd_keeps[OF k run[unfolded seq_def]] by blast

lemma set_vnets_tail:
  assumes "seq (in_world a) (seq (in_world b) (\<lambda>(self, w). (Some (Inr ()), (g self, w)))) (self, w)
            = (r, (self', w'))"
  shows "(r = Some (Inr ()) \<and> self' = g self) \<or> (r \<noteq> Some (Inr ()) \<and> self' = self)"
proof -
  from seq_keeps[OF keeps_in_world assms] show ?thesis
  proof
    assume "\<exists>w1. seq (in_world b) (\<lambda>(self, w). (Some (Inr ()), (g self, w))) (self, w1) = (r, (self', w'))"
    then obtain w1 where "seq (in_world b) (\<lambda>(self, w). (Some (Inr ()), (g self, w))) (self, w1) = (r, (self', w'))"
      by blast
    from seq_keeps[OF keeps_in_world this] show ?thesis by auto
  qed auto
qed

lemma remove_virtual_network_self:
  assumes "remove_virtual_network fuel os name (self, w) = (r, (self', w'))"
  shows "(r = Some (Inr ()) \<and> self' = self\<lparr>vnets := remove1 name (vnets self)\<rparr>)
         \<or> (r \<noteq> Some (Inr ()) \<and> self' = self)"
proof (cases "name \<in> set (vnets self)")
  case False
  with assms have "r = Some (Inr ())" "self' = self"
    by (simp_all add: remove_virtual_network_def with_self_def ret_def)
  moreover from False have "remove1 name (vnets self) = vnets self" by (simp add: remove1_idem)
  ultimately show ?thesis by simp
next
  case True
  with assms have "seq (in_world (run_cmd fuel os ''virsh'' [''net-destroy'', name] None None))
        (seq (in_world (run_cmd fuel os ''virsh'' [''net-undefine'', name] None None))
             (\<lambda>(self, w). (Some (Inr ()), (self\<lparr>vnets := remove1 name (vnets self)\<rparr>, w)))) (self, w)
       = (r, (self', w'))"
    by (simp add: remove_virtual_network_def with_self_def)
  from set_vnets_tail[OF this] show ?thesis .
qed

lemma add_virtual_network_self:
  assumes "add_virtual_network fuel os name bridge (self, w) = (r, (self', w'))"
  shows "(r = Some (Inr ()) \<and> self' = self\<lparr>vnets := vnets self @ [name]\<rparr>)
         \<or> (r \<noteq> Some (Inr ()) \<and> self' = self)"
proof -
  from seq_keeps[OF keeps_in_world assms[unfolded add_virtual_network_def]] show ?thesis
  proof
    assume "\<exists>w1. seq (in_world (run_cmd fuel os ''virsh'' [''net-start'', name] None None))
        (seq (in_world (run_cmd fuel os ''virsh'' [''net-autostart'', name] None None))
             (\<lambda>(self, w). (Some (Inr ()), (self\<lparr>vnets := vnets self @ [name]\<rparr>, w)))) (self, w1)
       = (r, (self', w'))"
    then obtain w1 where "seq (in_world (run_cmd fuel os ''virsh'' [''net-start'', name] None None))
        (seq (in_world (run_cmd fuel os ''virsh'' [''net-autostart'', name] None None))
             (\<lambda>(self, w). (Some (Inr ()), (self\<lparr>vnets := vnets self @ [name]\<rparr>, w)))) (self, w1)
       = (r, (self', w'))" by blast
    from set_vnets_tail[OF this] show ?thesis .
  qed auto
qed

lemma construct_virtual_network_self:
  assumes "construct_virtual_network fuel os c (self, w) = (r, (self', w'))"
  shows "(r = Some (Inr ()) \<and>
            self' = self\<lparr>vnets := remove1 (network_name_of c) (vnets self) @ [network_name_of c]\<rparr>)
         \<or> (r \<noteq> Some (Inr ()) \<and>
            (self' = self \<or> self' = self\<lparr>vnets := remove1 (network_name_of c) (vnets self)\<rparr>))"
proof -
  let ?nn = "network_name_of c"
  let ?tail = "seq (remove_virtual_network fuel os ?nn)
                 (add_virtual_network fuel os ?nn (bridge_name_of c))"
  have tail: "?tail (self, w1) = (r, (self', w')) \<Longrightarrow> ?thesis" for w1
  proof -
    assume t: "?tail (self, w1) = (r, (self', w'))"
    show ?thesis
    proof (cases rule: seq_cases[OF t])
      case (1 s1)
      obtain self1 w2 where s1: "s1 = (self1, w2)" by (cases s1)
      from remove_virtual_network_self[OF 1(1)[unfolded s1]]
      have self1: "self1 = self\<lparr>vnets := remove1 ?nn (vnets self)\<rparr>" by simp
      from add_virtual_network_self[OF 1(2)[unfolded s1]] self1 show ?thesis by auto
    next
      case (2 e)
      from remove_virtual_network_self[OF 2(1)] 2(2) show ?thesis by auto
    next
      case 3
      from remove_virtual_network_self[OF 3(1)] 3(2) show ?thesis by auto
    qed
  qed
  have k1: "keeps (with_self (\<lambda>self. result (check_conflict self (tunnel_name_of c) (bridge_name_of c)))
        :: (unit, installer \<times> 'a) prog)"
    by (intro keeps_with_self keeps_result)
  have k2: "keeps (with_self (\<lambda>self. do_if (x \<in> fst ` set (interfaces self))
                               (in_world (remove_link fuel os x))))" for x
    by (intro keeps_with_self keeps_do_if keeps_in_world)
  have k3: "keeps (with_self (\<lambda>self. result (find_underlay self (endpoint_ips_of c)))
        :: (string \<times> string, installer \<times> 'a) prog)"
    by (intro keeps_with_self keeps_result)
  note run = assms[unfolded construct_virtual_network_def]
  from seq_keeps[OF k1 run] show ?thesis
  proof
    assume "\<exists>w1. seq (with_self (\<lambda>self. do_if (tunnel_name_of c \<in> fst ` set (interfaces self))
             (in_world (remove_link fuel os (tunnel_name_of c)))))
       (seq (with_self (\<lambda>self. do_if (bridge_name_of c \<in> fst ` set (interfaces self))
             (in_world (remove_link fuel os (bridge_name_of c)))))
       (bnd (with_self (\<lambda>self. result (find_underlay self (endpoint_ips_of c))))
         (\<lambda>(device, local_ip_addr).
            seq (in_world (add_new_tunnel fuel os (tunnel_name_of c) (bridge_name_of c) (vxlan_id_of c) device))
           (seq (in_world (connect_endpoints fuel os (tunnel_name_of c) (endpoint_ips_of c) local_ip_addr))
              ?tail)))) (self, w1) = (r, (self', w'))"
    then obtain w1 where r1: "seq (with_self (\<lambda>self. do_if (tunnel_name_of c \<in> fst ` set (interfaces self))
             (in_world (remove_link fuel os (tunnel_name_of c)))))
       (seq (with_self (\<lambda>self. do_if (bridge_name_of c \<in> fst ` set (interfaces self))
             (in_world (remove_link fuel os (bridge_name_of c)))))
       (bnd (with_self (\<lambda>self. result (find_underlay self (endpoint_ips_of c))))
         (\<lambda>(device, local_ip_addr).
            seq (in_world (add_new_tunnel fuel os (tunnel_name_of c) (bridge_name_of c) (vxlan_id_of c) device))
           (seq (in_world (connect_endpoints fuel os (tunnel_name_of c) (endpoint_ips_of c) local_ip_addr))
              ?tail)))) (self, w1) = (r, (self', w'))" by blast
    from seq_keeps[OF k2 r1] show ?thesis
    proof
      assume "\<exists>w2. seq (with_self (\<lambda>self. do_if (bridge_name_of c \<in> fst ` set (interfaces self))
             (in_world (remove_link fuel os (bridge_name_of c)))))
       (bnd (with_self (\<lambda>self. result (find_underlay self (endpoint_ips_of c))))
         (\<lambda>(device, local_ip_addr).
            seq (in_world (add_new_tunnel fuel os (tunnel_name_of c) (bridge_name_of c) (vxlan_id_of c) device))
           (seq (in_world (connect_endpoints fuel os (tunnel_name_of c) (endpoint_ips_of c) local_ip_addr))
              ?tail))) (self, w2) = (r, (self', w'))"
      then obtain w2 where r2: "seq (with_self (\<lambda>self. do_if (bridge_name_of c \<in> fst ` set (interfaces self))
             (in_world (remove_link fuel os (bridge_name_of c)))))
       (bnd (with_self (\<lambda>self. result (find_underlay self (endpoint_ips_of c))))
         (\<lambda>(device, local_ip_addr).
            seq (in_world (add_new_tunnel fuel os (tunnel_name_of c) (bridge_name_of c) (vxlan_id_of c) device))
           (seq (in_world (connect_endpoints fuel os (tunnel_name_of c) (endpoint_ips_of c) local_ip_addr))
              ?tail))) (self, w2) = (r, (self', w'))" by blast
      from seq_keeps[OF k2 r2] show ?thesis
      proof
        assume "\<exists>w3. bnd (with_self (\<lambda>self. result (find_underlay self (endpoint_ips_of c))))
         (\<lambda>(device, local_ip_addr).
            seq (in_world (add_new_tunnel fuel os (tunnel_name_of c) (bridge_name_of c) (vxlan_id_of c) device))
           (seq (in_world (connect_endpoints fuel os (tunnel_name_of c) (endpoint_ips_of c) local_ip_addr))
              ?tail)) (self, w3) = (r, (self', w'))"
        then obtain w3 where r3: "bnd (with_self (\<lambda>self. result (find_underlay self (endpoint_ips_of c))))
         (\<lambda>(device, local_ip_addr).
            seq (in_world (add_new_tunnel fuel os (tunnel_name_of c) (bridge_name_of c) (vxlan_id_of c) device))
           (seq (in_world (connect_endpoints fuel os (tunnel_name_of c) (endpoint_ips_of c) local_ip_addr))
              ?tail)) (self, w3) = (r, (self', w'))" by blast
        from bnd_keeps[OF k3 r3] show ?thesis
        proof
          assume "\<exists>v w4. (case v of (device, local_ip_addr) \<Rightarrow>
            seq (in_world (add_new_tunnel fuel os (tunnel_name_of c) (bridge_name_of c) (vxlan_id_of c) device))
           (seq (in_world (connect_endpoints fuel os (tunnel_name_of c) (endpoint_ips_of c) local_ip_addr))
              ?tail)) (self, w4) = (r, (self', w'))"
          then obtain d l w4 where r4: "seq (in_world (add_new_tunnel fuel os (tunnel_name_of c) (bridge_name_of c) (vxlan_id_of c) d))
           (seq (in_world (connect_endpoints fuel os (tunnel_name_of c) (endpoint_ips_of c) l))
              ?tail) (self, w4) = (r, (self', w'))" by auto
          from seq_keeps[OF keeps_in_world r4] show ?thesis
          proof
            assume "\<exists>w5. seq (in_world (connect_endpoints fuel os (tunnel_name_of c) (endpoint_ips_of c) l))
              ?tail (self, w5) = (r, (self', w'))"
            then obtain w5 where r5: "seq (in_world (connect_endpoints fuel os (tunnel_name_of c) (endpoint_ips_of c) l))
              ?tail (self, w5) = (r, (self', w'))" by blast
            from seq_keeps[OF keeps_in_world r5] tail show ?thesis by blast
          qed auto
        qed auto
      qed auto
    qed auto
  qed auto
qed


lemma distinct_readd: "distinct v \<Longrightarrow> distinct (remove1 n v @ [n])"
  by (simp add: set_remove1_eq)

lemma count_le_1: "distinct v \<Longrightarrow> count_list v n \<le> Suc 0"
  by (induction v) auto

lemma count_readd: "distinct v \<Longrightarrow> count_list (remove1 n v @ [n]) n = 1"
  by (simp add: count_le_1)

lemma perform_distinct:
  assumes "distinct (vnets self)" and "perform fuel os op (self, w) = (r, (self', w'))"
  shows "distinct (vnets self')"
proof (cases op)
  case (RemoveNetwork name)
  with assms(2) have "remove_virtual_network fuel os name (self, w) = (r, (self', w'))" by simp
  from remove_virtual_network_self[OF this] assms(1) show ?thesis by auto
next
  case (ConstructNetwork c)
  with assms(2) have "construct_virtual_network fuel os c (self, w) = (r, (self', w'))" by simp
  from construct_virtual_network_self[OF this] assms(1) show ?thesis
    by (auto simp: distinct_readd)
qed

lemma for_each_perform_distinct:
  "distinct (vnets self) \<Longrightarrow> for_each (perform fuel os) ops (self, w) = (r, (self', w')) \<Longrightarrow>
   distinct (vnets self')"
proof (induction ops arbitrary: self w)
  case Nil
  then show ?case by (simp add: ret_def)
next
  case (Cons op ops)
  from Cons.prems(2) have sq: "seq (perform fuel os op) (for_each (perform fuel os) ops) (self, w) = (r, (self', w'))"
    by simp
  show ?case
  proof (cases rule: seq_cases[OF sq])
    case (1 s1)
    obtain self1 w1 where s1: "s1 = (self1, w1)" by (cases s1)
    from perform_distinct[OF Cons.prems(1) 1(1)[unfolded s1]] have "distinct (vnets self1)" .
    from Cons.IH[OF this 1(2)[unfolded s1]] show ?thesis .
  next
    case (2 e)
    from perform_distinct[OF Cons.prems(1) 2(1)] show ?thesis .
  next
    case 3
    from perform_distinct[OF Cons.prems(1) 3(1)] show ?thesis .
  qed
qed

text \<open>
  Claim C10. If no name occurs twice in \<^verbatim>\<open>self.vnets\<close>, then none does after any sequence
  of \<^verbatim>\<open>remove_virtual_network\<close> and \<^verbatim>\<open>construct_virtual_network\<close> calls, nor after one
  such call however it ends; and when \<^verbatim>\<open>construct_virtual_network\<close> returns, the list is
  the old one with the network's name removed and then added at the end, so that the
  name occurs in it exactly once.
\<close>

theorem vnets_stay_distinct:
  assumes "distinct (vnets self)"
  shows "distinct (vnets (fst (snd (for_each (perform fuel os) ops (self, w)))))
     \<and> distinct (vnets (fst (snd (remove_virtual_network fuel os name (self, w)))))
     \<and> distinct (vnets (fst (snd (construct_virtual_network fuel os c (self, w)))))
     \<and> (fst (construct_virtual_network fuel os c (self, w)) = Some (Inr ()) \<longrightarrow>
          vnets (fst (snd (construct_virtual_network fuel os c (self, w))))
            = remove1 (network_name_of c) (vnets self) @ [network_name_of c]
          \<and> count_list (vnets (fst (snd (construct_virtual_network fuel os c (self, w)))))
              (network_name_of c) = 1)"
proof -
  obtain r1 self1 w1 where a: "for_each (perform fuel os) ops (self, w) = (r1, (self1, w1))"
    by (metis prod.exhaust)
  obtain r2 self2 w2 where b: "perform fuel os (RemoveNetwork name) (self, w) = (r2, (self2, w2))"
    by (metis prod.exhaust)
  obtain r3 self3 w3 where c: "perform fuel os (ConstructNetwork c) (self, w) = (r3, (self3, w3))"
    by (metis prod.exhaust)
  from c have c': "construct_virtual_network fuel os c (self, w) = (r3, (self3, w3))" by simp
  have "r3 = Some (Inr ()) \<longrightarrow>
          vnets self3 = remove1 (network_name_of c) (vnets self) @ [network_name_of c]
          \<and> count_list (vnets self3) (network_name_of c) = 1"
  proof
    assume "r3 = Some (Inr ())"
    with construct_virtual_network_self[OF c']
    have v: "vnets self3 = remove1 (network_name_of c) (vnets self) @ [network_name_of c]"
      by auto
    show "vnets self3 = remove1 (network_name_of c) (vnets self) @ [network_name_of c]
          \<and> count_list (vnets self3) (network_name_of c) = 1"
      unfolding v using count_readd[OF assms] by blast
  qed
  with for_each_perform_distinct[OF assms a] perform_distinct[OF assms b]
    perform_distinct[OF assms c] a b c count_le_1[OF assms, of "network_name_of c"]
  show ?thesis by simp
qed

lemma names_of_fabric0:
  "network_name_of fabric0 = ''fabric0''"
  "tunnel_name_of fabric0 = ''fabric0''"
  "bridge_name_of fabric0 = ''br-fabric0''"
  "endpoint_ips_of fabric0 = [''10.0.0.1'', ''10.0.0.2'', ''10.0.0.3'']"
  "vxlan_id_of fabric0 = ''42''"
  by (simp_all add: fabric0_def tunnel_name_of_def bridge_name_of_def
        network_name_of_def endpoint_ips_of_def vxlan_id_of_def str_def)

lemma two_nets_run:
  "construct_virtual_network 1 (fixed_os built_if_data [] [] no_config) fabric0 (two_nets_blade, ())
     = (Some (Inr ()), (two_nets_blade\<lparr>vnets := [''default'', ''fabric0'']\<rparr>, ()))"
proof -
  have chk: "check_conflict two_nets_blade ''fabric0'' ''br-fabric0'' = Inr ()"
    by (simp add: check_conflict_def two_nets_blade_def built_blade_def)
  have fu: "find_underlay two_nets_blade [''10.0.0.1'', ''10.0.0.2'', ''10.0.0.3'']
      = Inr (''eth0'', ''10.0.0.2'')"
    by (simp add: find_underlay_def two_nets_blade_def built_blade_def built_if_data_def)
  have ifs: "''fabric0'' \<in> fst ` set (interfaces two_nets_blade)"
    "''br-fabric0'' \<in> fst ` set (interfaces two_nets_blade)"
    by (simp_all add: two_nets_blade_def built_blade_def)
  have rc: "run_cmd (Suc 0) (fixed_os built_if_data [] [] no_config) cmd args None None w = (Some (Inr ()), ())" for cmd args w
    by (simp add: run_cmd_def fixed_os_def)
  have vn: "vnets two_nets_blade = [''default'', ''fabric0'']" by (simp add: two_nets_blade_def)
  have tf: "named_temporary_file (fixed_os built_if_data [] [] no_config) doc w = (''/tmp/tmpfile'', w)"
    "close_temporary_file (fixed_os built_if_data [] [] no_config) f w = w" for doc f w
    by (simp_all add: fixed_os_def)
  show ?thesis
    by (simp add: construct_virtual_network_def names_of_fabric0 chk fu ifs rc vn tf
          seq_def bnd_def with_self_def result_def do_if_def in_world_def remove_link_def
          add_new_tunnel_def connect_endpoints_def remove_virtual_network_def
          add_virtual_network_def with_temporary_file_def ret_def)
qed

theorem vnets_stay_distinct_witness:
  "distinct (vnets two_nets_blade)
   \<and> fst (construct_virtual_network 1 (fixed_os built_if_data [] [] no_config) fabric0
            (two_nets_blade, ())) = Some (Inr ())
   \<and> count_list (vnets (fst (snd (construct_virtual_network 1
            (fixed_os built_if_data [] [] no_config) fabric0 (two_nets_blade, ())))))
        ''fabric0'' = 1"
proof -
  have d: "distinct (vnets two_nets_blade)" by (simp add: two_nets_blade_def)
  from vnets_stay_distinct[OF d, of 1 "fixed_os built_if_data [] [] no_config" "[]" "()" "''default''" fabric0]
    two_nets_run d
  show ?thesis by (simp add: names_of_fabric0)
qed

section \<open>The state reader\<close>

lemma index_interfaces_result:
  "index_interfaces xs acc = Inr r \<Longrightarrow>
     (\<forall>i\<in>set xs. ifname i \<noteq> None) \<and> fst ` set r = fst ` set acc \<union> {n. Some n \<in> ifname ` set xs}"
proof (induction xs arbitrary: acc)
  case Nil
  then show ?case by simp
next
  case (Cons i xs)
  from Cons.prems obtain n where n: "ifname i = Some n"
    and rest: "index_interfaces xs (AList.update n i acc) = Inr r"
    by (auto split: option.splits)
  from Cons.IH[OF rest] n show ?case
    by (auto simp: AList.dom_update)
qed

lemma index_interfaces_error:
  "index_interfaces xs acc = Inl e \<Longrightarrow> e = KeyError ''ifname'' \<and> (\<exists>i\<in>set xs. ifname i = None)"
  by (induction xs arbitrary: acc) (auto split: option.splits)

lemma fold_dsts_result:
  "fold_dsts ds ifs = Inr r \<Longrightarrow>
     (\<forall>e\<in>set ds. fdb_dst e \<noteq> None \<longrightarrow> (\<exists>n. fdb_ifname e = Some n \<and> n \<in> fst ` set ifs))"
proof (induction ds arbitrary: ifs)
  case Nil
  then show ?case by simp
next
  case (Cons d ds)
  show ?case
  proof (cases "fdb_dst d")
    case None
    with Cons.prems have "fold_dsts ds ifs = Inr r" by simp
    from Cons.IH[OF this] None show ?thesis by simp
  next
    case (Some x)
    with Cons.prems obtain n i where n: "fdb_ifname d = Some n" "map_of ifs n = Some i"
      and rest: "fold_dsts ds (AList.update n
           (i\<lparr>fdb_dsts := Some (case fdb_dsts i of None \<Rightarrow> [x] | Some ds \<Rightarrow> ds @ [x])\<rparr>) ifs) = Inr r"
      by (auto split: option.splits)
    from n(2) have mem: "n \<in> fst ` set ifs" by (metis map_of_eq_None_iff option.distinct(1))
    then have keys: "fst ` set (AList.update n
           (i\<lparr>fdb_dsts := Some (case fdb_dsts i of None \<Rightarrow> [x] | Some ds \<Rightarrow> ds @ [x])\<rparr>) ifs) = fst ` set ifs"
      by (auto simp: AList.dom_update)
    from Cons.IH[OF rest] keys n mem show ?thesis by auto
  qed
qed

lemma fold_dsts_error:
  "fold_dsts ds ifs = Inl e \<Longrightarrow>
     (\<exists>k. e = KeyError k) \<and>
     (\<exists>d\<in>set ds. fdb_dst d \<noteq> None \<and> (\<forall>n. fdb_ifname d = Some n \<longrightarrow> n \<notin> fst ` set ifs))"
proof (induction ds arbitrary: ifs)
  case Nil
  then show ?case by simp
next
  case (Cons d ds)
  show ?case
  proof (cases "fdb_dst d")
    case None
    with Cons.prems have "fold_dsts ds ifs = Inl e" by simp
    from Cons.IH[OF this] show ?thesis by auto
  next
    case (Some x)
    show ?thesis
    proof (cases "fdb_ifname d")
      case None
      with Some Cons.prems show ?thesis by auto
    next
      case (Some n)
      show ?thesis
      proof (cases "map_of ifs n")
        case None
        then have "n \<notin> fst ` set ifs" by (simp add: map_of_eq_None_iff)
        with None Some \<open>fdb_dst d = Some x\<close> Cons.prems show ?thesis by auto
      next
        case (Some i)
        then have mem: "n \<in> fst ` set ifs" by (metis map_of_eq_None_iff option.distinct(1))
        then have keys: "fst ` set (AList.update n
           (i\<lparr>fdb_dsts := Some (case fdb_dsts i of None \<Rightarrow> [x] | Some ds \<Rightarrow> ds @ [x])\<rparr>) ifs) = fst ` set ifs"
          by (auto simp: AList.dom_update)
        from Some \<open>fdb_ifname d = Some n\<close> \<open>fdb_dst d = Some x\<close> Cons.prems
        have "fold_dsts ds (AList.update n
           (i\<lparr>fdb_dsts := Some (case fdb_dsts i of None \<Rightarrow> [x] | Some ds \<Rightarrow> ds @ [x])\<rparr>) ifs) = Inl e"
          by simp
        from Cons.IH[OF this] keys show ?thesis by auto
      qed
    qed
  qed
qed

lemma get_interfaces_parsed:
  assumes "ip_addr os w = Parsed if_data" and "bridge_fdb os w = Parsed fdb_data"
  shows "(\<exists>ifs. get_interfaces os w = Inr ifs) = listing_ok if_data fdb_data"
    and "get_interfaces os w = Inl e \<Longrightarrow> \<exists>k. e = KeyError k"
proof -
  let ?ds = "filter (\<lambda>e. fdb_dst e \<noteq> None) fdb_data"
  show "(\<exists>ifs. get_interfaces os w = Inr ifs) = listing_ok if_data fdb_data"
  proof (cases "index_interfaces if_data []")
    case (Inl e)
    from index_interfaces_error[OF Inl] have "\<not> listing_ok if_data fdb_data"
      by (auto simp: listing_ok_def)
    with Inl assms show ?thesis by (simp add: get_interfaces_def)
  next
    case (Inr ifs)
    from index_interfaces_result[OF Inr]
    have names: "\<forall>i\<in>set if_data. ifname i \<noteq> None" and keys: "fst ` set ifs = {n. Some n \<in> ifname ` set if_data}"
      by auto
    have gi: "get_interfaces os w = fold_dsts ?ds ifs"
      using assms Inr by (simp add: get_interfaces_def)
    show ?thesis
    proof (cases "fold_dsts ?ds ifs")
      case (Inl e)
      from fold_dsts_error[OF Inl] obtain d where d: "d \<in> set fdb_data" "fdb_dst d \<noteq> None"
          "\<forall>n. fdb_ifname d = Some n \<longrightarrow> n \<notin> fst ` set ifs" by auto
      have "\<not> (case fdb_ifname d of None \<Rightarrow> False | Some n \<Rightarrow> Some n \<in> ifname ` set if_data)"
        using d(3) keys by (cases "fdb_ifname d") auto
      with d(1,2) have "\<not> listing_ok if_data fdb_data"
        unfolding listing_ok_def by blast
      with Inl gi show ?thesis by simp
    next
      case (Inr r)
      have "case fdb_ifname e of None \<Rightarrow> False | Some n \<Rightarrow> Some n \<in> ifname ` set if_data"
        if "e \<in> set fdb_data" "fdb_dst e \<noteq> None" for e
      proof -
        from that have "e \<in> set ?ds" by simp
        with that(2) fold_dsts_result[OF Inr] obtain n where "fdb_ifname e = Some n" "n \<in> fst ` set ifs"
          by blast
        with keys show ?thesis by simp
      qed
      with names have "listing_ok if_data fdb_data"
        unfolding listing_ok_def by blast
      with Inr gi show ?thesis by simp
    qed
  qed
  show "get_interfaces os w = Inl e \<Longrightarrow> \<exists>k. e = KeyError k"
    using assms index_interfaces_error fold_dsts_error
    by (auto simp: get_interfaces_def split: sum.splits)
qed


lemma entrypoint_passes:
  assumes "main_func argv w0 = (Some (Inl e), w1)"
    and "e = JSONDecodeError \<or> (\<exists>k. e = KeyError k)"
  shows "entrypoint usage_msg main_func argv w0 = (Uncaught e, w1)"
  using assms by (auto simp: entrypoint_def)

lemma get_interfaces_not_json:
  "ip_addr os w = NotJson \<or> (ip_addr os w = Parsed if_data \<and> bridge_fdb os w = NotJson) \<Longrightarrow>
   get_interfaces os w = Inl JSONDecodeError"
  by (auto simp: get_interfaces_def)

lemma NetworkInstaller_discovery_error:
  "get_interfaces os w = Inl e \<Longrightarrow> NetworkInstaller os w = (Some (Inl e), w)"
  by (simp add: NetworkInstaller_def)

lemma select_kind_returns:
  "(\<exists>r. select_kind k ifs = Inr r) = (\<forall>p\<in>set ifs. kind_readable (snd p))"
  by (induction ifs) (auto simp: kind_readable_def split: option.splits sum.splits)

lemma select_kind_error:
  "select_kind k ifs = Inl e \<Longrightarrow> e = KeyError ''info_kind''"
  by (induction ifs) (auto split: option.splits sum.splits)

lemma indexed_Cons:
  "indexed (i # xs) n =
     (case indexed xs n of None \<Rightarrow> (if ifname i = Some n then Some i else None) | Some j \<Rightarrow> Some j)"
  by (simp add: indexed_def find_app split: option.splits)

lemma index_interfaces_map_of:
  "index_interfaces xs acc = Inr r \<Longrightarrow>
   map_of r n = (case indexed xs n of None \<Rightarrow> map_of acc n | Some i \<Rightarrow> Some i)"
proof (induction xs arbitrary: acc)
  case Nil
  then show ?case by (simp add: indexed_def)
next
  case (Cons i xs)
  from Cons.prems obtain m where m: "ifname i = Some m"
    and rest: "index_interfaces xs (AList.update m i acc) = Inr r"
    by (auto split: option.splits)
  from Cons.IH[OF rest] m show ?case
    by (auto simp: indexed_Cons update_conv' split: option.splits)
qed

lemma fold_dsts_linkinfo:
  "fold_dsts ds ifs = Inr r \<Longrightarrow>
   map_option linkinfo (map_of r n) = map_option linkinfo (map_of ifs n)"
proof (induction ds arbitrary: ifs)
  case Nil
  then show ?case by simp
next
  case (Cons d ds)
  show ?case
  proof (cases "fdb_dst d")
    case None
    with Cons show ?thesis by simp
  next
    case (Some x)
    with Cons.prems obtain m i where m: "fdb_ifname d = Some m" "map_of ifs m = Some i"
      and rest: "fold_dsts ds (AList.update m
           (i\<lparr>fdb_dsts := Some (case fdb_dsts i of None \<Rightarrow> [x] | Some ds \<Rightarrow> ds @ [x])\<rparr>) ifs) = Inr r"
      by (auto split: option.splits)
    from Cons.IH[OF rest] m(2) show ?thesis
      by (simp add: update_conv')
  qed
qed

lemma find_member: "find P xs = Some x \<Longrightarrow> x \<in> set xs \<and> P x"
  by (induction xs) (auto split: if_splits)

lemma indexed_member:
  "indexed xs n = Some i \<Longrightarrow> i \<in> set xs \<and> ifname i = Some n"
  unfolding indexed_def using find_member[of "\<lambda>i. ifname i = Some n" "rev xs" i] by simp

lemma kinds_ok_indexed:
  "kinds_ok xs = (\<forall>n i. indexed xs n = Some i \<longrightarrow> kind_readable i)"
proof
  assume k: "kinds_ok xs"
  show "\<forall>n i. indexed xs n = Some i \<longrightarrow> kind_readable i"
  proof (intro allI impI)
    fix n i assume a: "indexed xs n = Some i"
    from indexed_member[OF a] have "i \<in> set xs" "ifname i = Some n" by auto
    with k a show "kind_readable i" unfolding kinds_ok_def by fastforce
  qed
next
  assume "\<forall>n i. indexed xs n = Some i \<longrightarrow> kind_readable i"
  then show "kinds_ok xs" unfolding kinds_ok_def by (auto split: option.splits)
qed

lemma snapshot_kinds:
  assumes ix: "index_interfaces if_data [] = Inr ifs0"
    and fd: "fold_dsts ds ifs0 = Inr ifs"
  shows "(\<forall>p\<in>set ifs. kind_readable (snd p)) = kinds_ok if_data"
proof -
  have d: "distinct (map fst ifs)"
    using index_interfaces_distinct[OF _ ix] fold_dsts_distinct[OF _ fd] by simp
  have li: "map_option linkinfo (map_of ifs n) = map_option linkinfo (indexed if_data n)" for n
    using fold_dsts_linkinfo[OF fd, of n] index_interfaces_map_of[OF ix, of n]
    by (simp split: option.splits)
  have kr: "(\<forall>j. map_of ifs n = Some j \<longrightarrow> kind_readable j)
      = (\<forall>i. indexed if_data n = Some i \<longrightarrow> kind_readable i)" for n
    using li[of n] by (cases "map_of ifs n"; cases "indexed if_data n") (auto simp: kind_readable_def)
  have "(\<forall>p\<in>set ifs. kind_readable (snd p)) = (\<forall>n j. map_of ifs n = Some j \<longrightarrow> kind_readable j)"
    using d by (auto simp: map_of_eq_Some_iff)
  also have "\<dots> = (\<forall>n i. indexed if_data n = Some i \<longrightarrow> kind_readable i)"
    using kr by simp
  finally show ?thesis by (simp add: kinds_ok_indexed)
qed


lemma get_interfaces_steps:
  assumes "ip_addr os w = Parsed if_data" and "bridge_fdb os w = Parsed fdb_data"
    and "get_interfaces os w = Inr ifs"
  obtains ifs0 where "index_interfaces if_data [] = Inr ifs0"
    and "fold_dsts (filter (\<lambda>e. fdb_dst e \<noteq> None) fdb_data) ifs0 = Inr ifs"
  using assms by (auto simp: get_interfaces_def split: sum.splits)

lemma NetworkInstaller_returns: "\<exists>r. NetworkInstaller os w = (Some r, w)"
  by (simp add: NetworkInstaller_def split: sum.splits)

lemma NetworkInstaller_parsed:
  assumes ip: "ip_addr os w = Parsed if_data" and fdb: "bridge_fdb os w = Parsed fdb_data"
    and virsh: "virsh_net_list os w = Inr net_lines"
  shows "(\<exists>self. fst (NetworkInstaller os w) = Some (Inr self))
           = (listing_ok if_data fdb_data \<and> kinds_ok if_data)"
    and "fst (NetworkInstaller os w) = Some (Inl e) \<Longrightarrow> \<exists>k. e = KeyError k"
proof -
  have vn: "get_virtual_networks os w = Inr (filter (\<lambda>l. l \<noteq> []) (map butlast net_lines))"
    using virsh by (simp add: get_virtual_networks_def)
  show "(\<exists>self. fst (NetworkInstaller os w) = Some (Inr self))
           = (listing_ok if_data fdb_data \<and> kinds_ok if_data)"
  proof (cases "get_interfaces os w")
    case (Inl e')
    with get_interfaces_parsed(1)[OF ip fdb] have "\<not> listing_ok if_data fdb_data" by simp
    with Inl show ?thesis by (simp add: NetworkInstaller_def)
  next
    case (Inr ifs)
    with get_interfaces_parsed(1)[OF ip fdb] have ok: "listing_ok if_data fdb_data" by simp
    from get_interfaces_steps[OF ip fdb Inr] obtain ifs0
      where ix: "index_interfaces if_data [] = Inr ifs0"
        and fd: "fold_dsts (filter (\<lambda>e. fdb_dst e \<noteq> None) fdb_data) ifs0 = Inr ifs"
      by blast
    note k = snapshot_kinds[OF ix fd]
    show ?thesis
    proof (cases "kinds_ok if_data")
      case True
      with k select_kind_returns[of "''vxlan''" ifs] select_kind_returns[of "''bridge''" ifs]
      obtain vx br where "select_kind ''vxlan'' ifs = Inr vx" "select_kind ''bridge'' ifs = Inr br"
        by auto
      with Inr vn True ok show ?thesis by (simp add: NetworkInstaller_def)
    next
      case False
      with k select_kind_returns[of "''vxlan''" ifs]
      obtain e' where "select_kind ''vxlan'' ifs = Inl e'"
        by (cases "select_kind ''vxlan'' ifs") auto
      with Inr False show ?thesis by (simp add: NetworkInstaller_def)
    qed
  qed
  show "\<exists>k. e = KeyError k" if h: "fst (NetworkInstaller os w) = Some (Inl e)"
  proof (cases "get_interfaces os w")
    case (Inl e')
    with h have "e = e'" by (simp add: NetworkInstaller_def)
    with Inl get_interfaces_parsed(2)[OF ip fdb] show ?thesis by simp
  next
    case (Inr ifs)
    show ?thesis
    proof (cases "select_kind ''vxlan'' ifs")
      case (Inl e1)
      with Inr h have "e = e1" by (simp add: NetworkInstaller_def)
      with select_kind_error[OF Inl] show ?thesis by simp
    next
      case vx: (Inr vx)
      show ?thesis
      proof (cases "select_kind ''bridge'' ifs")
        case (Inl e2)
        with Inr vx h have "e = e2" by (simp add: NetworkInstaller_def)
        with select_kind_error[OF Inl] show ?thesis by simp
      next
        case br: (Inr br)
        with Inr vx vn h show ?thesis by (simp add: NetworkInstaller_def)
      qed
    qed
  qed
qed

lemma NetworkInstaller_not_json:
  assumes "ip_addr os w = NotJson \<or> (ip_addr os w = Parsed if_data \<and> bridge_fdb os w = NotJson)"
  shows "NetworkInstaller os w = (Some (Inl JSONDecodeError), w)"
  using get_interfaces_not_json[OF assms] by (simp add: NetworkInstaller_def)

lemma main_reader_raised:
  assumes cfg: "load_config os config_file w0 = Inr cfg"
    and pk: "setup_packages fuel os (case cfg_packages cfg of None \<Rightarrow> [] | Some p \<Rightarrow> p)
                  (cfg_blade_class cfg) w0 = (Some (Inr ()), w)"
    and snap: "fst (NetworkInstaller os w) = Some (Inl e)"
  shows "main fuel os (config_file # args) w0 = (Some (Inl e), w)"
proof -
  have rc: "read_config os config_file w0 = (Some (Inr cfg), w0)"
    using cfg by (simp add: read_config_def)
  from snap NetworkInstaller_returns[of os w]
  have ni: "NetworkInstaller os w = (Some (Inl e), w)"
    by auto
  show ?thesis
    by (simp add: main_def bnd_def seq_def rc pk ni Let_def)
qed

text \<open>
  Claim C7 as amended. The state reader is the constructor: it reads the two listings,
  sorts the interfaces by kind and reads the list of libvirt networks. When its three tools
  have run, it returns exactly when both listings are valid JSON, every interface has a
  name, every forwarding entry with a destination names a listed interface, and every
  interface the dictionary keeps (of several with one name the last) has either no link
  information or a kind in it. In every other case it raises \<^verbatim>\<open>JSONDecodeError\<close> or
  \<^verbatim>\<open>KeyError\<close>, never an error of the script's own, and it leaves the world as it was.
  A \<^verbatim>\<open>main\<close> that raises such an exception is not turned into an exit with an error
  message by \<^verbatim>\<open>entrypoint\<close>: the exception passes to the caller of \<^verbatim>\<open>entrypoint\<close>, as its
  docstring says of every exception that is not one of the script's own; and the script's
  \<^verbatim>\<open>main\<close> raises it whenever its package set-up has returned and the reader raises.
\<close>

theorem reader_failures_pass_unclassified:
  assumes ip: "ip_addr os w = Parsed if_data \<or> ip_addr os w = NotJson"
      and fdb: "bridge_fdb os w = Parsed fdb_data \<or> bridge_fdb os w = NotJson"
      and virsh: "virsh_net_list os w = Inr net_lines"
  shows "((\<exists>self. fst (NetworkInstaller os w) = Some (Inr self)) =
            (ip_addr os w = Parsed if_data \<and> bridge_fdb os w = Parsed fdb_data
             \<and> listing_ok if_data fdb_data \<and> kinds_ok if_data))
     \<and> (\<exists>r. NetworkInstaller os w = (Some r, w))
     \<and> (\<forall>e. fst (NetworkInstaller os w) = Some (Inl e) \<longrightarrow>
            (e = JSONDecodeError \<or> (\<exists>k. e = KeyError k))
            \<and> (\<forall>usage_msg main_func argv w0 w1.
                  main_func argv w0 = (Some (Inl e), w1) \<longrightarrow>
                  entrypoint usage_msg main_func argv (w0 :: 'b) = (Uncaught e, w1))
            \<and> (\<forall>fuel usage_msg config_file args cfg w0.
                  load_config os config_file w0 = Inr cfg
                  \<and> setup_packages fuel os (case cfg_packages cfg of None \<Rightarrow> [] | Some p \<Rightarrow> p)
                       (cfg_blade_class cfg) w0 = (Some (Inr ()), w) \<longrightarrow>
                  entrypoint usage_msg (main fuel os) (config_file # args) w0 = (Uncaught e, w)))"
    (is "?succ \<and> ?ret \<and> ?fail")
proof -
  have kinds: "e = JSONDecodeError \<or> (\<exists>k. e = KeyError k)"
    if "fst (NetworkInstaller os w) = Some (Inl e)" for e
  proof (cases "ip_addr os w = Parsed if_data \<and> bridge_fdb os w = Parsed fdb_data")
    case True
    with NetworkInstaller_parsed(2)[of os w if_data fdb_data net_lines e] virsh that
    show ?thesis by blast
  next
    case False
    with ip fdb have "ip_addr os w = NotJson \<or> (ip_addr os w = Parsed if_data \<and> bridge_fdb os w = NotJson)"
      by blast
    from NetworkInstaller_not_json[OF this] that show ?thesis by simp
  qed
  have ?succ
  proof (cases "ip_addr os w = Parsed if_data \<and> bridge_fdb os w = Parsed fdb_data")
    case True
    with NetworkInstaller_parsed(1)[of os w if_data fdb_data net_lines] virsh
    show ?thesis by blast
  next
    case False
    with ip fdb have "ip_addr os w = NotJson \<or> (ip_addr os w = Parsed if_data \<and> bridge_fdb os w = NotJson)"
      by blast
    from NetworkInstaller_not_json[OF this]
    have "\<not> (\<exists>self. fst (NetworkInstaller os w) = Some (Inr self))" by simp
    with False show ?thesis by blast
  qed
  moreover have ?ret by (rule NetworkInstaller_returns)
  moreover have ?fail
  proof (intro allI impI conjI; (elim conjE)?)
    fix e assume "fst (NetworkInstaller os w) = Some (Inl e)"
    then show "e = JSONDecodeError \<or> (\<exists>k. e = KeyError k)" by (rule kinds)
  next
    fix e usage_msg and main_func :: "string list \<Rightarrow> (unit, 'b) prog" and argv w0 w1
    assume "fst (NetworkInstaller os w) = Some (Inl e)" and "main_func argv w0 = (Some (Inl e), w1)"
    with kinds show "entrypoint usage_msg main_func argv w0 = (Uncaught e, w1)"
      by (intro entrypoint_passes) auto
  next
    fix e fuel usage_msg config_file args cfg w0
    assume r: "fst (NetworkInstaller os w) = Some (Inl e)"
      and cfg: "load_config os config_file w0 = Inr cfg"
      and pk: "setup_packages fuel os (case cfg_packages cfg of None \<Rightarrow> [] | Some p \<Rightarrow> p)
                       (cfg_blade_class cfg) w0 = (Some (Inr ()), w)"
    from main_reader_raised[OF cfg pk r]
    have "main fuel os (config_file # args) w0 = (Some (Inl e), w)" .
    with kinds[OF r] show "entrypoint usage_msg (main fuel os) (config_file # args) w0 = (Uncaught e, w)"
      by (intro entrypoint_passes) auto
  qed
  ultimately show ?thesis by (intro conjI)
qed

lemma no_config_fields:
  "cfg_networks no_config = None" "cfg_packages no_config = None"
  "cfg_blade_class no_config = None"
  by (simp_all add: no_config_def)

lemma stray_get_interfaces:
  "get_interfaces (fixed_os plain_if_data stray_fdb_data [] no_config) () = Inl (KeyError ''vx9'')"
  by (simp add: get_interfaces_def fixed_os_def plain_if_data_def stray_fdb_data_def)

lemma fixed_os_run_cmd:
  "run_cmd (Suc n) (fixed_os a b c d) cmd args si None w = (Some (Inr ()), ())"
  by (simp add: run_cmd_def fixed_os_def)

lemma stray_main:
  "main 1 (fixed_os plain_if_data stray_fdb_data [] no_config) [''config.yaml''] ()
     = (Some (Inl (KeyError ''vx9'')), ())"
proof -
  have rc: "read_config (fixed_os plain_if_data stray_fdb_data [] no_config) ''config.yaml'' ()
      = (Some (Inr no_config), ())"
    by (simp add: read_config_def fixed_os_def)
  have sp: "setup_packages (Suc 0) (fixed_os plain_if_data stray_fdb_data [] no_config) [] None ()
      = (Some (Inr ()), ())"
    by (simp add: setup_packages_def prepare_package_installer_def preconfigure_packages_def
          install_packages_def disable_services_def enable_services_def list_from_packages_def
          seq_def bnd_def ret_def fixed_os_run_cmd)
  have nc: "cfg_networks no_config = None" "cfg_packages no_config = None"
    "cfg_blade_class no_config = None"
    by (simp_all add: no_config_def)
  show ?thesis
    by (simp add: main_def bnd_def seq_def rc sp nc
          NetworkInstaller_discovery_error[OF stray_get_interfaces])
qed

text \<open>
  Claim C7 says that malformed output of a listing makes the state reader fail with a
  discovery error of its own rather than escape with an unclassified one. With a
  forwarding entry on a device that the interface listing does not have,
  \<^verbatim>\<open>_get_interfaces\<close> raises \<^verbatim>\<open>KeyError\<close>, and the whole run ends with that exception passing
  through \<^verbatim>\<open>entrypoint\<close>.
\<close>

theorem malformed_listing_escapes_counterexample:
  "get_interfaces (fixed_os plain_if_data stray_fdb_data [] no_config) () = Inl (KeyError ''vx9'')
   \<and> entrypoint ''usage'' (main 1 (fixed_os plain_if_data stray_fdb_data [] no_config))
        [''config.yaml''] () = (Uncaught (KeyError ''vx9''), ())"
  using stray_get_interfaces stray_main by (simp add: entrypoint_def)

lemma port_snapshot:
  "NetworkInstaller (fixed_os port_if_data [] [] no_config) ()
     = (Some (Inl (KeyError ''info_kind'')), ())"
  by (simp add: NetworkInstaller_def get_interfaces_def fixed_os_def port_if_data_def)

theorem reader_failures_pass_unclassified_witness:
  "listing_ok port_if_data []
   \<and> \<not> kinds_ok port_if_data
   \<and> NetworkInstaller (fixed_os port_if_data [] [] no_config) ()
       = (Some (Inl (KeyError ''info_kind'')), ())
   \<and> entrypoint ''usage'' (main 1 (fixed_os port_if_data [] [] no_config)) [''config.yaml''] ()
       = (Uncaught (KeyError ''info_kind''), ())"
proof -
  let ?os = "fixed_os port_if_data [] [] no_config"
  have a: "ip_addr ?os () = Parsed port_if_data"
    and b: "bridge_fdb ?os () = Parsed []"
    and c: "virsh_net_list ?os () = Inr []"
    and cfg: "load_config ?os ''config.yaml'' () = Inr no_config"
    by (simp_all add: fixed_os_def)
  have sp: "setup_packages 1 ?os (case cfg_packages no_config of None \<Rightarrow> [] | Some p \<Rightarrow> p)
      (cfg_blade_class no_config) () = (Some (Inr ()), ())"
    by (simp add: setup_packages_def prepare_package_installer_def preconfigure_packages_def
          install_packages_def disable_services_def enable_services_def list_from_packages_def
          seq_def bnd_def ret_def fixed_os_run_cmd no_config_fields)
  have ok: "listing_ok port_if_data []"
    by (simp add: listing_ok_def port_if_data_def)
  have r: "fst (NetworkInstaller ?os ()) = Some (Inl (KeyError ''info_kind''))"
    by (simp add: port_snapshot)
  note th = reader_failures_pass_unclassified[OF disjI1[OF a] disjI1[OF b] c]
  from th[THEN conjunct1] a b ok r have "\<not> kinds_ok port_if_data" by simp
  moreover note th[THEN conjunct2, THEN conjunct2, THEN spec, THEN mp, OF r,
      THEN conjunct2, THEN conjunct2, THEN spec, THEN spec, THEN spec, THEN spec, THEN spec,
      THEN spec, THEN mp, OF conjI[OF cfg sp], of "''usage''" "[]"]
  ultimately show ?thesis using ok port_snapshot by simp
qed

section \<open>The network part of \<^verbatim>\<open>main\<close>\<close>





lemma in_world_run:
  assumes "in_world m (self, s) = (r, (self', s'))"
  shows "self' = self" and "m s = (r, s')"
  using assms by (auto simp: in_world_def split: prod.splits)

























section \<open>Two passes on a Linux host\<close>

lemma exec_simps:
  "exec [''ip'', ''link'', ''del'', n] h = ip_link_del n h"
  "exec [''ip'', ''link'', ''add'', t, ''type'', ''vxlan'', ''id'', v, ''dev'', d, ''dstport'', ''0''] h
     = ip_link_add_vxlan t v d h"
  "exec [''ip'', ''link'', ''add'', b, ''type'', ''bridge''] h = ip_link_add_bridge b h"
  "exec [''ip'', ''link'', ''set'', t, ''master'', b] h = ip_link_set_master t b h"
  "exec [''bridge'', ''fdb'', ''append'', ''to'', ''00:00:00:00:00:00'', ''dst'', ip, ''dev'', t] h
     = bridge_fdb_append ip t h"
  "exec [''virsh'', ''net-define'', f] h = virsh_net_define f h"
  "exec [''virsh'', ''net-start'', n] h = virsh_net_start n h"
  "exec [''virsh'', ''net-autostart'', n] h = virsh_net_autostart n h"
  "exec [''virsh'', ''net-destroy'', n] h = virsh_net_destroy n h"
  "exec [''virsh'', ''net-undefine'', n] h = virsh_net_undefine n h"
  by (simp_all add: exec_def)

lemma linux_sel:
  "popen linux argv si h = (case exec argv h of (st, h') \<Rightarrow> (None, h'\<lparr>child := Some st\<rparr>))"
  "wait linux h = (child h, h)"
  "named_temporary_file linux doc h
     = (''/tmp/tmpfile'', h\<lparr>tmpfiles := (''/tmp/tmpfile'', doc) # tmpfiles h\<rparr>)"
  "close_temporary_file linux f h = h\<lparr>tmpfiles := filter (\<lambda>p. fst p \<noteq> f) (tmpfiles h)\<rparr>"
  "ip_addr linux h = Parsed (map iface_of (links h))"
  "bridge_fdb linux h = Parsed (concat (map fdb_of (links h)))"
  "virsh_net_list linux h
     = Inr (map (\<lambda>p. fst p @ [CHR 0x0A]) (filter (\<lambda>p. active (snd p)) (libvirt_nets h))
            @ [[CHR 0x0A]])"
  by (simp_all add: linux_def)

lemma run_cmd_linux:
  assumes "run_cmd fuel linux c a si None h = (Some (Inr ()), h')"
  shows "\<exists>h1. exec (c # a) h = (0, h1) \<and> h' = h1\<lparr>child := Some 0\<rparr>"
proof (cases fuel)
  case 0
  with assms show ?thesis
    by (simp add: run_cmd_def linux_sel split: prod.splits)
next
  case (Suc n)
  obtain st h1 where e: "exec (c # a) h = (st, h1)" by (cases "exec (c # a) h")
  with assms Suc show ?thesis
    by (simp add: run_cmd_def linux_sel split: if_splits)
qed


lemma seq_success:
  assumes "seq m k s = (Some (Inr v), s')"
  shows "\<exists>s1. m s = (Some (Inr ()), s1) \<and> k s1 = (Some (Inr v), s')"
  using assms by (cases rule: seq_cases) auto

lemma bnd_success:
  assumes "bnd m f s = (Some (Inr v), s')"
  shows "\<exists>x s1. m s = (Some (Inr x), s1) \<and> f x s1 = (Some (Inr v), s')"
  using assms by (cases rule: bnd_cases) auto

lemma map_other_key:
  "n \<notin> fst ` set ls \<Longrightarrow> map (\<lambda>p. if fst p = n then f p else p) ls = ls"
  by (induction ls) auto

lemma remove_link_linux:
  assumes "remove_link fuel linux n h = (Some (Inr ()), h')"
  shows "n \<in> fst ` set (links h)" and "links h' = del_link n (links h)"
    and "libvirt_nets h' = libvirt_nets h"
proof -
  from run_cmd_linux[OF assms[unfolded remove_link_def]]
  obtain h1 where "ip_link_del n h = (0, h1)" "h' = h1\<lparr>child := Some 0\<rparr>"
    by (auto simp: exec_simps)
  then show "n \<in> fst ` set (links h)" and "links h' = del_link n (links h)"
    and "libvirt_nets h' = libvirt_nets h"
    by (auto simp: ip_link_del_def split: if_splits)
qed

lemma add_new_tunnel_linux:
  assumes "add_new_tunnel fuel linux t b v d h = (Some (Inr ()), h')"
  shows "t \<notin> fst ` set (links h)" and "b \<notin> fst ` set (links h)" and "b \<noteq> t"
    and "d \<in> fst ` set (links h)"
    and "links h' = links h
           @ [(t, \<lparr>kind = Vxlan v d, master = Some b, addresses = [], remotes = []\<rparr>),
              (b, \<lparr>kind = Bridge, master = None, addresses = [], remotes = []\<rparr>)]"
    and "libvirt_nets h' = libvirt_nets h"
proof -
  from seq_success[OF assms[unfolded add_new_tunnel_def]] obtain s1 where
    a: "run_cmd fuel linux ''ip'' [''link'', ''add'', t, ''type'', ''vxlan'', ''id'', v,
             ''dev'', d, ''dstport'', ''0''] None None h = (Some (Inr ()), s1)"
    and r: "seq (run_cmd fuel linux ''ip'' [''link'', ''add'', b, ''type'', ''bridge''] None None)
         (run_cmd fuel linux ''ip'' [''link'', ''set'', t, ''master'', b] None None) s1
          = (Some (Inr ()), h')" by blast
  from seq_success[OF r] obtain s2 where
    b: "run_cmd fuel linux ''ip'' [''link'', ''add'', b, ''type'', ''bridge''] None None s1 = (Some (Inr ()), s2)"
    and c: "run_cmd fuel linux ''ip'' [''link'', ''set'', t, ''master'', b] None None s2 = (Some (Inr ()), h')"
    by blast
  from run_cmd_linux[OF a] obtain h1 where a1: "ip_link_add_vxlan t v d h = (0, h1)"
    "s1 = h1\<lparr>child := Some 0\<rparr>" by (auto simp: exec_simps)
  from a1(1) have ta: "t \<notin> fst ` set (links h)" "d \<in> fst ` set (links h)"
    and l1: "links h1 = links h @ [(t, \<lparr>kind = Vxlan v d, master = None, addresses = [], remotes = []\<rparr>)]"
    and n1: "libvirt_nets h1 = libvirt_nets h"
    by (auto simp: ip_link_add_vxlan_def split: if_splits)
  from run_cmd_linux[OF b] obtain h2 where b1: "ip_link_add_bridge b s1 = (0, h2)"
    "s2 = h2\<lparr>child := Some 0\<rparr>" by (auto simp: exec_simps)
  from b1(1) a1(2) l1 have bn: "b \<notin> fst ` set (links h)" "b \<noteq> t"
    and l2: "links h2 = links h @ [(t, \<lparr>kind = Vxlan v d, master = None, addresses = [], remotes = []\<rparr>),
          (b, \<lparr>kind = Bridge, master = None, addresses = [], remotes = []\<rparr>)]"
    and n2: "libvirt_nets h2 = libvirt_nets h1"
    by (auto simp: ip_link_add_bridge_def split: if_splits)
  from run_cmd_linux[OF c] obtain h3 where c1: "ip_link_set_master t b s2 = (0, h3)"
    "h' = h3\<lparr>child := Some 0\<rparr>" by (auto simp: exec_simps)
  from c1(1) b1(2) have l3: "links h3 = map (\<lambda>p. if fst p = t then (fst p, (snd p)\<lparr>master := Some b\<rparr>) else p) (links h2)"
    and n3: "libvirt_nets h3 = libvirt_nets h2"
    by (auto simp: ip_link_set_master_def split: if_splits)
  show "t \<notin> fst ` set (links h)" "b \<notin> fst ` set (links h)" "b \<noteq> t" "d \<in> fst ` set (links h)"
    using ta bn by auto
  show "links h' = links h
           @ [(t, \<lparr>kind = Vxlan v d, master = Some b, addresses = [], remotes = []\<rparr>),
              (b, \<lparr>kind = Bridge, master = None, addresses = [], remotes = []\<rparr>)]"
    using c1(2) l3 l2 bn(2) map_other_key[OF ta(1)] by simp
  show "libvirt_nets h' = libvirt_nets h" using c1(2) n3 n2 n1 b1(2) a1(2) by simp
qed

lemma fdb_loop_linux:
  assumes "for_each (\<lambda>ip. run_cmd fuel linux ''bridge''
                    [''fdb'', ''append'', ''to'', ''00:00:00:00:00:00'', ''dst'', ip,
                     ''dev'', t] None None) ips h = (Some (Inr ()), h')"
    and "links h = ls @ [(t, tlk), (b, blk)]" and "t \<notin> fst ` set ls" and "b \<noteq> t"
  shows "links h' = ls @ [(t, tlk\<lparr>remotes := foldl (\<lambda>rs ip. List.insert ip rs) (remotes tlk) ips\<rparr>), (b, blk)]
         \<and> libvirt_nets h' = libvirt_nets h"
  using assms
proof (induction ips arbitrary: h tlk)
  case Nil
  then show ?case by (simp add: ret_def)
next
  case (Cons ip ips)
  from Cons.prems(1) have "seq (run_cmd fuel linux ''bridge''
                    [''fdb'', ''append'', ''to'', ''00:00:00:00:00:00'', ''dst'', ip,
                     ''dev'', t] None None)
       (for_each (\<lambda>ip. run_cmd fuel linux ''bridge''
                    [''fdb'', ''append'', ''to'', ''00:00:00:00:00:00'', ''dst'', ip,
                     ''dev'', t] None None) ips) h = (Some (Inr ()), h')" by simp
  from seq_success[OF this] obtain s1 where
    a: "run_cmd fuel linux ''bridge''
                    [''fdb'', ''append'', ''to'', ''00:00:00:00:00:00'', ''dst'', ip,
                     ''dev'', t] None None h = (Some (Inr ()), s1)"
    and r: "for_each (\<lambda>ip. run_cmd fuel linux ''bridge''
                    [''fdb'', ''append'', ''to'', ''00:00:00:00:00:00'', ''dst'', ip,
                     ''dev'', t] None None) ips s1 = (Some (Inr ()), h')" by blast
  from run_cmd_linux[OF a] obtain h1 where a1: "bridge_fdb_append ip t h = (0, h1)"
    "s1 = h1\<lparr>child := Some 0\<rparr>" by (auto simp: exec_simps)
  from a1(1) have "links h1 = map (\<lambda>p. if fst p = t
                                    then (fst p, (snd p)\<lparr>remotes := List.insert ip (remotes (snd p))\<rparr>)
                                    else p) (links h)"
    and n1: "libvirt_nets h1 = libvirt_nets h"
    by (auto simp: bridge_fdb_append_def split: if_splits)
  with Cons.prems(2,3,4) map_other_key[OF Cons.prems(3)]
  have l1: "links s1 = ls @ [(t, tlk\<lparr>remotes := List.insert ip (remotes tlk)\<rparr>), (b, blk)]"
    using a1(2) by simp
  from Cons.IH[OF r l1 Cons.prems(3,4)] n1 a1(2) show ?case by simp
qed

lemma filter_map_key:
  "filter (\<lambda>p. fst p \<noteq> n) (map (\<lambda>p. if fst p = n then (fst p, g p) else p) ls)
     = filter (\<lambda>p. fst p \<noteq> n) ls"
  by (induction ls) auto

lemma seq_set_success:
  assumes "seq (in_world m) (\<lambda>(self, w). (Some (Inr ()), (g self, w))) (self, h)
             = (Some (Inr ()), (self', h'))"
  shows "m h = (Some (Inr ()), h')" and "self' = g self"
  using assms
  by (auto simp: seq_def bnd_def in_world_def split: prod.splits option.splits sum.splits)

lemma remove_virtual_network_linux:
  assumes "remove_virtual_network fuel linux nn (self, h) = (Some (Inr ()), (self', h'))"
  shows "links h' = links h"
    and "libvirt_nets h' = (if nn \<in> set (vnets self)
                            then filter (\<lambda>p. fst p \<noteq> nn) (libvirt_nets h) else libvirt_nets h)"
proof (atomize (full), cases "nn \<in> set (vnets self)")
  case False
  with assms show "links h' = links h \<and> libvirt_nets h' = (if nn \<in> set (vnets self)
                            then filter (\<lambda>p. fst p \<noteq> nn) (libvirt_nets h) else libvirt_nets h)"
    by (simp add: remove_virtual_network_def with_self_def ret_def)
next
  case True
  let ?undef = "seq (in_world (run_cmd fuel linux ''virsh'' [''net-undefine'', nn] None None))
             (\<lambda>(self, w). (Some (Inr ()), (self\<lparr>vnets := remove1 nn (vnets self)\<rparr>, w)))"
  from assms True have "seq (in_world (run_cmd fuel linux ''virsh'' [''net-destroy'', nn] None None))
        ?undef (self, h) = (Some (Inr ()), (self', h'))"
    by (simp add: remove_virtual_network_def with_self_def)
  from seq_success[OF this] obtain s1 where
    a: "in_world (run_cmd fuel linux ''virsh'' [''net-destroy'', nn] None None) (self, h) = (Some (Inr ()), s1)"
    and r: "?undef s1 = (Some (Inr ()), (self', h'))" by blast
  obtain self1 h1 where s1: "s1 = (self1, h1)" by (cases s1)
  note a' = in_world_run[OF a[unfolded s1]]
  note b' = seq_set_success[OF r[unfolded s1]]
  define h2 where "h2 = h'"
  have hh: "h' = h2" by (simp add: h2_def)
  from run_cmd_linux[OF a'(2)] obtain k1 where k1: "virsh_net_destroy nn h = (0, k1)"
    "h1 = k1\<lparr>child := Some 0\<rparr>" by (auto simp: exec_simps)
  from run_cmd_linux[OF b'(1)[unfolded hh]] obtain k2 where k2: "virsh_net_undefine nn h1 = (0, k2)"
    "h2 = k2\<lparr>child := Some 0\<rparr>" by (auto simp: exec_simps)
  from k1 have n1: "libvirt_nets h1 = map (\<lambda>p. if fst p = nn then (fst p, (snd p)\<lparr>active := False\<rparr>) else p)
                                   (libvirt_nets h)" and l1: "links h1 = links h"
    by (auto simp: virsh_net_destroy_def split: if_splits)
  from k2 have n2: "libvirt_nets h2 = filter (\<lambda>p. fst p \<noteq> nn) (libvirt_nets h1)"
    and l2: "links h2 = links h1"
    by (auto simp: virsh_net_undefine_def split: if_splits)
  from n1 n2 l1 l2 hh True
  show "links h' = links h \<and> libvirt_nets h' = (if nn \<in> set (vnets self)
                            then filter (\<lambda>p. fst p \<noteq> nn) (libvirt_nets h) else libvirt_nets h)"
    by (simp add: filter_map_key)
qed


lemma map_of_snoc: "n \<notin> fst ` set ls \<Longrightarrow> map_of (ls @ [(n, v)]) n = Some v"
  by (induction ls) auto

lemma add_virtual_network_linux:
  assumes "add_virtual_network fuel linux nn b (self, h) = (Some (Inr ()), (self', h'))"
  shows "links h' = links h" and "nn \<notin> fst ` set (libvirt_nets h)"
    and "libvirt_nets h' = libvirt_nets h
            @ [(nn, \<lparr>on_bridge = b, active = True, autostart = True\<rparr>)]"
proof -
  let ?auto = "seq (in_world (run_cmd fuel linux ''virsh'' [''net-autostart'', nn] None None))
         (\<lambda>(self, w). (Some (Inr ()), (self\<lparr>vnets := vnets self @ [nn]\<rparr>, w)))"
  let ?start = "seq (in_world (run_cmd fuel linux ''virsh'' [''net-start'', nn] None None)) ?auto"
  from seq_success[OF assms[unfolded add_virtual_network_def]] obtain s1 where
    a: "in_world (with_temporary_file linux (NetworkXml nn ''bridge'' b)
            (\<lambda>tmp. run_cmd fuel linux ''virsh'' [''net-define'', tmp] None None)) (self, h)
          = (Some (Inr ()), s1)"
    and r1: "?start s1 = (Some (Inr ()), (self', h'))" by blast
  obtain self1 h1 where s1: "s1 = (self1, h1)" by (cases s1)
  note a' = in_world_run[OF a[unfolded s1]]
  from seq_success[OF r1[unfolded s1]] obtain s2 where
    b: "in_world (run_cmd fuel linux ''virsh'' [''net-start'', nn] None None) (self1, h1) = (Some (Inr ()), s2)"
    and r2: "?auto s2 = (Some (Inr ()), (self', h'))" by blast
  obtain self2 h2 where s2: "s2 = (self2, h2)" by (cases s2)
  note b' = in_world_run[OF b[unfolded s2]]
  note c' = seq_set_success[OF r2[unfolded s2]]
  define h3 where "h3 = h'"
  have hh: "h' = h3" by (simp add: h3_def)
  let ?h0 = "h\<lparr>tmpfiles := (''/tmp/tmpfile'', NetworkXml nn ''bridge'' b) # tmpfiles h\<rparr>"
  obtain rr k0 where d0: "run_cmd fuel linux ''virsh'' [''net-define'', ''/tmp/tmpfile''] None None ?h0 = (rr, k0)"
    by (metis prod.exhaust)
  with a'(2) have d: "rr = Some (Inr ())"
    and h1: "h1 = k0\<lparr>tmpfiles := filter (\<lambda>p. fst p \<noteq> ''/tmp/tmpfile'') (tmpfiles k0)\<rparr>"
    by (auto simp: with_temporary_file_def linux_sel split: option.splits)
  from run_cmd_linux[OF d0[unfolded d]] obtain k1 where k1: "virsh_net_define ''/tmp/tmpfile'' ?h0 = (0, k1)"
    "k0 = k1\<lparr>child := Some 0\<rparr>" by (auto simp: exec_simps)
  from k1(1) have fresh: "nn \<notin> fst ` set (libvirt_nets h)"
    and n1: "libvirt_nets k1 = libvirt_nets h @ [(nn, \<lparr>on_bridge = b, active = False, autostart = False\<rparr>)]"
    and l1: "links k1 = links h"
    by (auto simp: virsh_net_define_def split: if_splits)
  from h1 k1(2) n1 l1 have n1': "libvirt_nets h1 = libvirt_nets h @ [(nn, \<lparr>on_bridge = b, active = False, autostart = False\<rparr>)]"
    and l1': "links h1 = links h" by simp_all
  from run_cmd_linux[OF b'(2)] obtain k2 where k2: "virsh_net_start nn h1 = (0, k2)"
    "h2 = k2\<lparr>child := Some 0\<rparr>" by (auto simp: exec_simps)
  have mo: "map_of (libvirt_nets h @ [(nn, v)]) nn = Some v" for v
    by (rule map_of_snoc[OF fresh])
  have mk: "map (\<lambda>p. if fst p = nn then (fst p, g p) else p) (libvirt_nets h) = libvirt_nets h" for g
    by (rule map_other_key[OF fresh])
  from k2 n1' l1' mo mk have
    n2: "libvirt_nets h2 = libvirt_nets h @ [(nn, \<lparr>on_bridge = b, active = True, autostart = False\<rparr>)]"
    and l2: "links h2 = links h"
    by (auto simp: virsh_net_start_def split: if_splits)
  from run_cmd_linux[OF c'(1)[unfolded hh]] obtain k3 where k3: "virsh_net_autostart nn h2 = (0, k3)"
    "h3 = k3\<lparr>child := Some 0\<rparr>" by (auto simp: exec_simps)
  from k3 n2 l2 mk have
    n3: "libvirt_nets h3 = libvirt_nets h @ [(nn, \<lparr>on_bridge = b, active = True, autostart = True\<rparr>)]"
    and l3: "links h3 = links h"
    by (auto simp: virsh_net_autostart_def split: if_splits)
  show "links h' = links h" "nn \<notin> fst ` set (libvirt_nets h)"
    "libvirt_nets h' = libvirt_nets h @ [(nn, \<lparr>on_bridge = b, active = True, autostart = True\<rparr>)]"
    using hh n3 l3 fresh by simp_all
qed

lemma do_if_remove_link_linux:
  assumes "with_self (\<lambda>self. do_if (n \<in> fst ` set (interfaces self))
              (in_world (remove_link fuel linux n))) (self, h) = (Some (Inr ()), s1)"
  shows "\<exists>h1. s1 = (self, h1)
           \<and> links h1 = (if n \<in> fst ` set (interfaces self) then del_link n (links h) else links h)
           \<and> libvirt_nets h1 = libvirt_nets h"
proof (cases "n \<in> fst ` set (interfaces self)")
  case False
  with assms show ?thesis by (auto simp: with_self_def do_if_def ret_def)
next
  case True
  obtain self1 h1 where s1: "s1 = (self1, h1)" by (cases s1)
  from assms True s1 have "in_world (remove_link fuel linux n) (self, h) = (Some (Inr ()), (self1, h1))"
    by (simp add: with_self_def do_if_def)
  note a = in_world_run[OF this]
  from remove_link_linux[OF a(2)] a(1) s1 True show ?thesis by simp
qed

lemma construct_linux:
  assumes "construct_virtual_network fuel linux c (self, h) = (Some (Inr ()), (self', h'))"
  shows "\<exists>dev ip. find_underlay self (endpoint_ips_of c) = Inr (dev, ip)
           \<and> tunnel_name_of c \<notin> fst ` set (cleared self c (links h))
           \<and> bridge_name_of c \<notin> fst ` set (cleared self c (links h))
           \<and> bridge_name_of c \<noteq> tunnel_name_of c
           \<and> dev \<in> fst ` set (cleared self c (links h))
           \<and> links h' = cleared self c (links h)
                 @ [(tunnel_name_of c, built_tunnel c dev ip), (bridge_name_of c, built_bridge)]
           \<and> network_name_of c \<notin> fst ` set (unregistered self c (libvirt_nets h))
           \<and> libvirt_nets h' = unregistered self c (libvirt_nets h)
                 @ [(network_name_of c, built_net c)]"
proof -
  let ?tn = "tunnel_name_of c" and ?bn = "bridge_name_of c" and ?nn = "network_name_of c"
  let ?eps = "endpoint_ips_of c"
  note run = assms[unfolded construct_virtual_network_def]
  from seq_success[OF run] obtain s1 where
    a: "with_self (\<lambda>self. result (check_conflict self ?tn ?bn)) (self, h) = (Some (Inr ()), s1)"
    and r1: "seq (with_self (\<lambda>self. do_if (?tn \<in> fst ` set (interfaces self))
                               (in_world (remove_link fuel linux ?tn))))
    (seq (with_self (\<lambda>self. do_if (?bn \<in> fst ` set (interfaces self))
                               (in_world (remove_link fuel linux ?bn))))
    (bnd (with_self (\<lambda>self. result (find_underlay self ?eps)))
       (\<lambda>(device, local_ip_addr).
          seq (in_world (add_new_tunnel fuel linux ?tn ?bn (vxlan_id_of c) device))
         (seq (in_world (connect_endpoints fuel linux ?tn ?eps local_ip_addr))
         (seq (remove_virtual_network fuel linux ?nn)
              (add_virtual_network fuel linux ?nn ?bn)))))) s1 = (Some (Inr ()), (self', h'))"
    by blast
  from a have s1: "s1 = (self, h)" by (simp add: with_self_def result_def)
  from seq_success[OF r1[unfolded s1]] obtain s2 where
    b: "with_self (\<lambda>self. do_if (?tn \<in> fst ` set (interfaces self))
                               (in_world (remove_link fuel linux ?tn))) (self, h) = (Some (Inr ()), s2)"
    and r2: "seq (with_self (\<lambda>self. do_if (?bn \<in> fst ` set (interfaces self))
                               (in_world (remove_link fuel linux ?bn))))
    (bnd (with_self (\<lambda>self. result (find_underlay self ?eps)))
       (\<lambda>(device, local_ip_addr).
          seq (in_world (add_new_tunnel fuel linux ?tn ?bn (vxlan_id_of c) device))
         (seq (in_world (connect_endpoints fuel linux ?tn ?eps local_ip_addr))
         (seq (remove_virtual_network fuel linux ?nn)
              (add_virtual_network fuel linux ?nn ?bn))))) s2 = (Some (Inr ()), (self', h'))"
    by blast
  from do_if_remove_link_linux[OF b] obtain h2 where s2: "s2 = (self, h2)"
    and l2: "links h2 = (if ?tn \<in> fst ` set (interfaces self) then del_link ?tn (links h) else links h)"
    and n2: "libvirt_nets h2 = libvirt_nets h" by blast
  from seq_success[OF r2[unfolded s2]] obtain s3 where
    c: "with_self (\<lambda>self. do_if (?bn \<in> fst ` set (interfaces self))
                               (in_world (remove_link fuel linux ?bn))) (self, h2) = (Some (Inr ()), s3)"
    and r3: "bnd (with_self (\<lambda>self. result (find_underlay self ?eps)))
       (\<lambda>(device, local_ip_addr).
          seq (in_world (add_new_tunnel fuel linux ?tn ?bn (vxlan_id_of c) device))
         (seq (in_world (connect_endpoints fuel linux ?tn ?eps local_ip_addr))
         (seq (remove_virtual_network fuel linux ?nn)
              (add_virtual_network fuel linux ?nn ?bn)))) s3 = (Some (Inr ()), (self', h'))"
    by blast
  from do_if_remove_link_linux[OF c] obtain h3 where s3: "s3 = (self, h3)"
    and l3: "links h3 = (if ?bn \<in> fst ` set (interfaces self) then del_link ?bn (links h2) else links h2)"
    and n3: "libvirt_nets h3 = libvirt_nets h2" by blast
  have l3': "links h3 = cleared self c (links h)"
    using l2 l3 by (simp add: cleared_def Let_def)
  obtain x where fu: "find_underlay self ?eps = Inr x"
    using r3 s3 by (cases "find_underlay self ?eps") (auto simp: bnd_def with_self_def result_def)
  obtain dev ip where x: "x = (dev, ip)" by (cases x)
  from r3 s3 fu x have r4: "seq (in_world (add_new_tunnel fuel linux ?tn ?bn (vxlan_id_of c) dev))
         (seq (in_world (connect_endpoints fuel linux ?tn ?eps ip))
         (seq (remove_virtual_network fuel linux ?nn)
              (add_virtual_network fuel linux ?nn ?bn))) (self, h3) = (Some (Inr ()), (self', h'))"
    by (simp add: bnd_def with_self_def result_def)
  from seq_success[OF r4] obtain s4 where
    d: "in_world (add_new_tunnel fuel linux ?tn ?bn (vxlan_id_of c) dev) (self, h3) = (Some (Inr ()), s4)"
    and r5: "seq (in_world (connect_endpoints fuel linux ?tn ?eps ip))
         (seq (remove_virtual_network fuel linux ?nn)
              (add_virtual_network fuel linux ?nn ?bn)) s4 = (Some (Inr ()), (self', h'))"
    by blast
  obtain self4 h4 where s4: "s4 = (self4, h4)" by (cases s4)
  note d' = in_world_run[OF d[unfolded s4]]
  note t = add_new_tunnel_linux[OF d'(2)]
  from seq_success[OF r5[unfolded s4]] obtain s5 where
    e: "in_world (connect_endpoints fuel linux ?tn ?eps ip) (self4, h4) = (Some (Inr ()), s5)"
    and r6: "seq (remove_virtual_network fuel linux ?nn)
              (add_virtual_network fuel linux ?nn ?bn) s5 = (Some (Inr ()), (self', h'))"
    by blast
  obtain self5 h5 where s5: "s5 = (self5, h5)" by (cases s5)
  note e' = in_world_run[OF e[unfolded s5]]
  from fdb_loop_linux[OF e'(2)[unfolded connect_endpoints_def Let_def] t(5) t(1) t(3)]
  have l5: "links h5 = links h3 @ [(?tn, built_tunnel c dev ip), (?bn, built_bridge)]"
    and n5: "libvirt_nets h5 = libvirt_nets h4"
    by (simp_all add: built_tunnel_def built_bridge_def appended_def)
  from seq_success[OF r6[unfolded s5]] obtain s6 where
    f: "remove_virtual_network fuel linux ?nn (self5, h5) = (Some (Inr ()), s6)"
    and g: "add_virtual_network fuel linux ?nn ?bn s6 = (Some (Inr ()), (self', h'))"
    by blast
  obtain self6 h6 where s6: "s6 = (self6, h6)" by (cases s6)
  note f' = remove_virtual_network_linux[OF f[unfolded s6]]
  note g' = add_virtual_network_linux[OF g[unfolded s6]]
  have selfs: "self5 = self" using d'(1) e'(1) by simp
  have n6: "libvirt_nets h6 = unregistered self c (libvirt_nets h)"
    using f'(2) selfs n5 t(6) n3 n2 by (simp add: unregistered_def)
  have l6: "links h' = cleared self c (links h) @ [(?tn, built_tunnel c dev ip), (?bn, built_bridge)]"
    using g'(1) f'(1) l5 l3' by simp
  show ?thesis
    using fu x t(1,2,3,4) l3' l6 g'(2,3) n6
    by (intro exI[of _ dev] exI[of _ ip]) (simp add: built_net_def)
qed

lemma update_new: "k \<notin> fst ` set al \<Longrightarrow> AList.update k v al = al @ [(k, v)]"
  by (induction al) auto

lemma index_interfaces_linux:
  "distinct (map fst acc @ map fst ls) \<Longrightarrow>
   index_interfaces (map iface_of ls) acc = Inr (acc @ map (\<lambda>p. (fst p, iface_of p)) ls)"
proof (induction ls arbitrary: acc)
  case Nil
  then show ?case by simp
next
  case (Cons p ls)
  have n: "ifname (iface_of p) = Some (fst p)" by (simp add: iface_of_def)
  from Cons.prems have new: "fst p \<notin> fst ` set acc" by auto
  from Cons.prems have "distinct (map fst (acc @ [(fst p, iface_of p)]) @ map fst ls)" by auto
  from Cons.IH[OF this] show ?case
    by (simp add: n update_new[OF new])
qed

lemma fold_dsts_frame:
  "fold_dsts ds ifs = Inr r \<Longrightarrow>
   map (\<lambda>p. (fst p, addr_info (snd p))) r = map (\<lambda>p. (fst p, addr_info (snd p))) ifs"
proof (induction ds arbitrary: ifs)
  case Nil
  then show ?case by simp
next
  case (Cons d ds)
  show ?case
  proof (cases "fdb_dst d")
    case None
    with Cons show ?thesis by simp
  next
    case (Some x)
    with Cons.prems obtain n i where n: "fdb_ifname d = Some n" "map_of ifs n = Some i"
      and rest: "fold_dsts ds (AList.update n
           (i\<lparr>fdb_dsts := Some (case fdb_dsts i of None \<Rightarrow> [x] | Some ds \<Rightarrow> ds @ [x])\<rparr>) ifs) = Inr r"
      by (auto split: option.splits)
    have "map (\<lambda>p. (fst p, addr_info (snd p))) (AList.update n (i\<lparr>fdb_dsts := y\<rparr>) ifs)
        = map (\<lambda>p. (fst p, addr_info (snd p))) ifs" for y
      using n(2) by (induction ifs) (auto split: if_splits)
    with Cons.IH[OF rest] show ?thesis by simp
  qed
qed

lemma local_addresses_frame:
  "map (\<lambda>p. (fst p, addr_info (snd p))) r = map (\<lambda>p. (fst p, addr_info (snd p))) ifs \<Longrightarrow>
   local_addresses r = local_addresses ifs"
proof (induction r arbitrary: ifs)
  case Nil
  then show ?case by (simp add: local_addresses_def)
next
  case (Cons a r)
  then obtain b ifs' where ifs: "ifs = b # ifs'" by (cases ifs) auto
  with Cons.prems have h: "fst a = fst b" "addr_info (snd a) = addr_info (snd b)"
    and t: "map (\<lambda>p. (fst p, addr_info (snd p))) r = map (\<lambda>p. (fst p, addr_info (snd p))) ifs'"
    by auto
  from Cons.IH[OF t] h ifs show ?case
    by (simp add: local_addresses_def split_def)
qed

lemma map_filter_local: "List.map_filter local (map (\<lambda>a. \<lparr>local = Some a\<rparr>) xs) = xs"
  by (induction xs) (simp_all add: List.map_filter_simps)

lemma local_addresses_linux:
  "local_addresses (map (\<lambda>p. (fst p, iface_of p)) ls) = link_addresses ls"
  by (induction ls)
     (simp_all add: local_addresses_def link_addresses_def iface_of_def map_filter_local)

lemma get_interfaces_linux:
  assumes "get_interfaces linux h = Inr ifs"
  shows "fst ` set ifs = fst ` set (links h)"
    and "distinct (map fst (links h)) \<Longrightarrow> local_addresses ifs = link_addresses (links h)"
proof -
  let ?ds = "filter (\<lambda>e. fdb_dst e \<noteq> None) (concat (map fdb_of (links h)))"
  from assms obtain ifs0 where i0: "index_interfaces (map iface_of (links h)) [] = Inr ifs0"
    and f: "fold_dsts ?ds ifs0 = Inr ifs"
    by (auto simp: get_interfaces_def linux_sel split: sum.splits)
  from fold_dsts_frame[OF f] have fr: "map (\<lambda>p. (fst p, addr_info (snd p))) ifs
       = map (\<lambda>p. (fst p, addr_info (snd p))) ifs0" .
  then have "map fst ifs = map fst ifs0"
    by (metis (mono_tags, lifting) list.map_comp fst_conv map_eq_conv o_apply)
  then have k: "fst ` set ifs = fst ` set ifs0" by (metis set_map)
  from index_interfaces_result[OF i0] have "fst ` set ifs0 = fst ` set (links h)"
    by (auto simp: iface_of_def image_iff)
  with k show "fst ` set ifs = fst ` set (links h)" by simp
  assume d: "distinct (map fst (links h))"
  from index_interfaces_linux[of "[]" "links h"] d i0
  have "ifs0 = map (\<lambda>p. (fst p, iface_of p)) (links h)" by simp
  with local_addresses_frame[OF fr] show "local_addresses ifs = link_addresses (links h)"
    by (simp add: local_addresses_linux)
qed

lemma get_virtual_networks_linux:
  "get_virtual_networks linux h
     = Inr (filter (\<lambda>n. n \<noteq> []) (map fst (filter (\<lambda>p. active (snd p)) (libvirt_nets h))))"
proof -
  have "filter (\<lambda>l. l \<noteq> []) (map butlast (map (\<lambda>p. fst p @ [CHR 0x0A]) ns))
      = filter (\<lambda>n. n \<noteq> []) (map fst ns)" for ns :: "(string \<times> libvirt_net) list"
    by (induction ns) auto
  then show ?thesis
    by (simp add: get_virtual_networks_def linux_sel)
qed

lemma NetworkInstaller_linux:
  assumes "NetworkInstaller linux h = (Some (Inr self), h')"
  shows "h' = h"
    and "fst ` set (interfaces self) = fst ` set (links h)"
    and "vnets self = filter (\<lambda>n. n \<noteq> []) (map fst (filter (\<lambda>p. active (snd p)) (libvirt_nets h)))"
    and "distinct (map fst (links h)) \<Longrightarrow>
           find_underlay self eps =
             (case find (\<lambda>p. snd p \<in> set eps) (link_addresses (links h)) of
                Some p \<Rightarrow> Inr p | None \<Rightarrow> Inl (ContextualError (NoUnderlay eps)))"
proof -
  from assms obtain ifs where gi: "get_interfaces linux h = Inr ifs"
    and ifs: "interfaces self = ifs"
    and vn: "get_virtual_networks linux h = Inr (vnets self)"
    and hh: "h' = h"
    by (auto simp: NetworkInstaller_def split: sum.splits)
  show "h' = h" by (rule hh)
  show "fst ` set (interfaces self) = fst ` set (links h)"
    using get_interfaces_linux(1)[OF gi] ifs by simp
  show "vnets self = filter (\<lambda>n. n \<noteq> []) (map fst (filter (\<lambda>p. active (snd p)) (libvirt_nets h)))"
    using vn by (simp add: get_virtual_networks_linux)
  assume "distinct (map fst (links h))"
  from get_interfaces_linux(2)[OF gi this] ifs
  show "find_underlay self eps =
             (case find (\<lambda>p. snd p \<in> set eps) (link_addresses (links h)) of
                Some p \<Rightarrow> Inr p | None \<Rightarrow> Inl (ContextualError (NoUnderlay eps)))"
    by (simp add: find_underlay_def scan_interfaces_find)
qed

lemma keys_del_link: "map fst (del_link n ls) = filter (\<lambda>k. k \<noteq> n) (map fst ls)"
  by (induction ls) (auto simp: del_link_def unmaster_def)

lemma keys_del_link_set: "fst ` set (del_link n ls) = fst ` set ls - {n}"
proof -
  have "set (map fst (del_link n ls)) = set (map fst ls) - {n}"
    unfolding keys_del_link by auto
  then show ?thesis by simp
qed

lemma master_del_link:
  assumes "p \<in> set (del_link n ls)"
  shows "master (snd p) \<noteq> Some n"
    and "\<exists>q\<in>set ls. fst q = fst p \<and> (master (snd p) = None \<or> master (snd p) = master (snd q))"
  using assms by (force simp: del_link_def unmaster_def split: if_splits)+

lemma tidy_del_link:
  assumes "tidy ls"
  shows "tidy (del_link n ls)"
  unfolding tidy_def
proof (intro conjI ballI)
  from assms show "distinct (map fst (del_link n ls))"
    by (simp add: keys_del_link tidy_def)
next
  fix p assume p: "p \<in> set (del_link n ls)"
  show "case master (snd p) of None \<Rightarrow> True | Some m \<Rightarrow> m \<in> fst ` set (del_link n ls)"
  proof (cases "master (snd p)")
    case None
    then show ?thesis by simp
  next
    case (Some m)
    from master_del_link[OF p] Some obtain q where q: "q \<in> set ls" "master (snd q) = Some m"
      and mn: "m \<noteq> n" by auto
    from assms q have "m \<in> fst ` set ls"
      unfolding tidy_def by (metis (mono_tags, lifting) option.simps(5))
    with mn Some show ?thesis by (simp add: keys_del_link_set)
  qed
qed

lemma tidy_cleared: "tidy ls \<Longrightarrow> tidy (cleared self c ls)"
  by (simp add: cleared_def Let_def tidy_del_link)

lemma tidy_unmaster:
  assumes "tidy ls" and "n \<notin> fst ` set ls"
  shows "map (unmaster n) ls = ls"
proof -
  have "unmaster n p = p" if "p \<in> set ls" for p
  proof -
    from assms(1) that have "case master (snd p) of None \<Rightarrow> True | Some m \<Rightarrow> m \<in> fst ` set ls"
      unfolding tidy_def by blast
    with assms(2) have "master (snd p) \<noteq> Some n" by (auto split: option.splits)
    then show ?thesis by (simp add: unmaster_def)
  qed
  then show ?thesis by (simp add: map_idI)
qed

lemma link_addresses_unmaster: "link_addresses (map (unmaster n) ls) = link_addresses ls"
  by (induction ls) (simp_all add: link_addresses_def unmaster_def)

lemma link_addresses_Cons:
  "link_addresses (p # ls) = map (Pair (fst p)) (addresses (snd p)) @ link_addresses ls"
  by (simp add: link_addresses_def)

lemma find_in_head:
  "find P (map (Pair k) xs) = Some (d, ip) \<Longrightarrow> d = k"
  by (induction xs) (auto split: if_splits)

lemma find_filter_links:
  "find P (link_addresses ls) = Some (d, ip) \<Longrightarrow> d \<noteq> n \<Longrightarrow>
   find P (link_addresses (filter (\<lambda>p. fst p \<noteq> n) ls)) = Some (d, ip)"
proof (induction ls)
  case Nil
  then show ?case by (simp add: link_addresses_def)
next
  case (Cons p ls)
  show ?case
  proof (cases "find P (map (Pair (fst p)) (addresses (snd p)))")
    case None
    with Cons.prems(1) have "find P (link_addresses ls) = Some (d, ip)"
      by (simp add: link_addresses_Cons find_app)
    from Cons.IH[OF this Cons.prems(2)] None show ?thesis
      by (simp add: link_addresses_Cons find_app)
  next
    case (Some x)
    with Cons.prems(1) have x: "x = (d, ip)"
      by (simp add: link_addresses_Cons find_app)
    with Some find_in_head have "d = fst p" by fastforce
    with Cons.prems(2) Some x show ?thesis
      by (simp add: link_addresses_Cons find_app)
  qed
qed

lemma find_del_link:
  "find P (link_addresses ls) = Some (d, ip) \<Longrightarrow> d \<noteq> n \<Longrightarrow>
   find P (link_addresses (del_link n ls)) = Some (d, ip)"
  by (simp add: del_link_def link_addresses_unmaster find_filter_links)

lemma keys_cleared: "fst ` set (cleared self c ls) \<subseteq> fst ` set ls"
  by (auto simp: cleared_def Let_def keys_del_link_set)

lemma find_cleared:
  assumes f: "find P (link_addresses ls) = Some (d, ip)"
    and d: "d \<in> fst ` set (cleared self c ls)"
  shows "find P (link_addresses (cleared self c ls)) = Some (d, ip)"
proof -
  let ?tn = "tunnel_name_of c" and ?bn = "bridge_name_of c"
  let ?ls1 = "if ?tn \<in> fst ` set (interfaces self) then del_link ?tn ls else ls"
  have c: "cleared self c ls = (if ?bn \<in> fst ` set (interfaces self) then del_link ?bn ?ls1 else ?ls1)"
    by (simp add: cleared_def Let_def)
  have d1: "?tn \<in> fst ` set (interfaces self) \<Longrightarrow> d \<noteq> ?tn"
    using d unfolding c by (auto simp: keys_del_link_set split: if_splits)
  have d2: "?bn \<in> fst ` set (interfaces self) \<Longrightarrow> d \<noteq> ?bn"
    using d unfolding c by (auto simp: keys_del_link_set split: if_splits)
  have f1: "find P (link_addresses ?ls1) = Some (d, ip)"
    using f d1 by (simp add: find_del_link)
  show ?thesis unfolding c using f1 d2 by (simp add: find_del_link)
qed

lemma link_addresses_built:
  "link_addresses (ls @ [(t, built_tunnel c dev ip), (b, built_bridge)]) = link_addresses ls"
  by (simp add: link_addresses_def built_tunnel_def built_bridge_def)

lemma set_appended: "set (appended xs) = set xs"
proof -
  have "set (foldl (\<lambda>rs ip. List.insert ip rs) acc xs) = set acc \<union> set xs" for acc
    by (induction xs arbitrary: acc) auto
  then show ?thesis by (simp add: appended_def)
qed

lemma reconcile_success:
  assumes "reconcile fuel linux c h = (Some (Inr ()), h')"
  shows "\<exists>self self'. NetworkInstaller linux h = (Some (Inr self), h)
           \<and> construct_virtual_network fuel linux c (self, h) = (Some (Inr ()), (self', h'))"
proof -
  from bnd_success[OF assms[unfolded reconcile_def]] obtain self s1 where
    a: "NetworkInstaller linux h = (Some (Inr self), s1)"
    and b: "on_object self (construct_virtual_network fuel linux c) s1 = (Some (Inr ()), h')"
    by blast
  from NetworkInstaller_linux(1)[OF a] have s1: "s1 = h" .
  obtain r self' h2 where c: "construct_virtual_network fuel linux c (self, h) = (r, (self', h2))"
    by (metis prod.exhaust)
  with b s1 have "r = Some (Inr ())" "h2 = h'" by (simp_all add: on_object_def)
  with a s1 c show ?thesis by blast
qed

lemma filter_other_key: "n \<notin> fst ` set ls \<Longrightarrow> filter (\<lambda>p. fst p \<noteq> n) ls = ls"
  by (induction ls) auto

lemma cleared_rebuilt:
  assumes t: "tidy ls" and tn: "tn \<notin> fst ` set ls" and bn: "bn \<notin> fst ` set ls" and ne: "bn \<noteq> tn"
  shows "del_link bn (del_link tn (ls @ [(tn, x), (bn, built_bridge)])) = ls"
proof -
  have "del_link tn (ls @ [(tn, x), (bn, built_bridge)])
      = map (unmaster tn) ls @ [unmaster tn (bn, built_bridge)]"
    using ne by (simp add: del_link_def filter_other_key[OF tn])
  also have "\<dots> = ls @ [(bn, built_bridge)]"
    by (simp add: tidy_unmaster[OF t tn] unmaster_def built_bridge_def)
  finally have a: "del_link tn (ls @ [(tn, x), (bn, built_bridge)]) = ls @ [(bn, built_bridge)]" .
  show ?thesis
    unfolding a by (simp add: del_link_def filter_other_key[OF bn] tidy_unmaster[OF t bn])
qed

lemma map_of_last_but_one:
  "tn \<notin> fst ` set ls \<Longrightarrow> map_of (ls @ [(tn, x), (bn, y)]) tn = Some x"
  by (induction ls) auto

lemma map_of_last:
  "bn \<notin> fst ` set ls \<Longrightarrow> bn \<noteq> tn \<Longrightarrow> map_of (ls @ [(tn, x), (bn, y)]) bn = Some y"
  by (induction ls) auto

lemma count_new_key: "n \<notin> fst ` set ls \<Longrightarrow> count_list (map fst ls) n = 0"
  by (simp add: count_list_0_iff)

text \<open>
  Claim C6. On a Linux host whose links are in a state the kernel can be in, let a
  reconciliation pass for a network succeed, and let a second pass for the same network,
  started on the host as the first left it, succeed too. Then the second pass leaves the
  links and the libvirt networks exactly as the first did: the tunnel device with its
  identifier, its underlying device, its bridge and the same forwarding destinations
  (the endpoint IPs without the local one), the bridge, and the network registered once
  and bound to the bridge, active and started at boot. Each of the three names is there
  exactly once.
\<close>

theorem second_pass_same_state:
  assumes t0: "tidy (links h0)"
    and p1: "reconcile fuel linux c h0 = (Some (Inr ()), h1)"
    and p2: "reconcile fuel linux c h1 = (Some (Inr ()), h2)"
  shows "links h2 = links h1 \<and> libvirt_nets h2 = libvirt_nets h1
     \<and> (\<exists>dev ip. map_of (links h1) (tunnel_name_of c) = Some (built_tunnel c dev ip)
            \<and> set (remotes (built_tunnel c dev ip)) = set (endpoint_ips_of c) - {ip})
     \<and> map_of (links h1) (bridge_name_of c) = Some built_bridge
     \<and> map_of (libvirt_nets h1) (network_name_of c) = Some (built_net c)
     \<and> count_list (map fst (links h1)) (tunnel_name_of c) = 1
     \<and> count_list (map fst (links h1)) (bridge_name_of c) = 1
     \<and> count_list (map fst (libvirt_nets h1)) (network_name_of c) = 1"
proof -
  let ?tn = "tunnel_name_of c" and ?bn = "bridge_name_of c" and ?nn = "network_name_of c"
  let ?eps = "endpoint_ips_of c"
  let ?P = "\<lambda>p :: string \<times> string. snd p \<in> set ?eps"
  from reconcile_success[OF p1] obtain self0 self0' where
    i0: "NetworkInstaller linux h0 = (Some (Inr self0), h0)"
    and c0: "construct_virtual_network fuel linux c (self0, h0) = (Some (Inr ()), (self0', h1))"
    by blast
  let ?L = "cleared self0 c (links h0)" and ?N = "unregistered self0 c (libvirt_nets h0)"
  from construct_linux[OF c0] obtain dev ip where
    fu0: "find_underlay self0 ?eps = Inr (dev, ip)"
    and tn0: "?tn \<notin> fst ` set ?L" and bn0: "?bn \<notin> fst ` set ?L" and ne: "?bn \<noteq> ?tn"
    and dv0: "dev \<in> fst ` set ?L"
    and l1: "links h1 = ?L @ [(?tn, built_tunnel c dev ip), (?bn, built_bridge)]"
    and nn0: "?nn \<notin> fst ` set ?N"
    and n1: "libvirt_nets h1 = ?N @ [(?nn, built_net c)]"
    by blast
  have tL: "tidy ?L" by (rule tidy_cleared[OF t0])
  have d0: "distinct (map fst (links h0))" using t0 by (simp add: tidy_def)
  have dL: "distinct (map fst ?L)" using tL by (simp add: tidy_def)
  have d1: "distinct (map fst (links h1))"
    unfolding l1 using dL tn0 bn0 ne by auto
  from reconcile_success[OF p2] obtain self1 self1' where
    i1: "NetworkInstaller linux h1 = (Some (Inr self1), h1)"
    and c1: "construct_virtual_network fuel linux c (self1, h1) = (Some (Inr ()), (self1', h2))"
    by blast
  from construct_linux[OF c1] obtain dev' ip' where
    fu1: "find_underlay self1 ?eps = Inr (dev', ip')"
    and l2: "links h2 = cleared self1 c (links h1)
                 @ [(?tn, built_tunnel c dev' ip'), (?bn, built_bridge)]"
    and nn1: "?nn \<notin> fst ` set (unregistered self1 c (libvirt_nets h1))"
    and n2: "libvirt_nets h2 = unregistered self1 c (libvirt_nets h1) @ [(?nn, built_net c)]"
    by blast
  \<comment> \<open>the second pass removes exactly what the first one built\<close>
  have k1: "fst ` set (interfaces self1) = fst ` set (links h1)"
    by (rule NetworkInstaller_linux(2)[OF i1])
  have "?tn \<in> fst ` set (interfaces self1)" "?bn \<in> fst ` set (interfaces self1)"
    unfolding k1 l1 by auto
  then have "cleared self1 c (links h1) = del_link ?bn (del_link ?tn (links h1))"
    by (simp add: cleared_def Let_def)
  also have "\<dots> = ?L" unfolding l1 by (rule cleared_rebuilt[OF tL tn0 bn0 ne])
  finally have cl: "cleared self1 c (links h1) = ?L" .
  \<comment> \<open>and finds the same underlay\<close>
  from NetworkInstaller_linux(4)[OF i0 d0, of ?eps] fu0
  have f0: "find ?P (link_addresses (links h0)) = Some (dev, ip)"
    by (auto split: option.splits)
  from find_cleared[OF f0 dv0] have "find ?P (link_addresses ?L) = Some (dev, ip)" .
  then have "find ?P (link_addresses (links h1)) = Some (dev, ip)"
    unfolding l1 by (simp add: link_addresses_built)
  with NetworkInstaller_linux(4)[OF i1 d1, of ?eps] fu1
  have same: "dev' = dev" "ip' = ip" by auto
  have links: "links h2 = links h1" using l2 cl l1 same by simp
  \<comment> \<open>the registration of the first pass is the one removed\<close>
  have un: "unregistered self1 c (libvirt_nets h1) = ?N"
  proof (cases "?nn \<in> set (vnets self1)")
    case True
    then have "unregistered self1 c (libvirt_nets h1) = filter (\<lambda>p. fst p \<noteq> ?nn) (libvirt_nets h1)"
      by (simp add: unregistered_def)
    also have "\<dots> = ?N" unfolding n1 by (simp add: filter_other_key[OF nn0])
    finally show ?thesis .
  next
    case False
    then have "unregistered self1 c (libvirt_nets h1) = libvirt_nets h1"
      by (simp add: unregistered_def)
    with nn1 n1 show ?thesis by simp
  qed
  have nets: "libvirt_nets h2 = libvirt_nets h1" using n2 un n1 by simp
  have rem: "set (remotes (built_tunnel c dev ip)) = set ?eps - {ip}"
    by (auto simp: built_tunnel_def set_appended)
  have mt: "map_of (links h1) ?tn = Some (built_tunnel c dev ip)"
    unfolding l1 by (rule map_of_last_but_one[OF tn0])
  have mb: "map_of (links h1) ?bn = Some built_bridge"
    unfolding l1 by (rule map_of_last[OF bn0 ne])
  have mn: "map_of (libvirt_nets h1) ?nn = Some (built_net c)"
    unfolding n1 by (rule map_of_snoc[OF nn0])
  have ct: "count_list (map fst (links h1)) ?tn = 1"
    unfolding l1 using count_new_key[OF tn0] ne by simp
  have cb: "count_list (map fst (links h1)) ?bn = 1"
    unfolding l1 using count_new_key[OF bn0] ne by simp
  have cn: "count_list (map fst (libvirt_nets h1)) ?nn = 1"
    unfolding n1 using count_new_key[OF nn0] by simp
  from links nets rem mt mb mn ct cb cn show ?thesis by blast
qed

lemma run_cmd_linux_eval:
  "run_cmd (Suc n) linux c a None None h =
     (case exec (c # a) h of
        (st, h') \<Rightarrow> (if st \<noteq> 0 then Some (Inl (ContextualError (CommandFailed (c # a))))
                     else Some (Inr ()), h'\<lparr>child := Some st\<rparr>))"
  by (simp add: run_cmd_def linux_sel split: prod.splits)

lemma fresh_snapshot:
  "NetworkInstaller linux fresh_host =
     (Some (Inr \<lparr>interfaces = [(''eth0'', iface_of (''eth0'',
                    \<lparr>kind = Plain, master = None, addresses = [''10.0.0.2''], remotes = []\<rparr>))],
                 vxlans = [], bridges = [], vnets = [''default'']\<rparr>), fresh_host)"
  by (simp add: NetworkInstaller_def get_interfaces_def get_virtual_networks_def linux_sel
        fresh_host_def iface_of_def fdb_of_def)


lemmas linux_eval =
  construct_virtual_network_def names_of_fabric0 seq_def bnd_def with_self_def result_def
  do_if_def in_world_def remove_link_def add_new_tunnel_def connect_endpoints_def
  remove_virtual_network_def add_virtual_network_def with_temporary_file_def ret_def
  run_cmd_linux_eval exec_simps ip_link_del_def ip_link_add_vxlan_def ip_link_add_bridge_def
  ip_link_set_master_def bridge_fdb_append_def virsh_net_define_def virsh_net_start_def
  virsh_net_autostart_def virsh_net_destroy_def virsh_net_undefine_def
  check_conflict_def find_underlay_def linux_sel reconcile_def on_object_def
  del_link_def unmaster_def iface_of_def

lemma fresh_pass: "reconcile (Suc 0) linux fabric0 fresh_host = (Some (Inr ()), fabric0_host)"
  unfolding reconcile_def bnd_def fresh_snapshot
  by (simp add: linux_eval fresh_host_def fabric0_host_def)

lemma fabric0_snapshot:
  "NetworkInstaller linux fabric0_host =
     (Some (Inr \<lparr>interfaces = map (\<lambda>p. (fst p, (iface_of p)\<lparr>fdb_dsts := (if fst p = ''fabric0'' then Some [''10.0.0.3'', ''10.0.0.1''] else None)\<rparr>)) (links fabric0_host),
                 vxlans = map (\<lambda>p. (fst p, (iface_of p)\<lparr>fdb_dsts := Some [''10.0.0.3'', ''10.0.0.1'']\<rparr>)) [links fabric0_host ! 1],
                 bridges = map (\<lambda>p. (fst p, iface_of p)) [links fabric0_host ! 2],
                 vnets = [''default'', ''fabric0'']\<rparr>), fabric0_host)"
  by (simp add: NetworkInstaller_def get_interfaces_def get_virtual_networks_def linux_sel
        fabric0_host_def iface_of_def fdb_of_def)

lemma fabric0_pass: "reconcile (Suc 0) linux fabric0 fabric0_host = (Some (Inr ()), fabric0_host)"
  unfolding reconcile_def bnd_def fabric0_snapshot
  by (simp add: linux_eval fabric0_host_def)


theorem second_pass_same_state_witness:
  "tidy (links fresh_host)
   \<and> reconcile 1 linux fabric0 fresh_host = (Some (Inr ()), fabric0_host)
   \<and> reconcile 1 linux fabric0 fabric0_host = (Some (Inr ()), fabric0_host)
   \<and> map_of (links fabric0_host) ''br-fabric0'' = Some built_bridge
   \<and> map_of (libvirt_nets fabric0_host) ''fabric0'' = Some (built_net fabric0)
   \<and> count_list (map fst (links fabric0_host)) ''fabric0'' = 1"
proof -
  have t: "tidy (links fresh_host)" by (simp add: tidy_def fresh_host_def)
  from second_pass_same_state[OF t fresh_pass fabric0_pass] t fresh_pass fabric0_pass
  show ?thesis by (simp add: names_of_fabric0)
qed

end
